theory Spec2Isabelle
  imports Main
begin

section \<open>Time values\<close>

text \<open>
  A Python \<open>datetime\<close> is modelled as the number of microseconds since the epoch on the
  naive time line the program computes on (the resolution of \<open>datetime\<close>), a
  \<open>timedelta\<close> as a number of microseconds. Python's bound on the years of a
  \<open>datetime\<close> (1 to 9999) is checked where a value enters from outside
  (\<open>utcfromtimestamp\<close>).
\<close>

type_synonym datetime = int
type_synonym timedelta = int

definition minutes :: "int \<Rightarrow> timedelta" where
  "minutes n = n * 60000000"

definition seconds :: "int \<Rightarrow> timedelta" where
  "seconds n = n * 1000000"

text \<open>\<open>datetime.date()\<close>: the calendar day, as days since the epoch.\<close>

definition date :: "datetime \<Rightarrow> int" where
  "date t = t div 86400000000"

section \<open>The window generator \<open>daterange\<close>\<close>

text \<open>
  \<^verbatim>\<open>
  def daterange(start, end, step):
      curr = start
      while curr < end:
          yield curr, curr+step
          curr += step
  \<close>
  One resumption of the generator tests \<open>curr < end\<close>; it either yields the window
  \<open>(curr, curr + step)\<close> and goes on with \<open>curr + step\<close>, or it is exhausted.
\<close>

definition daterange_next :: "int \<Rightarrow> int \<Rightarrow> int \<Rightarrow> ((int \<times> int) \<times> int) option" where
  "daterange_next cursor end step =
     (if cursor < end then Some ((cursor, cursor + step), cursor + step) else None)"

text \<open>
  The whole sequence the generator yields from cursor \<open>cursor\<close>. The loop of the source
  does not end when \<open>step \<le> 0\<close> and \<open>cursor < end\<close>; the value is then \<open>None\<close>.
\<close>

partial_function (option) daterange :: "int \<Rightarrow> int \<Rightarrow> int \<Rightarrow> (int \<times> int) list option" where
  "daterange cursor end step =
     (case daterange_next cursor end step of
        None \<Rightarrow> Some []
      | Some (window, cursor') \<Rightarrow>
          Option.bind (daterange cursor' end step) (\<lambda>rest. Some (window # rest)))"


section \<open>Errors, JSON values and the outside world\<close>

text \<open>
  Every exception the modelled code can raise is a value. \<open>HTTPError\<close> carries the status
  code of the response (\<open>e.response.status_code\<close>); \<open>RequestException\<close> stands for the
  failures of \<open>requests.get\<close> that are not HTTP errors (timeouts, connection errors).
\<close>

datatype py_error =
    HTTPError nat
  | RequestException
  | JSONDecodeError
  | UnboundLocalError
  | KeyError
  | ValueError
  | OverflowError
  | OSError
  | ProgrammingError

text \<open>
  A JSON number of the response body: an integer, or a float whose value is kept abstract
  (type \<open>'f\<close>; its \<open>str()\<close> is a parameter of the functions that need it). A candle is the
  Python list of the values of one record, a response body a list of candles.
\<close>

datatype 'f jvalue = JInt int | JFloat 'f

type_synonym 'f candle = "'f jvalue list"

record 'f response =
  status_code :: nat
  json :: "'f candle list option"

text \<open>
  The parameters of a candle request. The source sends \<open>start.isoformat()\<close> and
  \<open>end.isoformat()\<close>; the model keeps the \<open>datetime\<close> values.
\<close>

record params =
  start_param :: datetime
  end_param :: datetime
  granularity :: nat

record request =
  url :: string
  params :: params

datatype level = DEBUG | INFO | WARNING | ERROR

text \<open>
  What the program does to the outside, in order: HTTP requests sent, calls of
  \<open>time.sleep\<close> (in milliseconds), calls of the logger (level and the fixed part of the
  message), and executions of the \<open>INSERT\<close> statement (with the values bound to it).
\<close>

datatype event =
    Sent request
  | Slept nat
  | Logged level string
  | Executed "string list"

text \<open>
  A row of table \<open>candles\<close>, in the column order of \<open>create_table\<close>:
  \<^verbatim>\<open>
  CREATE TABLE IF NOT EXISTS candles (
      market TEXT NOT NULL, time TEXT NOT NULL, open TEXT NOT NULL, high TEXT NOT NULL,
      low TEXT NOT NULL, close TEXT NOT NULL, volume TEXT NOT NULL,
      PRIMARY KEY (market, time));
  \<close>
\<close>

record candle_row =
  market :: string
  time :: string
  "open" :: string
  high :: string
  low :: string
  close :: string
  volume :: string

text \<open>
  The state the program runs in: the trace of its effects so far, the reading
  \<open>datetime.now()\<close> would give, and the rows of table \<open>candles\<close> (a database file without the
  table has no rows: \<open>create_table\<close> creates it empty and keeps an existing one).
\<close>

record world =
  trace :: "event list"
  clock :: datetime
  db :: "candle_row list"

text \<open>
  The upstream API: the reply to a request, given how many requests were sent before it;
  \<open>None\<close> when no HTTP response arrives.
\<close>

type_synonym 'f upstream = "nat \<Rightarrow> request \<Rightarrow> 'f response option"

fun sent :: "event list \<Rightarrow> request list" where
  "sent [] = []"
| "sent (Sent rq # es) = rq # sent es"
| "sent (_ # es) = sent es"

definition emit :: "event \<Rightarrow> world \<Rightarrow> world" where
  "emit e w = w\<lparr>trace := trace w @ [e]\<rparr>"

definition logger :: "level \<Rightarrow> string \<Rightarrow> world \<Rightarrow> world" where
  "logger lvl msg w = emit (Logged lvl msg) w"

definition sleep :: "nat \<Rightarrow> world \<Rightarrow> world" where
  "sleep ms w = (emit (Slept ms) w)\<lparr>clock := clock w + int ms * 1000\<rparr>"

section \<open>The fetch operation \<open>get\<close>\<close>

definition requests_get :: "'f upstream \<Rightarrow> string \<Rightarrow> params \<Rightarrow> world \<Rightarrow> 'f response option \<times> world" where
  "requests_get up u ps w =
     (let rq = \<lparr>url = u, params = ps\<rparr>
      in (up (length (sent (trace w))) rq, emit (Sent rq) w))"

text \<open>\<open>Response.raise_for_status\<close> raises \<open>HTTPError\<close> for the statuses 400 to 599.\<close>

definition raise_for_status :: "'f response \<Rightarrow> py_error option" where
  "raise_for_status r =
     (if 400 \<le> status_code r \<and> status_code r < 600 then Some (HTTPError (status_code r)) else None)"

definition tries :: nat where
  "tries = 3"

text \<open>\<open>return r.json()\<close>, for the value bound to \<open>r\<close> when the loop is left.\<close>

fun r_json :: "'f response option \<Rightarrow> py_error + 'f candle list" where
  "r_json None = Inl UnboundLocalError"
| "r_json (Some r) = (case json r of None \<Rightarrow> Inl JSONDecodeError | Some data \<Rightarrow> Inr data)"

text \<open>
  \<^verbatim>\<open>
  def get(url, params):
      tries = 3
      for i in range(tries):
          try:
              r = requests.get(url, params=params, timeout=(10, 10))
              r.raise_for_status()
          except requests.exceptions.HTTPError as e:
              if e.response.status_code in (429, 500) and (i < tries - 1):
                  logger.warning(e)
                  logger.info('Re-trying')
                  time.sleep(1)
                  continue
              else:
                  raise
          break
      return r.json()
  \<close>
  The loop over \<open>range(tries)\<close>, with the value of \<open>r\<close> so far.
\<close>

fun get_loop :: "'f upstream \<Rightarrow> string \<Rightarrow> params \<Rightarrow> 'f response option \<Rightarrow> nat list \<Rightarrow> world
    \<Rightarrow> (py_error + 'f candle list) \<times> world" where
  "get_loop up u ps r [] w = (r_json r, w)"
| "get_loop up u ps r (i # rest) w =
     (case requests_get up u ps w of
        (None, w1) \<Rightarrow> (Inl RequestException, w1)
      | (Some r', w1) \<Rightarrow>
          (case raise_for_status r' of
             Some e \<Rightarrow>
               if status_code r' \<in> {429, 500} \<and> i < tries - 1
               then get_loop up u ps (Some r') rest
                      (sleep 1000 (logger INFO ''Re-trying'' (logger WARNING ''HTTPError'' w1)))
               else (Inl e, w1)
           | None \<Rightarrow> (r_json (Some r'), w1)))"

definition get :: "'f upstream \<Rightarrow> string \<Rightarrow> params \<Rightarrow> world \<Rightarrow> (py_error + 'f candle list) \<times> world" where
  "get up u ps w = get_loop up u ps None [0..<tries] w"

section \<open>The importer \<open>get_candles\<close>\<close>

definition API_URL :: string where
  "API_URL = ''https://api.gdax.com''"

text \<open>
  The default value of parameter \<open>end_date\<close> of \<open>get_candles\<close> is the expression
  \<open>datetime.now()\<close>. Python evaluates it when the \<open>def\<close> statement runs, that is when the
  module is loaded, and keeps the value in the function object.
\<close>

record module =
  get_candles_end_date :: datetime

definition load_module :: "world \<Rightarrow> module" where
  "load_module w = \<lparr>get_candles_end_date = clock w\<rparr>"

text \<open>\<open>d = timedelta(minutes=300)\<close>\<close>

definition get_candles_d :: timedelta where
  "get_candles_d = minutes 300"

text \<open>
  \<open>get_candles\<close> is a generator function. Calling it binds the arguments and runs nothing;
  the body runs when the caller asks for the next item. A generator that is suspended at
  its \<open>yield\<close> holds its local variables: \<open>product\<close>, \<open>start_date\<close>, \<open>end_date\<close> (after the
  margin was taken off), the cursor of \<open>daterange\<close> and \<open>previous_start_date\<close>.
\<close>

datatype frame =
    Created string datetime datetime
  | Suspended string datetime datetime datetime int

definition get_candles :: "module \<Rightarrow> string \<Rightarrow> datetime \<Rightarrow> datetime option \<Rightarrow> frame" where
  "get_candles m product start_date end_date =
     Created product start_date
       (case end_date of None \<Rightarrow> get_candles_end_date m | Some e \<Rightarrow> e)"

text \<open>
  One turn of the \<open>for\<close> loop of \<open>get_candles\<close>, from asking \<open>daterange\<close> for its next window
  to the \<open>yield\<close>, the \<open>return\<close> or the end of the loop. The result is an exception that
  leaves the generator, \<open>None\<close> when the generator is finished, or the batch yielded and
  the suspended generator.
\<close>

definition get_candles_turn :: "'f upstream \<Rightarrow> string \<Rightarrow> datetime \<Rightarrow> datetime \<Rightarrow> datetime \<Rightarrow> int \<Rightarrow> world
    \<Rightarrow> (py_error + ('f candle list \<times> frame) option) \<times> world" where
  "get_candles_turn up product start_date end_date cursor previous_start_date w =
     (case daterange_next cursor end_date get_candles_d of
        None \<Rightarrow> (Inr None, w)
      | Some ((start, end), cursor') \<Rightarrow>
          (let w1 = logger DEBUG ''window'' w;
               w2 = (if date start \<noteq> previous_start_date then logger INFO ''importing'' w1 else w1)
           in case get up (API_URL @ ''/products/'' @ product @ ''/candles'')
                     \<lparr>start_param = start, end_param = end, granularity = 60\<rparr> w2 of
                (Inl (HTTPError status), w3) \<Rightarrow>
                  (Inr None,
                   logger ERROR ''HTTPError''
                     (logger ERROR ''Unable to fetch candles (max-retries exceeded)'' w3))
              | (Inl e, w3) \<Rightarrow> (Inl e, w3)
              | (Inr data, w3) \<Rightarrow>
                  (Inr (Some (data, Suspended product start_date end_date cursor' (date start))), w3)))"

text \<open>
  \<^verbatim>\<open>
  def get_candles(product, start_date, end_date=datetime.now()):
      d = timedelta(minutes=300)
      end_date = end_date - d
      if end_date < start_date:
          logger.debug(f'start date {start_date} is after end date {end_date}')
          return []
      previous_start_date = start_date.date()
      for start, end in daterange(start_date, end_date, d):
          ...
  \<close>
  Asking the generator for its next item.
\<close>

fun get_candles_next :: "'f upstream \<Rightarrow> frame \<Rightarrow> world
    \<Rightarrow> (py_error + ('f candle list \<times> frame) option) \<times> world" where
  "get_candles_next up (Created product start_date end_date0) w =
     (let end_date = end_date0 - get_candles_d
      in if end_date < start_date
         then (Inr None, logger DEBUG ''start date is after end date'' w)
         else get_candles_turn up product start_date end_date start_date (date start_date) w)"
| "get_candles_next up (Suspended product start_date end_date cursor previous_start_date) w =
     get_candles_turn up product start_date end_date cursor previous_start_date w"

fun frame_size :: "frame \<Rightarrow> nat" where
  "frame_size (Created product start_date end_date0) = nat (end_date0 - start_date) + 1"
| "frame_size (Suspended product start_date end_date cursor previous_start_date) =
     nat (end_date + get_candles_d - cursor)"

lemma get_candles_next_smaller:
  "get_candles_next up fr w = (Inr (Some (data, fr')), w1) \<Longrightarrow> frame_size fr' < frame_size fr"
  by (cases fr)
     (auto simp: get_candles_turn_def daterange_next_def get_candles_d_def minutes_def Let_def
           split: if_splits prod.splits sum.splits py_error.splits)

text \<open>
  \<open>for candles in <generator>: body\<close>. The body takes the batch and a state of the
  caller's, and may raise.
\<close>

function for_candles :: "'f upstream \<Rightarrow> ('f candle list \<Rightarrow> 's \<Rightarrow> world \<Rightarrow> (py_error + 's) \<times> world) \<Rightarrow> frame
    \<Rightarrow> 's \<Rightarrow> world \<Rightarrow> (py_error + 's) \<times> world" where
  "for_candles up body fr s w =
     (case get_candles_next up fr w of
        (Inl e, w1) \<Rightarrow> (Inl e, w1)
      | (Inr None, w1) \<Rightarrow> (Inr s, w1)
      | (Inr (Some (data, fr')), w1) \<Rightarrow>
          (case body data s w1 of
             (Inl e, w2) \<Rightarrow> (Inl e, w2)
           | (Inr s', w2) \<Rightarrow> for_candles up body fr' s' w2))"
  by pat_completeness auto
termination
  by (relation "measure (\<lambda>(up, body, fr, s, w). frame_size fr)")
     (auto dest: get_candles_next_smaller [OF sym])

text \<open>\<open>list(<generator>)\<close>: the batches the generator yields.\<close>

definition batches :: "'f upstream \<Rightarrow> frame \<Rightarrow> world \<Rightarrow> (py_error + 'f candle list list) \<times> world" where
  "batches up fr w = for_candles up (\<lambda>data acc w'. (Inr (acc @ [data]), w')) fr [] w"

section \<open>Text of numbers\<close>

text \<open>
  \<open>str\<close> of a Python integer: decimal digits, with \<open>-\<close> before a negative one, however
  many digits there are.
\<close>

definition digit_char :: "nat \<Rightarrow> char" where
  "digit_char n = ''0123456789'' ! n"

fun str_nat :: "nat \<Rightarrow> string" where
  "str_nat n = (if n < 10 then [digit_char n] else str_nat (n div 10) @ [digit_char (n mod 10)])"

declare str_nat.simps [simp del]

definition str_int :: "int \<Rightarrow> string" where
  "str_int i = (if i < 0 then CHR ''-'' # str_nat (nat (- i)) else str_nat (nat i))"

text \<open>\<open>str\<close> of a JSON number; \<open>float_str\<close> is \<open>str\<close> on floats.\<close>

fun py_str :: "('f \<Rightarrow> string) \<Rightarrow> 'f jvalue \<Rightarrow> string" where
  "py_str float_str (JInt i) = str_int i"
| "py_str float_str (JFloat x) = float_str x"

text \<open>
  What the model takes from Python's library without knowing how it is made:
  \<open>datetime.strptime\<close> with the format \<open>%Y-%m-%d\<close>, and \<open>int\<close> on a text with a character
  outside ASCII (Unicode has more white space and more digits than ASCII). In both, \<open>None\<close>
  is the \<open>ValueError\<close> of the library function.
\<close>

record library =
  strptime :: "string \<Rightarrow> datetime option"
  int_unicode :: "string \<Rightarrow> int option"

text \<open>
  \<open>int\<close> of a Python string. On an ASCII text: white space around the number is dropped
  (the blank and the codes 9 to 13), a sign may come first, and the digits may be grouped
  by single underscores. The number of digits is not limited and zeros may lead, as in
  \<open>str\<close> above (Python before 3.11).
\<close>

definition is_space :: "char \<Rightarrow> bool" where
  "is_space c = (c \<in> set [CHR '' '', CHR 0x09, CHR 0x0A, CHR 0x0B, CHR 0x0C, CHR 0x0D])"

definition strip :: "string \<Rightarrow> string" where
  "strip s = rev (dropWhile is_space (rev (dropWhile is_space s)))"

definition is_digit :: "char \<Rightarrow> bool" where
  "is_digit c = (48 \<le> (of_char c :: nat) \<and> (of_char c :: nat) \<le> 57)"

fun digits_ok :: "string \<Rightarrow> bool" where
  "digits_ok [] = False"
| "digits_ok [c] = is_digit c"
| "digits_ok (c # c' # cs) =
     (is_digit c \<and> (if c' = CHR ''_'' then digits_ok cs else digits_ok (c' # cs)))"

definition digits_value :: "string \<Rightarrow> nat" where
  "digits_value s = foldl (\<lambda>a c. a * 10 + (of_char c - 48)) 0 (filter (\<lambda>c. c \<noteq> CHR ''_'') s)"

definition is_ascii :: "string \<Rightarrow> bool" where
  "is_ascii s = (\<forall>c \<in> set s. (of_char c :: nat) < 128)"

definition int_ascii :: "string \<Rightarrow> py_error + int" where
  "int_ascii s =
     (let t = strip s;
          (sign, body) =
            (case t of
               [] \<Rightarrow> (1, [])
             | c # cs \<Rightarrow> if c = CHR ''-'' then (- 1, cs) else if c = CHR ''+'' then (1, cs) else (1, t))
      in if digits_ok body then Inr (sign * int (digits_value body)) else Inl ValueError)"

definition py_int :: "library \<Rightarrow> string \<Rightarrow> py_error + int" where
  "py_int lib s =
     (if is_ascii s then int_ascii s
      else (case int_unicode lib s of None \<Rightarrow> Inl ValueError | Some n \<Rightarrow> Inr n))"

text \<open>
  \<open>datetime.utcfromtimestamp\<close> of a number of seconds. Outside the years 1 to 9999 it
  raises: \<open>ValueError\<close> as long as the C library can break the number down into a date
  (its year fits 32 bits), \<open>OSError\<close> beyond that, and \<open>OverflowError\<close> when the number does
  not fit the 64 bits of \<open>time_t\<close> (the bounds are those of Linux on 64 bits).
\<close>

definition utcfromtimestamp :: "int \<Rightarrow> py_error + datetime" where
  "utcfromtimestamp n =
     (if - 62135596800 \<le> n \<and> n \<le> 253402300799 then Inr (seconds n)
      else if - 67768040609740800 \<le> n \<and> n \<le> 67768036191676799 then Inl ValueError
      else if - 9223372036854775808 \<le> n \<and> n \<le> 9223372036854775807 then Inl OSError
      else Inl OverflowError)"

section \<open>The store\<close>

text \<open>
  \<^verbatim>\<open>
  INSERT OR IGNORE INTO candles(market, time, low, high, open, close, volume)
  VALUES (?, ?, ?, ?, ?, ?, ?)
  \<close>
  The seven values bound to the statement go to the columns the statement names, in its
  order. A row whose primary key \<open>(market, time)\<close> is in the table already is ignored.
\<close>

definition insert_or_ignore :: "string list \<Rightarrow> candle_row list \<Rightarrow> py_error + candle_row list" where
  "insert_or_ignore vs rows =
     (case vs of
        [v_market, v_time, v_low, v_high, v_open, v_close, v_volume] \<Rightarrow>
          if \<exists>r \<in> set rows. market r = v_market \<and> time r = v_time then Inr rows
          else Inr (rows @ [\<lparr>market = v_market, time = v_time, open = v_open, high = v_high,
                               low = v_low, close = v_close, volume = v_volume\<rparr>])
      | _ \<Rightarrow> Inl ProgrammingError)"

text \<open>
  \<^verbatim>\<open>
  def candle_generator():
      for candle in candles:
          if len(candle) != 6:
              logger.warning(f'Response length invalid: {candle}')
              continue
          candle = [str(i) for i in candle]
          candle.insert(0, product)
          yield candle
  \<close>
  Asking the generator for its next item, with the candles it has not looked at yet: the
  item and the candles left, or \<open>None\<close> when it is finished.
\<close>

fun candle_generator :: "('f \<Rightarrow> string) \<Rightarrow> string \<Rightarrow> 'f candle list \<Rightarrow> world
    \<Rightarrow> (string list \<times> 'f candle list) option \<times> world" where
  "candle_generator float_str product [] w = (None, w)"
| "candle_generator float_str product (candle # rest) w =
     (if length candle \<noteq> 6
      then candle_generator float_str product rest (logger WARNING ''Response length invalid'' w)
      else (Some (product # map (py_str float_str) candle, rest), w))"

lemma candle_generator_shorter:
  "candle_generator float_str product cs w = (Some (vs, rest), w1) \<Longrightarrow> length rest < length cs"
  by (induction cs arbitrary: w) (force split: if_splits intro: less_SucI)+

text \<open>\<open>cur.executemany(statement, candle_generator())\<close>\<close>

function executemany :: "('f \<Rightarrow> string) \<Rightarrow> string \<Rightarrow> 'f candle list \<Rightarrow> world \<Rightarrow> (py_error + unit) \<times> world" where
  "executemany float_str product cs w =
     (case candle_generator float_str product cs w of
        (None, w1) \<Rightarrow> (Inr (), w1)
      | (Some (vs, rest), w1) \<Rightarrow>
          (case insert_or_ignore vs (db w1) of
             Inl e \<Rightarrow> (Inl e, emit (Executed vs) w1)
           | Inr rows \<Rightarrow> executemany float_str product rest ((emit (Executed vs) w1)\<lparr>db := rows\<rparr>)))"
  by pat_completeness auto
termination
  by (relation "measure (\<lambda>(float_str, product, cs, w). length cs)")
     (auto dest: candle_generator_shorter [OF sym])

definition insert_db :: "('f \<Rightarrow> string) \<Rightarrow> string \<Rightarrow> 'f candle list \<Rightarrow> world \<Rightarrow> (py_error + unit) \<times> world" where
  "insert_db float_str product cs w = executemany float_str product cs (logger DEBUG ''inserting to db'' w)"

text \<open>
  \<open>with con: ...\<close>: the transaction is committed when the block ends, and rolled back
  when it raises.
\<close>

definition with_con :: "(world \<Rightarrow> (py_error + 'a) \<times> world) \<Rightarrow> world \<Rightarrow> (py_error + 'a) \<times> world" where
  "with_con block w =
     (case block w of
        (Inl e, w1) \<Rightarrow> (Inl e, w1\<lparr>db := db w\<rparr>)
      | (Inr x, w1) \<Rightarrow> (Inr x, w1))"

text \<open>
  The order of SQLite on \<open>TEXT\<close> values (collation \<open>BINARY\<close>): byte by byte, a proper
  prefix first.
\<close>

fun text_less :: "string \<Rightarrow> string \<Rightarrow> bool" where
  "text_less [] [] = False"
| "text_less [] (y # ys) = True"
| "text_less (x # xs) [] = False"
| "text_less (x # xs) (y # ys) =
     ((of_char x :: nat) < of_char y \<or> (x = y \<and> text_less xs ys))"

text \<open>\<open>select max(time) from candles where market=?\<close>; \<open>None\<close> is SQL's \<open>NULL\<close>.\<close>

definition select_max_time :: "candle_row list \<Rightarrow> string \<Rightarrow> string option" where
  "select_max_time rows product =
     (case map time (filter (\<lambda>r. market r = product) rows) of
        [] \<Rightarrow> None
      | t # ts \<Rightarrow> Some (foldl (\<lambda>m x. if text_less m x then x else m) t ts))"

section \<open>The driver\<close>

definition PRODUCTS :: "(string \<times> string) list" where
  "PRODUCTS =
     [(''BCH-BTC'', ''2018-01-17''), (''BCH-USD'', ''2017-12-20''), (''BCH-EUR'', ''2018-01-24''),
      (''BTC-EUR'', ''2015-04-23''), (''BTC-USD'', ''2015-01-08''), (''BTC-GBP'', ''2015-04-21''),
      (''ETH-BTC'', ''2016-05-18''), (''ETH-EUR'', ''2017-05-23''), (''ETH-USD'', ''2016-05-18''),
      (''LTC-BTC'', ''2016-08-17''), (''LTC-USD'', ''2016-08-17''), (''LTC-EUR'', ''2017-05-22'')]"

text \<open>
  \<^verbatim>\<open>
  def get_start_date(product, cur):
      cur.execute('select max(time) from candles where market=?', (product,))
      try:
          start_date = datetime.utcfromtimestamp(int(cur.fetchone()[0]))
          logging.info(f'Resuming from {start_date}')
      except TypeError:
          start_date = datetime.strptime(PRODUCTS[product], '%Y-%m-%d')
          logging.info('No previous data found. Importing full history')
      return start_date
  \<close>
  \<open>int(None)\<close> raises the \<open>TypeError\<close> that is caught.
\<close>

definition get_start_date :: "library \<Rightarrow> string \<Rightarrow> world
    \<Rightarrow> (py_error + datetime) \<times> world" where
  "get_start_date lib product w =
     (case select_max_time (db w) product of
        Some t \<Rightarrow>
          (case py_int lib t of
             Inl e \<Rightarrow> (Inl e, w)
           | Inr n \<Rightarrow>
               (case utcfromtimestamp n of
                  Inl e \<Rightarrow> (Inl e, w)
                | Inr start_date \<Rightarrow> (Inr start_date, logger INFO ''Resuming from'' w)))
      | None \<Rightarrow>
          (case map_of PRODUCTS product of
             None \<Rightarrow> (Inl KeyError, w)
           | Some day \<Rightarrow>
               (case strptime lib day of
                  None \<Rightarrow> (Inl ValueError, w)
                | Some start_date \<Rightarrow>
                    (Inr start_date, logger INFO ''No previous data found. Importing full history'' w))))"

text \<open>
  The command line: \<open>--start-date\<close> and \<open>--product\<close>. The database file is the \<open>db\<close> of the
  world; the log level is left out, the trace holds every call of the logger.
\<close>

record args =
  args_start_date :: "string option"
  args_product :: "string option"

text \<open>
  \<^verbatim>\<open>
  if args.start_date is not None:
      start_date = datetime.strptime(args.start_date, '%Y-%m-%d')
  else:
      start_date = get_start_date(product, cur)
  \<close>
\<close>

definition main_start_date :: "library \<Rightarrow> args \<Rightarrow> string \<Rightarrow> world
    \<Rightarrow> (py_error + datetime) \<times> world" where
  "main_start_date lib a product w =
     (case args_start_date a of
        Some s \<Rightarrow>
          (case strptime lib s of
             None \<Rightarrow> (Inl ValueError, w)
           | Some start_date \<Rightarrow> (Inr start_date, w))
      | None \<Rightarrow> get_start_date lib product w)"

text \<open>
  \<^verbatim>\<open>
  for candles in get_candles(product, start_date):
      logger.debug(log_prefix + f'fetched {len(candles)} candles')
      with con:
          insert_db(cur, product, candles)
      time.sleep(0.5)
  \<close>
  The body of the loop.
\<close>

definition main_body :: "('f \<Rightarrow> string) \<Rightarrow> string \<Rightarrow> 'f candle list \<Rightarrow> unit \<Rightarrow> world \<Rightarrow> (py_error + unit) \<times> world" where
  "main_body float_str product cs u w =
     (case with_con (insert_db float_str product cs) (logger DEBUG ''fetched candles'' w) of
        (Inl e, w1) \<Rightarrow> (Inl e, w1)
      | (Inr _, w1) \<Rightarrow> (Inr (), sleep 500 w1))"

text \<open>The loop of \<open>main\<close> over the products to update.\<close>

fun main_loop :: "library \<Rightarrow> ('f \<Rightarrow> string) \<Rightarrow> 'f upstream \<Rightarrow> module \<Rightarrow> args
    \<Rightarrow> string list \<Rightarrow> world \<Rightarrow> (py_error + unit) \<times> world" where
  "main_loop lib float_str up m a [] w = (Inr (), w)"
| "main_loop lib float_str up m a (product # rest) w =
     (case main_start_date lib a product w of
        (Inl e, w1) \<Rightarrow> (Inl e, w1)
      | (Inr start_date, w1) \<Rightarrow>
          (case for_candles up (main_body float_str product) (get_candles m product start_date None) ()
                  (logger INFO ''starting from'' w1) of
             (Inl e, w2) \<Rightarrow> (Inl e, w2)
           | (Inr _, w2) \<Rightarrow> main_loop lib float_str up m a rest w2))"

text \<open>
  \<^verbatim>\<open>
  if args.product:
      products_to_update = {args.product: PRODUCTS[args.product]}
  else:
      products_to_update = PRODUCTS
  \<close>
\<close>

definition products_to_update :: "args \<Rightarrow> py_error + (string \<times> string) list" where
  "products_to_update a =
     (case args_product a of
        None \<Rightarrow> Inr PRODUCTS
      | Some p \<Rightarrow>
          if p = [] then Inr PRODUCTS
          else (case map_of PRODUCTS p of None \<Rightarrow> Inl KeyError | Some day \<Rightarrow> Inr [(p, day)]))"

text \<open>
  \<open>main\<close>, from the first log line on. \<open>create_table\<close> has no effect on the rows of the
  table; \<open>con.close()\<close> ends the run.
\<close>

definition main :: "library \<Rightarrow> ('f \<Rightarrow> string) \<Rightarrow> 'f upstream \<Rightarrow> module \<Rightarrow> args
    \<Rightarrow> world \<Rightarrow> (py_error + unit) \<times> world" where
  "main lib float_str up m a w =
     (let w1 = logger DEBUG ''Database'' w
      in case products_to_update a of
           Inl e \<Rightarrow> (Inl e, w1)
         | Inr ps \<Rightarrow> main_loop lib float_str up m a (map fst ps) (logger INFO ''Updating'' w1))"

text \<open>Running the program: the module is loaded, then \<open>main()\<close> is called.\<close>

definition program :: "library \<Rightarrow> ('f \<Rightarrow> string) \<Rightarrow> 'f upstream \<Rightarrow> args
    \<Rightarrow> world \<Rightarrow> (py_error + unit) \<times> world" where
  "program lib float_str up a w = main lib float_str up (load_module w) a w"


declare for_candles.simps [simp del]

declare executemany.simps [simp del]

section \<open>Notions used in the statements\<close>

text \<open>The warnings logged and the \<open>INSERT\<close> statements executed, read off a trace.\<close>

fun warnings :: "event list \<Rightarrow> nat" where
  "warnings [] = 0"
| "warnings (Logged WARNING msg # es) = Suc (warnings es)"
| "warnings (_ # es) = warnings es"

fun executed :: "event list \<Rightarrow> string list list" where
  "executed [] = []"
| "executed (Executed vs # es) = vs # executed es"
| "executed (_ # es) = executed es"

text \<open>The row stored under a primary key, if there is one.\<close>

definition lookup_row :: "candle_row list \<Rightarrow> string \<Rightarrow> string \<Rightarrow> candle_row option" where
  "lookup_row rows m t = find (\<lambda>r. market r = m \<and> time r = t) rows"

definition has_key :: "candle_row list \<Rightarrow> string \<Rightarrow> string \<Rightarrow> bool" where
  "has_key rows m t = (\<exists>r \<in> set rows. market r = m \<and> time r = t)"

definition keys :: "candle_row list \<Rightarrow> (string \<times> string) list" where
  "keys rows = map (\<lambda>r. (market r, time r)) rows"

text \<open>
  The table after \<open>insert_db\<close> has worked through a batch, and the events it adds to the
  trace after its first log line.
\<close>

definition candle_values :: "('f \<Rightarrow> string) \<Rightarrow> string \<Rightarrow> 'f candle \<Rightarrow> string list" where
  "candle_values float_str product candle = product # map (py_str float_str) candle"

fun stored :: "('f \<Rightarrow> string) \<Rightarrow> string \<Rightarrow> 'f candle list \<Rightarrow> candle_row list \<Rightarrow> candle_row list" where
  "stored float_str product [] rows = rows"
| "stored float_str product (candle # rest) rows =
     (if length candle \<noteq> 6 then stored float_str product rest rows
      else (case insert_or_ignore (candle_values float_str product candle) rows of
              Inl e \<Rightarrow> rows
            | Inr rows' \<Rightarrow> stored float_str product rest rows'))"

fun insert_events :: "('f \<Rightarrow> string) \<Rightarrow> string \<Rightarrow> 'f candle list \<Rightarrow> event list" where
  "insert_events float_str product [] = []"
| "insert_events float_str product (candle # rest) =
     (if length candle \<noteq> 6 then Logged WARNING ''Response length invalid''
      else Executed (candle_values float_str product candle)) # insert_events float_str product rest"

text \<open>The requests of a product for a list of windows, as \<open>get_candles\<close> makes them.\<close>

definition window_requests :: "string \<Rightarrow> (datetime \<times> datetime) list \<Rightarrow> request list" where
  "window_requests product ws =
     map (\<lambda>(start, end).
            \<lparr>url = API_URL @ ''/products/'' @ product @ ''/candles'',
              params = \<lparr>start_param = start, end_param = end, granularity = 60\<rparr>\<rparr>) ws"

text \<open>
  The end bound a generator of \<open>get_candles\<close> works with (the end date less the margin), and
  the requests for a window of 300 minutes that starts before a bound.
\<close>

fun frame_end :: "frame \<Rightarrow> datetime" where
  "frame_end (Created product start_date end_date0) = end_date0 - get_candles_d"
| "frame_end (Suspended product start_date end_date cursor previous_start_date) = end_date"

definition requests_before :: "datetime \<Rightarrow> request set" where
  "requests_before e =
     {rq. start_param (params rq) < e \<and> end_param (params rq) = start_param (params rq) + get_candles_d}"

section \<open>Example inputs\<close>

definition world0 :: world where
  "world0 = \<lparr>trace = [], clock = 0, db = []\<rparr>"

definition batch0 :: "string candle list" where
  "batch0 =
     [[JInt 1514764800, JFloat ''0.31'', JFloat ''0.35'', JFloat ''0.32'', JFloat ''0.34'', JFloat ''12.5''],
      [JInt 1514764860, JFloat ''0.33'', JFloat ''0.36'', JFloat ''0.34'', JFloat ''0.35'', JFloat ''7.25''],
      [JInt 1514764920, JFloat ''0.34'', JFloat ''0.35'', JFloat ''0.35'', JFloat ''0.34''],
      [JInt 1514764980, JFloat ''0.32'', JFloat ''0.34'', JFloat ''0.34'', JFloat ''0.33'', JFloat ''3.0''],
      [JInt 1514765040, JFloat ''0.33'', JFloat ''0.37'', JFloat ''0.33'', JFloat ''0.36'', JFloat ''9.75'']]"

text \<open>A date parser that knows two dates, and a table with two rows of one product.\<close>

definition strptime0 :: "string \<Rightarrow> datetime option" where
  "strptime0 s =
     (if s = ''2015-01-08'' then Some (seconds 1420675200)
      else if s = ''2017-06-01'' then Some (seconds 1496275200)
      else None)"

definition lib0 :: library where
  "lib0 = \<lparr>strptime = strptime0, int_unicode = (\<lambda>s. None)\<rparr>"

text \<open>
  Tables whose times are not of one length: two candles a minute apart, of 2001-09-09 01:46
  and 01:47, and one candle of the first second of the year 10000.
\<close>

definition rows1 :: "candle_row list" where
  "rows1 =
     [\<lparr>market = ''BTC-USD'', time = ''999999960'', open = ''0.32'', high = ''0.35'', low = ''0.31'',
        close = ''0.34'', volume = ''12.5''\<rparr>,
      \<lparr>market = ''BTC-USD'', time = ''1000000020'', open = ''0.34'', high = ''0.36'', low = ''0.33'',
        close = ''0.35'', volume = ''7.25''\<rparr>]"



text \<open>
  A world whose clock reads 2015-01-08 05:01, and an upstream that refuses every request.
\<close>

definition world1 :: world where
  "world1 = \<lparr>trace = [], clock = seconds 1420675200 + minutes 301, db = []\<rparr>"

text \<open>
  A world whose clock reads 2015-01-08 09:59:59, one second before a second window of 300
  minutes would fit before the safe end, and one whose clock reads 2015-01-08 16:40.
\<close>

definition world2 :: world where
  "world2 = \<lparr>trace = [], clock = seconds 1420675200 + minutes 600 - seconds 1, db = []\<rparr>"

definition world3 :: world where
  "world3 = \<lparr>trace = [], clock = seconds 1420675200 + minutes 1000, db = []\<rparr>"

definition forbidden :: "string upstream" where
  "forbidden n rq = Some \<lparr>status_code = 403, json = None\<rparr>"

text \<open>
  An upstream that answers every request with the candle of the last minute before the
  end of the window asked for.
\<close>

definition last_minute :: "string upstream" where
  "last_minute n rq =
     Some \<lparr>status_code = 200,
           json = Some [[JInt (end_param (params rq) div 1000000 - 60), JFloat ''0.31'', JFloat ''0.35'',
                         JFloat ''0.32'', JFloat ''0.34'', JFloat ''12.5'']]\<rparr>"

definition params0 :: params where
  "params0 = \<lparr>start_param = 0, end_param = minutes 300, granularity = 60\<rparr>"

text \<open>An upstream that answers the first \<open>k\<close> requests with \<open>status\<close> and then with a body.\<close>

definition failing_first :: "nat \<Rightarrow> nat \<Rightarrow> 'f candle list \<Rightarrow> 'f upstream" where
  "failing_first k status data n rq =
     (if n < k then Some \<lparr>status_code = status, json = None\<rparr>
      else Some \<lparr>status_code = 200, json = Some data\<rparr>)"

section \<open>Properties of the window generator\<close>

lemma daterange_stop: "end \<le> cursor \<Longrightarrow> daterange cursor end step = Some []"
  by (subst daterange.simps) (simp add: daterange_next_def)

lemma daterange_go:
  "cursor < end \<Longrightarrow>
   daterange cursor end step =
     Option.bind (daterange (cursor + step) end step) (\<lambda>rest. Some ((cursor, cursor + step) # rest))"
  by (subst daterange.simps) (simp add: daterange_next_def)

definition windows :: "int \<Rightarrow> int \<Rightarrow> nat \<Rightarrow> (int \<times> int) list" where
  "windows start step n = map (\<lambda>k. (start + int k * step, start + int k * step + step)) [0..<n]"

lemma windows_Suc:
  "windows start step (Suc n) = (start, start + step) # windows (start + step) step n"
proof -
  have "map (\<lambda>k. (start + int k * step, start + int k * step + step)) [0..<Suc n] =
        (start, start + step) #
        map (\<lambda>k. (start + int (Suc k) * step, start + int (Suc k) * step + step)) [0..<n]"
    by (simp only: map_upt_Suc) simp
  moreover have "\<And>k. start + int (Suc k) * step = start + step + int k * step"
    by (simp add: algebra_simps)
  ultimately show ?thesis
    by (simp add: windows_def)
qed

lemma daterange_closed_form:
  "0 < step \<Longrightarrow> (n = 0 \<or> start + (int n - 1) * step < end) \<Longrightarrow> end \<le> start + int n * step \<Longrightarrow>
   daterange start end step = Some (windows start step n)"
proof (induction n arbitrary: start)
  case 0
  then show ?case by (simp add: daterange_stop windows_def)
next
  case (Suc n)
  have pos: "0 \<le> int n * step" using Suc.prems(1) by simp
  from Suc.prems(2) have "start + int n * step < end" by simp
  with pos have lt: "start < end" by linarith
  have a: "n = 0 \<or> (start + step) + (int n - 1) * step < end"
    using Suc.prems(2) by (auto simp: algebra_simps)
  have b: "end \<le> (start + step) + int n * step"
    using Suc.prems(3) by (simp add: algebra_simps)
  have "daterange (start + step) end step = Some (windows (start + step) step n)"
    by (rule Suc.IH [OF Suc.prems(1) a b])
  then show ?case
    by (simp add: daterange_go [OF lt] windows_Suc)
qed

text \<open>The number of windows: the least \<open>n\<close> with \<open>end \<le> start + n * step\<close>.\<close>

lemma window_count_exists:
  assumes "0 < step"
  shows "\<exists>n. (n = 0 \<or> start + (int n - 1) * step < end) \<and> end \<le> start + int n * step"
proof -
  define P where "P n \<longleftrightarrow> end \<le> start + int n * step" for n
  have "end - start \<le> int (nat (end - start)) * step"
  proof (cases "end - start \<le> 0")
    case True
    then show ?thesis by simp
  next
    case False
    then have "int (nat (end - start)) = end - start" by simp
    moreover have "(end - start) * 1 \<le> (end - start) * step"
      using False assms by (intro mult_left_mono) auto
    ultimately show ?thesis by simp
  qed
  then have ex: "P (nat (end - start))" by (simp add: P_def)
  define n where "n = (LEAST n. P n)"
  have Pn: "P n" unfolding n_def using ex by (rule LeastI)
  have "n = 0 \<or> start + (int n - 1) * step < end"
  proof (cases n)
    case 0
    then show ?thesis by simp
  next
    case (Suc m)
    have "\<not> P m" using not_less_Least [of m P] Suc by (simp add: n_def)
    then show ?thesis using Suc by (simp add: P_def)
  qed
  with Pn show ?thesis by (auto simp: P_def)
qed

lemma windows_nth:
  "i < n \<Longrightarrow> windows start step n ! i = (start + int i * step, start + int i * step + step)"
  by (simp add: windows_def)

lemma length_windows: "length (windows start step n) = n"
  by (simp add: windows_def)

lemma window_index_unique:
  fixes step :: int
  assumes "0 < step"
    and "start + int i * step \<le> t" "t < start + int i * step + step"
    and "start + int j * step \<le> t" "t < start + int j * step + step"
  shows "i = j"
proof (rule ccontr)
  assume ne: "i \<noteq> j"
  have aux: False
    if "a < b" "start + int b * step \<le> t" "t < start + int a * step + step" for a b :: nat
  proof -
    from that(1) have "int a + 1 \<le> int b" by simp
    then have "(int a + 1) * step \<le> int b * step"
      using assms(1) by (intro mult_right_mono) auto
    then have "start + int a * step + step \<le> start + int b * step"
      by (simp add: algebra_simps)
    with that(2,3) show False by linarith
  qed
  from ne consider "i < j" | "j < i" by linarith
  then show False
    using aux [of i j] aux [of j i] assms by cases auto
qed

lemma window_index_exists:
  fixes step :: int
  assumes "0 < step" "start \<le> t" "t < end"
    and "end \<le> start + int n * step"
  shows "\<exists>i<n. start + int i * step \<le> t \<and> t < start + int i * step + step"
proof -
  define i where "i = nat ((t - start) div step)"
  have nn: "0 \<le> (t - start) div step"
    using assms(1,2) by (simp add: pos_imp_zdiv_nonneg_iff)
  then have ii: "int i = (t - start) div step" by (simp add: i_def)
  have eq: "t - start = int i * step + (t - start) mod step"
    by (simp add: ii)
  have m0: "0 \<le> (t - start) mod step" and m1: "(t - start) mod step < step"
    using assms(1) by simp_all
  have lo: "start + int i * step \<le> t" using eq m0 by linarith
  have hi: "t < start + int i * step + step" using eq m1 by linarith
  have "i < n"
  proof (rule ccontr)
    assume "\<not> i < n"
    then have "int n \<le> int i" by simp
    then have "int n * step \<le> int i * step"
      using assms(1) by (intro mult_right_mono) auto
    with lo assms(3,4) show False by linarith
  qed
  with lo hi show ?thesis by blast
qed

text \<open>
  C4. For all \<open>start < end\<close> and \<open>step > 0\<close> the generator yields a finite, non-empty list of
  windows; the first starts at \<open>start\<close>; the window number \<open>i\<close> is \<open>(cursor, cursor + step)\<close>
  with \<open>cursor = start + i * step\<close>; each window ends where the next starts; every instant of
  \<open>[start, end)\<close> lies in exactly one window; every window but the last ends before \<open>end\<close>,
  and the last one ends at or after \<open>end\<close>.
\<close>

theorem daterange_window_coverage:
  assumes "start < end" and "0 < step"
  shows "\<exists>ws. daterange start end step = Some ws
           \<and> ws \<noteq> [] \<and> fst (hd ws) = start
           \<and> (\<forall>i<length ws. ws ! i = (start + int i * step, start + int i * step + step))
           \<and> (\<forall>i. Suc i < length ws \<longrightarrow> snd (ws ! i) = fst (ws ! Suc i))
           \<and> (\<forall>t. start \<le> t \<and> t < end \<longrightarrow>
                 (\<exists>!i. i < length ws \<and> fst (ws ! i) \<le> t \<and> t < snd (ws ! i)))
           \<and> (\<forall>i. Suc i < length ws \<longrightarrow> snd (ws ! i) < end)
           \<and> end \<le> snd (last ws)"
proof -
  from window_count_exists [OF assms(2), of start "end"]
  obtain n where n1: "n = 0 \<or> start + (int n - 1) * step < end"
    and n2: "end \<le> start + int n * step"
    by blast
  have npos: "0 < n" using n2 assms(1) by (cases n) auto
  with n1 have n3: "start + (int n - 1) * step < end" by simp
  define ws where "ws = windows start step n"
  have run: "daterange start end step = Some ws"
    unfolding ws_def by (rule daterange_closed_form [OF assms(2) n1 n2])
  have len: "length ws = n" by (simp add: ws_def length_windows)
  have nth: "ws ! i = (start + int i * step, start + int i * step + step)" if "i < n" for i
    using that by (simp add: ws_def windows_nth)
  have ne: "ws \<noteq> []" using len npos by auto
  have first: "fst (hd ws) = start"
    using nth [OF npos] ne by (simp add: hd_conv_nth)
  have contig: "snd (ws ! i) = fst (ws ! Suc i)" if "Suc i < n" for i
  proof -
    have "i < n" using that by simp
    then show ?thesis using nth [of i] nth [OF that] by (simp add: algebra_simps)
  qed
  have before: "snd (ws ! i) < end" if "Suc i < n" for i
  proof -
    have "int (Suc i) \<le> int n - 1" using that by simp
    then have "int (Suc i) * step \<le> (int n - 1) * step"
      using assms(2) by (intro mult_right_mono) auto
    then have "start + int (Suc i) * step < end" using n3 by linarith
    moreover have "snd (ws ! i) = start + int (Suc i) * step"
      using contig [OF that] nth [OF that] by simp
    ultimately show ?thesis by simp
  qed
  have cover: "\<exists>!i. i < length ws \<and> fst (ws ! i) \<le> t \<and> t < snd (ws ! i)"
    if "start \<le> t \<and> t < end" for t
  proof -
    from window_index_exists [OF assms(2) _ _ n2, of t] that
    obtain i where i: "i < n" "start + int i * step \<le> t" "t < start + int i * step + step"
      by blast
    show ?thesis
    proof (rule ex1I [of _ i])
      show "i < length ws \<and> fst (ws ! i) \<le> t \<and> t < snd (ws ! i)"
        using i nth [of i] len by simp
    next
      fix j
      assume j: "j < length ws \<and> fst (ws ! j) \<le> t \<and> t < snd (ws ! j)"
      then have "j < n" using len by simp
      with j nth [of j] have "start + int j * step \<le> t" "t < start + int j * step + step"
        by simp_all
      then show "j = i"
        using window_index_unique [OF assms(2) _ _ i(2,3), of j] by simp
    qed
  qed
  have final: "end \<le> snd (last ws)"
  proof -
    have "last ws = ws ! (n - 1)" using ne len by (simp add: last_conv_nth)
    also have "\<dots> = (start + int (n - 1) * step, start + int (n - 1) * step + step)"
      using npos by (intro nth) simp
    finally have "snd (last ws) = start + int (n - 1) * step + step" by simp
    also have "\<dots> = start + int n * step"
      using npos by (simp add: algebra_simps of_nat_diff)
    finally show ?thesis using n2 by simp
  qed
  show ?thesis
    using run ne first nth contig cover before final len by (intro exI [of _ ws]) simp
qed

theorem daterange_window_coverage_witness:
  "(0::int) < 10 \<and> (0::int) < 3 \<and> daterange 0 10 3 = Some [(0, 3), (3, 6), (6, 9), (9, 12)]
   \<and> (\<exists>ws. daterange 0 10 3 = Some ws
           \<and> ws \<noteq> [] \<and> fst (hd ws) = 0
           \<and> (\<forall>i<length ws. ws ! i = (0 + int i * 3, 0 + int i * 3 + 3))
           \<and> (\<forall>i. Suc i < length ws \<longrightarrow> snd (ws ! i) = fst (ws ! Suc i))
           \<and> (\<forall>t. 0 \<le> t \<and> t < 10 \<longrightarrow>
                 (\<exists>!i. i < length ws \<and> fst (ws ! i) \<le> t \<and> t < snd (ws ! i)))
           \<and> (\<forall>i. Suc i < length ws \<longrightarrow> snd (ws ! i) < 10)
           \<and> 10 \<le> snd (last ws))"
proof (intro conjI)
  show "(0::int) < 10" by simp
  show "(0::int) < 3" by simp
  show "daterange 0 10 3 = Some [(0, 3), (3, 6), (6, 9), (9, 12)]"
    by (simp add: daterange.simps daterange_next_def)
  show "\<exists>ws. daterange 0 10 3 = Some ws
           \<and> ws \<noteq> [] \<and> fst (hd ws) = 0
           \<and> (\<forall>i<length ws. ws ! i = (0 + int i * 3, 0 + int i * 3 + 3))
           \<and> (\<forall>i. Suc i < length ws \<longrightarrow> snd (ws ! i) = fst (ws ! Suc i))
           \<and> (\<forall>t. 0 \<le> t \<and> t < 10 \<longrightarrow>
                 (\<exists>!i. i < length ws \<and> fst (ws ! i) \<le> t \<and> t < snd (ws ! i)))
           \<and> (\<forall>i. Suc i < length ws \<longrightarrow> snd (ws ! i) < 10)
           \<and> 10 \<le> snd (last ws)"
    by (rule daterange_window_coverage) simp_all
qed

section \<open>The retry policy of \<open>get\<close>\<close>

lemma sent_append: "sent (xs @ ys) = sent xs @ sent ys"
  by (induction xs rule: sent.induct) simp_all

lemma get_unfold:
  "get up u ps w = get_loop up u ps None [0, Suc 0, Suc (Suc 0)] w"
  by (simp add: get_def tries_def upt_rec)

lemma requests_get_eq:
  "requests_get up u ps w =
     (up (length (sent (trace w))) \<lparr>url = u, params = ps\<rparr>, emit (Sent \<lparr>url = u, params = ps\<rparr>) w)"
  by (simp add: requests_get_def Let_def)

text \<open>The three ways one attempt can end, when a response arrives.\<close>

lemma get_loop_retry:
  assumes "up (length (sent (trace w))) \<lparr>url = u, params = ps\<rparr> = Some r'"
    and "status_code r' \<in> {429, 500}" and "i < tries - 1"
  shows "get_loop up u ps r (i # rest) w =
           get_loop up u ps (Some r') rest
             (sleep 1000 (logger INFO ''Re-trying'' (logger WARNING ''HTTPError''
                (emit (Sent \<lparr>url = u, params = ps\<rparr>) w))))"
  using assms by (auto simp: requests_get_eq raise_for_status_def)

lemma get_loop_raise:
  assumes "up (length (sent (trace w))) \<lparr>url = u, params = ps\<rparr> = Some r'"
    and "400 \<le> status_code r'" and "status_code r' < 600"
    and "status_code r' \<notin> {429, 500} \<or> \<not> i < tries - 1"
  shows "get_loop up u ps r (i # rest) w =
           (Inl (HTTPError (status_code r')), emit (Sent \<lparr>url = u, params = ps\<rparr>) w)"
  using assms by (auto simp: requests_get_eq raise_for_status_def)

lemma get_loop_break:
  assumes "up (length (sent (trace w))) \<lparr>url = u, params = ps\<rparr> = Some r'"
    and "status_code r' < 400 \<or> 600 \<le> status_code r'"
  shows "get_loop up u ps r (i # rest) w =
           (r_json (Some r'), emit (Sent \<lparr>url = u, params = ps\<rparr>) w)"
  using assms by (auto simp: requests_get_eq raise_for_status_def)

lemma sent_after_retry:
  "length (sent (trace (sleep 1000 (logger INFO ''Re-trying'' (logger WARNING ''HTTPError''
      (emit (Sent rq) w)))))) = Suc (length (sent (trace w)))"
  by (simp add: sleep_def logger_def emit_def sent_append)

lemma retry_world:
  "sleep 1000 (logger INFO ''Re-trying'' (logger WARNING ''HTTPError'' (emit (Sent rq) w))) =
     w\<lparr>trace := trace w @ [Sent rq, Logged WARNING ''HTTPError'', Logged INFO ''Re-trying'', Slept 1000],
       clock := clock w + 1000000\<rparr>"
  by (simp add: sleep_def logger_def emit_def)

text \<open>
  C2. Let the first two attempts of \<open>get\<close> be answered with status 429 or 500. If the
  third attempt succeeds, \<open>get\<close> returns the parsed body of the third response; if the third
  attempt is answered with 429 or 500 again, \<open>get\<close> raises the \<open>HTTPError\<close> of the third
  response. In both cases exactly three requests are sent, with a warning, an info line
  and a sleep of one second after the first and after the second, and nothing after the
  third.
\<close>

theorem get_retry_ceiling:
  assumes "n = length (sent (trace w))" and "rq = \<lparr>url = u, params = ps\<rparr>"
    and "up n rq = Some r1" and "status_code r1 \<in> {429, 500}"
    and "up (n + 1) rq = Some r2" and "status_code r2 \<in> {429, 500}"
    and "up (n + 2) rq = Some r3"
  shows "(status_code r3 < 400 \<and> json r3 = Some data \<longrightarrow>
            get up u ps w =
              (Inr data,
               w\<lparr>trace := trace w @
                    [Sent rq, Logged WARNING ''HTTPError'', Logged INFO ''Re-trying'', Slept 1000,
                     Sent rq, Logged WARNING ''HTTPError'', Logged INFO ''Re-trying'', Slept 1000,
                     Sent rq],
                 clock := clock w + 2000000\<rparr>))
       \<and> (status_code r3 \<in> {429, 500} \<longrightarrow>
            get up u ps w =
              (Inl (HTTPError (status_code r3)),
               w\<lparr>trace := trace w @
                    [Sent rq, Logged WARNING ''HTTPError'', Logged INFO ''Re-trying'', Slept 1000,
                     Sent rq, Logged WARNING ''HTTPError'', Logged INFO ''Re-trying'', Slept 1000,
                     Sent rq],
                 clock := clock w + 2000000\<rparr>))"
proof -
  define w1 where "w1 = sleep 1000 (logger INFO ''Re-trying'' (logger WARNING ''HTTPError'' (emit (Sent rq) w)))"
  define w2 where "w2 = sleep 1000 (logger INFO ''Re-trying'' (logger WARNING ''HTTPError'' (emit (Sent rq) w1)))"
  have n1: "length (sent (trace w1)) = n + 1"
    by (simp add: w1_def sent_after_retry assms(1))
  have n2: "length (sent (trace w2)) = n + 2"
    by (simp add: w2_def sent_after_retry n1)
  have s1: "get up u ps w = get_loop up u ps (Some r1) [Suc 0, Suc (Suc 0)] w1"
    unfolding get_unfold w1_def assms(2)
    by (rule get_loop_retry) (use assms in \<open>simp_all add: tries_def\<close>)
  have s2: "get_loop up u ps (Some r1) [Suc 0, Suc (Suc 0)] w1 = get_loop up u ps (Some r2) [Suc (Suc 0)] w2"
    unfolding w2_def assms(2)
    by (rule get_loop_retry) (use assms n1 in \<open>simp_all add: tries_def\<close>)
  have w3: "emit (Sent rq) w2 =
      w\<lparr>trace := trace w @
           [Sent rq, Logged WARNING ''HTTPError'', Logged INFO ''Re-trying'', Slept 1000,
            Sent rq, Logged WARNING ''HTTPError'', Logged INFO ''Re-trying'', Slept 1000,
            Sent rq],
        clock := clock w + 2000000\<rparr>"
    unfolding w2_def w1_def retry_world by (simp add: emit_def)
  have ok: "get up u ps w = (Inr data, emit (Sent rq) w2)"
    if "status_code r3 < 400" "json r3 = Some data"
  proof -
    have "get_loop up u ps (Some r2) [Suc (Suc 0)] w2 = (r_json (Some r3), emit (Sent \<lparr>url = u, params = ps\<rparr>) w2)"
      by (rule get_loop_break) (use assms n2 that in simp_all)
    then show ?thesis using s1 s2 that by (simp add: assms(2))
  qed
  have ko: "get up u ps w = (Inl (HTTPError (status_code r3)), emit (Sent rq) w2)"
    if "status_code r3 \<in> {429, 500}"
  proof -
    have "get_loop up u ps (Some r2) [Suc (Suc 0)] w2 =
            (Inl (HTTPError (status_code r3)), emit (Sent \<lparr>url = u, params = ps\<rparr>) w2)"
      by (rule get_loop_raise) (use assms n2 that in \<open>auto simp: tries_def\<close>)
    then show ?thesis using s1 s2 by (simp add: assms(2))
  qed
  show ?thesis using ok ko w3 by simp
qed

theorem get_retry_ceiling_witness:
  "get (failing_first 2 429 [[JInt 60, JFloat ()]]) ''u'' params0 world0 =
     (Inr [[JInt 60, JFloat ()]],
      world0\<lparr>trace := trace world0 @
           [Sent \<lparr>url = ''u'', params = params0\<rparr>, Logged WARNING ''HTTPError'', Logged INFO ''Re-trying'', Slept 1000,
            Sent \<lparr>url = ''u'', params = params0\<rparr>, Logged WARNING ''HTTPError'', Logged INFO ''Re-trying'', Slept 1000,
            Sent \<lparr>url = ''u'', params = params0\<rparr>],
        clock := clock world0 + 2000000\<rparr>)
   \<and> get (failing_first 3 429 [[JInt 60, JFloat ()]]) ''u'' params0 world0 =
     (Inl (HTTPError 429),
      world0\<lparr>trace := trace world0 @
           [Sent \<lparr>url = ''u'', params = params0\<rparr>, Logged WARNING ''HTTPError'', Logged INFO ''Re-trying'', Slept 1000,
            Sent \<lparr>url = ''u'', params = params0\<rparr>, Logged WARNING ''HTTPError'', Logged INFO ''Re-trying'', Slept 1000,
            Sent \<lparr>url = ''u'', params = params0\<rparr>],
        clock := clock world0 + 2000000\<rparr>)"
proof
  have n: "0 = length (sent (trace world0))" by (simp add: world0_def)
  show "get (failing_first 2 429 [[JInt 60, JFloat ()]]) ''u'' params0 world0 =
     (Inr [[JInt 60, JFloat ()]],
      world0\<lparr>trace := trace world0 @
           [Sent \<lparr>url = ''u'', params = params0\<rparr>, Logged WARNING ''HTTPError'', Logged INFO ''Re-trying'', Slept 1000,
            Sent \<lparr>url = ''u'', params = params0\<rparr>, Logged WARNING ''HTTPError'', Logged INFO ''Re-trying'', Slept 1000,
            Sent \<lparr>url = ''u'', params = params0\<rparr>],
        clock := clock world0 + 2000000\<rparr>)"
    using get_retry_ceiling [OF n refl, of "failing_first 2 429 [[JInt 60, JFloat ()]]" "''u''" params0
        "\<lparr>status_code = 429, json = None\<rparr>" "\<lparr>status_code = 429, json = None\<rparr>"
        "\<lparr>status_code = 200, json = Some [[JInt 60, JFloat ()]]\<rparr>" "[[JInt 60, JFloat ()]]"]
    by (simp add: failing_first_def)
  show "get (failing_first 3 429 [[JInt 60, JFloat ()]]) ''u'' params0 world0 =
     (Inl (HTTPError 429),
      world0\<lparr>trace := trace world0 @
           [Sent \<lparr>url = ''u'', params = params0\<rparr>, Logged WARNING ''HTTPError'', Logged INFO ''Re-trying'', Slept 1000,
            Sent \<lparr>url = ''u'', params = params0\<rparr>, Logged WARNING ''HTTPError'', Logged INFO ''Re-trying'', Slept 1000,
            Sent \<lparr>url = ''u'', params = params0\<rparr>],
        clock := clock world0 + 2000000\<rparr>)"
    using get_retry_ceiling [OF n refl, of "failing_first 3 429 [[JInt 60, JFloat ()]]" "''u''" params0
        "\<lparr>status_code = 429, json = None\<rparr>" "\<lparr>status_code = 429, json = None\<rparr>"
        "\<lparr>status_code = 429, json = None\<rparr>" "[]"]
    by (simp add: failing_first_def)
qed

text \<open>
  C6. When the first attempt of \<open>get\<close> is answered with an HTTP error status (400 to 599)
  other than 429 and 500, \<open>get\<close> raises that \<open>HTTPError\<close>; the one request is all it has
  done: no retry, no log line, no sleep.
\<close>

theorem get_permanent_error:
  assumes "n = length (sent (trace w))" and "rq = \<lparr>url = u, params = ps\<rparr>"
    and "up n rq = Some r" and "400 \<le> status_code r" and "status_code r < 600"
    and "status_code r \<noteq> 429" and "status_code r \<noteq> 500"
  shows "get up u ps w = (Inl (HTTPError (status_code r)), w\<lparr>trace := trace w @ [Sent rq]\<rparr>)"
proof -
  have "get up u ps w = (Inl (HTTPError (status_code r)), emit (Sent \<lparr>url = u, params = ps\<rparr>) w)"
    unfolding get_unfold
    by (rule get_loop_raise) (use assms in simp_all)
  then show ?thesis by (simp add: emit_def assms(2))
qed

theorem get_permanent_error_witness:
  "get (failing_first 1 403 [[JInt 60, JFloat ()]]) ''u'' params0 world0 =
     (Inl (HTTPError 403), world0\<lparr>trace := trace world0 @ [Sent \<lparr>url = ''u'', params = params0\<rparr>]\<rparr>)"
proof -
  have n: "0 = length (sent (trace world0))" by (simp add: world0_def)
  show ?thesis
    using get_permanent_error [OF n refl, of "failing_first 1 403 [[JInt 60, JFloat ()]]" "''u''" params0
        "\<lparr>status_code = 403, json = None\<rparr>"]
    by (simp add: failing_first_def)
qed

section \<open>The store: what \<open>insert_db\<close> does to the table and to the trace\<close>

lemma executemany_Nil: "executemany float_str product [] w = (Inr (), w)"
  by (subst executemany.simps) simp

lemma executemany_skip:
  "length candle \<noteq> 6 \<Longrightarrow>
   executemany float_str product (candle # rest) w =
     executemany float_str product rest (logger WARNING ''Response length invalid'' w)"
  by (subst executemany.simps, subst (2) executemany.simps) simp

lemma executemany_insert:
  "length candle = 6 \<Longrightarrow>
   executemany float_str product (candle # rest) w =
     (case insert_or_ignore (candle_values float_str product candle) (db w) of
        Inl e \<Rightarrow> (Inl e, emit (Executed (candle_values float_str product candle)) w)
      | Inr rows \<Rightarrow>
          executemany float_str product rest
            ((emit (Executed (candle_values float_str product candle)) w)\<lparr>db := rows\<rparr>))"
  by (subst executemany.simps) (simp add: candle_values_def split: sum.split)

text \<open>A well-formed candle gives seven values, so the statement never fails to bind.\<close>

lemma insert_or_ignore_candle:
  assumes "length candle = 6"
  shows "insert_or_ignore (candle_values float_str product candle) rows =
           Inr (if \<exists>r \<in> set rows. market r = product \<and> time r = py_str float_str (candle ! 0) then rows
                else rows @ [\<lparr>market = product, time = py_str float_str (candle ! 0),
                                open = py_str float_str (candle ! 3), high = py_str float_str (candle ! 2),
                                low = py_str float_str (candle ! 1), close = py_str float_str (candle ! 4),
                                volume = py_str float_str (candle ! 5)\<rparr>])"
proof -
  from assms obtain a b c d e f where "candle = [a, b, c, d, e, f]"
    by (auto simp: length_Suc_conv numeral_eq_Suc)
  then show ?thesis
    by (simp add: insert_or_ignore_def candle_values_def)
qed

lemma executemany_eq:
  "executemany float_str product cs w =
     (Inr (), w\<lparr>trace := trace w @ insert_events float_str product cs,
               db := stored float_str product cs (db w)\<rparr>)"
proof (induction cs arbitrary: w)
  case Nil
  show ?case by (simp add: executemany_Nil)
next
  case (Cons candle rest)
  show ?case
  proof (cases "length candle = 6")
    case True
    then show ?thesis
      by (simp add: executemany_insert insert_or_ignore_candle Cons.IH emit_def)
  next
    case False
    then show ?thesis
      by (simp add: executemany_skip Cons.IH logger_def emit_def)
  qed
qed

lemma insert_db_eq:
  "insert_db float_str product cs w =
     (Inr (), w\<lparr>trace := trace w @ Logged DEBUG ''inserting to db'' # insert_events float_str product cs,
               db := stored float_str product cs (db w)\<rparr>)"
  by (simp add: insert_db_def executemany_eq logger_def emit_def)


lemma has_key_append:
  "has_key (rows @ extra) m t \<longleftrightarrow> has_key rows m t \<or> has_key extra m t"
  by (auto simp: has_key_def)

lemma lookup_row_None: "lookup_row rows m t = None \<longleftrightarrow> \<not> has_key rows m t"
  by (auto simp: lookup_row_def has_key_def find_None_iff)

lemma stored_wellformed:
  "length candle = 6 \<Longrightarrow>
   stored float_str product (candle # rest) rows =
     stored float_str product rest
       (if has_key rows product (py_str float_str (candle ! 0)) then rows
        else rows @ [\<lparr>market = product, time = py_str float_str (candle ! 0),
                        open = py_str float_str (candle ! 3), high = py_str float_str (candle ! 2),
                        low = py_str float_str (candle ! 1), close = py_str float_str (candle ! 4),
                        volume = py_str float_str (candle ! 5)\<rparr>])"
  by (simp add: insert_or_ignore_candle has_key_def)

lemma stored_malformed:
  "length candle \<noteq> 6 \<Longrightarrow> stored float_str product (candle # rest) rows = stored float_str product rest rows"
  by simp

declare stored.simps(2) [simp del]

lemma stored_append:
  "stored float_str product (xs @ ys) rows = stored float_str product ys (stored float_str product xs rows)"
proof (induction xs arbitrary: rows)
  case Nil
  show ?case by simp
next
  case (Cons c xs)
  show ?case
    by (cases "length c = 6") (simp_all add: stored_wellformed stored_malformed Cons.IH)
qed

text \<open>Rows are only ever appended: what was in the table stays, unchanged and in place.\<close>

lemma stored_extends: "\<exists>extra. stored float_str product cs rows = rows @ extra"
proof (induction cs arbitrary: rows)
  case Nil
  show ?case by simp
next
  case (Cons c cs)
  show ?case
  proof (cases "length c = 6")
    case True
    let ?rows' = "if has_key rows product (py_str float_str (c ! 0)) then rows
        else rows @ [\<lparr>market = product, time = py_str float_str (c ! 0),
                        open = py_str float_str (c ! 3), high = py_str float_str (c ! 2),
                        low = py_str float_str (c ! 1), close = py_str float_str (c ! 4),
                        volume = py_str float_str (c ! 5)\<rparr>]"
    from Cons.IH [of ?rows'] obtain extra where
      "stored float_str product cs ?rows' = ?rows' @ extra" by blast
    then have "\<exists>extra'. stored float_str product cs ?rows' = rows @ extra'"
      by (cases "has_key rows product (py_str float_str (c ! 0))") auto
    then show ?thesis by (simp only: stored_wellformed [OF True])
  next
    case False
    then show ?thesis using Cons.IH [of rows] by (simp add: stored_malformed)
  qed
qed

lemma has_key_stored:
  "has_key rows m t \<Longrightarrow> has_key (stored float_str product cs rows) m t"
  using stored_extends [of float_str product cs rows] by (auto simp: has_key_append)

lemma has_key_after:
  "c \<in> set cs \<Longrightarrow> length c = 6 \<Longrightarrow>
   has_key (stored float_str product cs rows) product (py_str float_str (c ! 0))"
proof (induction cs arbitrary: rows)
  case Nil
  then show ?case by simp
next
  case (Cons x cs)
  show ?case
  proof (cases "c = x")
    case True
    have "has_key (if has_key rows product (py_str float_str (c ! 0)) then rows
        else rows @ [\<lparr>market = product, time = py_str float_str (c ! 0),
                        open = py_str float_str (c ! 3), high = py_str float_str (c ! 2),
                        low = py_str float_str (c ! 1), close = py_str float_str (c ! 4),
                        volume = py_str float_str (c ! 5)\<rparr>]) product (py_str float_str (c ! 0))"
      by (simp add: has_key_def)
    then show ?thesis
      using True Cons.prems(2) by (simp only: stored_wellformed has_key_stored)
  next
    case False
    with Cons.prems have "c \<in> set cs" by simp
    then show ?thesis
      using Cons.IH [OF _ Cons.prems(2)] by (cases "length x = 6") (simp_all add: stored_wellformed stored_malformed)
  qed
qed

lemma stored_nothing_new:
  "(\<And>c. c \<in> set cs \<Longrightarrow> length c = 6 \<Longrightarrow> has_key rows product (py_str float_str (c ! 0))) \<Longrightarrow>
   stored float_str product cs rows = rows"
proof (induction cs)
  case Nil
  show ?case by simp
next
  case (Cons c cs)
  have rest: "stored float_str product cs rows = rows"
    by (rule Cons.IH) (simp add: Cons.prems)
  show ?case
  proof (cases "length c = 6")
    case True
    then have "has_key rows product (py_str float_str (c ! 0))" by (simp add: Cons.prems)
    then show ?thesis using True rest by (simp add: stored_wellformed)
  next
    case False
    then show ?thesis using rest by (simp add: stored_malformed)
  qed
qed

lemma stored_idempotent:
  "stored float_str product cs (stored float_str product cs rows) = stored float_str product cs rows"
  by (rule stored_nothing_new) (rule has_key_after)

lemma distinct_keys_stored:
  "distinct (keys rows) \<Longrightarrow> distinct (keys (stored float_str product cs rows))"
proof (induction cs arbitrary: rows)
  case Nil
  then show ?case by simp
next
  case (Cons c cs)
  show ?case
  proof (cases "length c = 6")
    case True
    have "distinct (keys (if has_key rows product (py_str float_str (c ! 0)) then rows
        else rows @ [\<lparr>market = product, time = py_str float_str (c ! 0),
                        open = py_str float_str (c ! 3), high = py_str float_str (c ! 2),
                        low = py_str float_str (c ! 1), close = py_str float_str (c ! 4),
                        volume = py_str float_str (c ! 5)\<rparr>]))"
      using Cons.prems by (auto simp: keys_def has_key_def)
    then show ?thesis
      by (simp only: stored_wellformed [OF True] Cons.IH)
  next
    case False
    then show ?thesis using Cons.IH [OF Cons.prems] by (simp add: stored_malformed)
  qed
qed

text \<open>
  C5. Inserting a batch a second time changes nothing in the table: neither call of
  \<open>insert_db\<close> raises, the table after the second call is the table after the first, so the
  row count is the same. The rows that were in the table before are still there, unchanged
  and at their places, and when no two rows shared a primary key \<open>(market, time)\<close> before,
  no two do afterwards.
\<close>

theorem insert_db_idempotent:
  "fst (insert_db float_str product cs w) = Inr ()
   \<and> fst (insert_db float_str product cs (snd (insert_db float_str product cs w))) = Inr ()
   \<and> db (snd (insert_db float_str product cs (snd (insert_db float_str product cs w))))
       = db (snd (insert_db float_str product cs w))
   \<and> length (db (snd (insert_db float_str product cs (snd (insert_db float_str product cs w)))))
       = length (db (snd (insert_db float_str product cs w)))
   \<and> take (length (db w)) (db (snd (insert_db float_str product cs w))) = db w
   \<and> (distinct (keys (db w)) \<longrightarrow> distinct (keys (db (snd (insert_db float_str product cs w)))))"
proof -
  obtain extra where "stored float_str product cs (db w) = db w @ extra"
    using stored_extends by blast
  then have "take (length (db w)) (stored float_str product cs (db w)) = db w"
    by simp
  then show ?thesis
    by (simp add: insert_db_eq stored_idempotent distinct_keys_stored)
qed


lemma stored_batch0:
  "stored (\<lambda>x. x) ''BTC-USD'' batch0 [] =
     [\<lparr>market = ''BTC-USD'', time = ''1514764800'', open = ''0.32'', high = ''0.35'', low = ''0.31'',
        close = ''0.34'', volume = ''12.5''\<rparr>,
      \<lparr>market = ''BTC-USD'', time = ''1514764860'', open = ''0.34'', high = ''0.36'', low = ''0.33'',
        close = ''0.35'', volume = ''7.25''\<rparr>,
      \<lparr>market = ''BTC-USD'', time = ''1514764980'', open = ''0.34'', high = ''0.34'', low = ''0.32'',
        close = ''0.33'', volume = ''3.0''\<rparr>,
      \<lparr>market = ''BTC-USD'', time = ''1514765040'', open = ''0.33'', high = ''0.37'', low = ''0.33'',
        close = ''0.36'', volume = ''9.75''\<rparr>]"
  by (simp add: batch0_def stored_wellformed stored_malformed has_key_def str_int_def str_nat.simps
        digit_char_def)

theorem insert_db_idempotent_witness:
  "db (snd (insert_db (\<lambda>x. x) ''BTC-USD'' batch0 (snd (insert_db (\<lambda>x. x) ''BTC-USD'' batch0 world0))))
     = db (snd (insert_db (\<lambda>x. x) ''BTC-USD'' batch0 world0))
   \<and> length (db (snd (insert_db (\<lambda>x. x) ''BTC-USD'' batch0 world0))) = 4
   \<and> distinct (keys (db world0))
   \<and> distinct (keys (db (snd (insert_db (\<lambda>x. x) ''BTC-USD'' batch0 world0))))"
proof -
  have d0: "distinct (keys (db world0))" by (simp add: world0_def keys_def)
  have len: "length (db (snd (insert_db (\<lambda>x. x) ''BTC-USD'' batch0 world0))) = 4"
    by (simp add: insert_db_eq world0_def stored_batch0)
  from insert_db_idempotent [of "\<lambda>x. x" "''BTC-USD''" batch0 world0] d0 len
  show ?thesis by blast
qed

section \<open>Malformed records\<close>

lemma warnings_append: "warnings (xs @ ys) = warnings xs + warnings ys"
  by (induction xs rule: warnings.induct) simp_all

lemma executed_append: "executed (xs @ ys) = executed xs @ executed ys"
  by (induction xs rule: executed.induct) simp_all

lemma warnings_insert_events:
  "warnings (insert_events float_str product cs) = length (filter (\<lambda>c. length c \<noteq> 6) cs)"
  by (induction cs) simp_all

lemma executed_insert_events:
  "executed (insert_events float_str product cs) =
     map (candle_values float_str product) (filter (\<lambda>c. length c = 6) cs)"
  by (induction cs) simp_all

lemma length_stored_fresh:
  "distinct (map (\<lambda>c. py_str float_str (c ! 0)) (filter (\<lambda>c. length c = 6) cs)) \<Longrightarrow>
   (\<And>c. c \<in> set cs \<Longrightarrow> length c = 6 \<Longrightarrow> \<not> has_key rows product (py_str float_str (c ! 0))) \<Longrightarrow>
   length (stored float_str product cs rows) = length rows + length (filter (\<lambda>c. length c = 6) cs)"
proof (induction cs arbitrary: rows)
  case Nil
  show ?case by simp
next
  case (Cons x cs)
  show ?case
  proof (cases "length x = 6")
    case False
    have "length (stored float_str product cs rows) = length rows + length (filter (\<lambda>c. length c = 6) cs)"
      using Cons.prems False by (intro Cons.IH) simp_all
    then show ?thesis using False by (simp add: stored_malformed)
  next
    case True
    let ?row = "\<lparr>market = product, time = py_str float_str (x ! 0),
                        open = py_str float_str (x ! 3), high = py_str float_str (x ! 2),
                        low = py_str float_str (x ! 1), close = py_str float_str (x ! 4),
                        volume = py_str float_str (x ! 5)\<rparr>"
    have new: "\<not> has_key rows product (py_str float_str (x ! 0))"
      using Cons.prems(2) [of x] True by simp
    have dist: "distinct (map (\<lambda>c. py_str float_str (c ! 0)) (filter (\<lambda>c. length c = 6) cs))"
      using Cons.prems(1) True by simp
    have fresh: "\<not> has_key (rows @ [?row]) product (py_str float_str (c ! 0))"
      if "c \<in> set cs" "length c = 6" for c
    proof -
      have "\<not> has_key rows product (py_str float_str (c ! 0))"
        using Cons.prems(2) [of c] that by simp
      moreover have "py_str float_str (x ! 0) \<notin>
          (\<lambda>c. py_str float_str (c ! 0)) ` {c \<in> set cs. length c = 6}"
        using Cons.prems(1) True by simp
      then have "py_str float_str (c ! 0) \<noteq> py_str float_str (x ! 0)"
        using that by (metis (mono_tags, lifting) image_eqI mem_Collect_eq)
      ultimately show ?thesis by (auto simp: has_key_def)
    qed
    have "length (stored float_str product cs (rows @ [?row])) =
            length (rows @ [?row]) + length (filter (\<lambda>c. length c = 6) cs)"
      using dist fresh by (intro Cons.IH) simp_all
    then show ?thesis using True new by (simp add: stored_wellformed)
  qed
qed

text \<open>
  C8. \<open>insert_db\<close> never raises. It logs one warning for each record of the batch that does
  not have exactly 6 fields and executes the \<open>INSERT\<close> statement once for each record that
  has, in the order of the batch, whatever comes before or after a malformed record. For
  a batch of five records of which one has 5 fields and four have 6, that is one warning
  and four executions; when the four times are different and none of them is stored for
  the product yet, the table has exactly four rows more.
\<close>

theorem insert_db_skips_malformed:
  "fst (insert_db float_str product cs w) = Inr ()
   \<and> warnings (trace (snd (insert_db float_str product cs w)))
       = warnings (trace w) + length (filter (\<lambda>c. length c \<noteq> 6) cs)
   \<and> executed (trace (snd (insert_db float_str product cs w)))
       = executed (trace w) @ map (candle_values float_str product) (filter (\<lambda>c. length c = 6) cs)
   \<and> (length cs = 5 \<and> length (filter (\<lambda>c. length c = 5) cs) = 1
        \<and> length (filter (\<lambda>c. length c = 6) cs) = 4 \<longrightarrow>
        warnings (trace (snd (insert_db float_str product cs w))) = warnings (trace w) + 1
        \<and> length (executed (trace (snd (insert_db float_str product cs w))))
            = length (executed (trace w)) + 4
        \<and> (distinct (map (\<lambda>c. py_str float_str (c ! 0)) (filter (\<lambda>c. length c = 6) cs))
             \<and> (\<forall>c \<in> set cs. length c = 6 \<longrightarrow> lookup_row (db w) product (py_str float_str (c ! 0)) = None)
             \<longrightarrow> length (db (snd (insert_db float_str product cs w))) = length (db w) + 4))"
proof -
  have w: "warnings (trace (snd (insert_db float_str product cs w)))
       = warnings (trace w) + length (filter (\<lambda>c. length c \<noteq> 6) cs)"
    by (simp add: insert_db_eq warnings_append warnings_insert_events)
  have e: "executed (trace (snd (insert_db float_str product cs w)))
       = executed (trace w) @ map (candle_values float_str product) (filter (\<lambda>c. length c = 6) cs)"
    by (simp add: insert_db_eq executed_append executed_insert_events)
  have one: "length (filter (\<lambda>c. length c \<noteq> 6) cs) = 1"
    if "length cs = 5" "length (filter (\<lambda>c. length c = 6) cs) = 4"
    using sum_length_filter_compl [of "\<lambda>c. length c = 6" cs] that by simp
  have rows: "length (db (snd (insert_db float_str product cs w))) = length (db w) + 4"
    if "length (filter (\<lambda>c. length c = 6) cs) = 4"
      and "distinct (map (\<lambda>c. py_str float_str (c ! 0)) (filter (\<lambda>c. length c = 6) cs))"
      and "\<forall>c \<in> set cs. length c = 6 \<longrightarrow> lookup_row (db w) product (py_str float_str (c ! 0)) = None"
  proof -
    have "length (stored float_str product cs (db w)) =
            length (db w) + length (filter (\<lambda>c. length c = 6) cs)"
      using that(2,3) by (intro length_stored_fresh) (simp_all add: lookup_row_None)
    then show ?thesis using that(1) by (simp add: insert_db_eq)
  qed
  show ?thesis
    using w e one rows by (simp add: insert_db_eq)
qed

theorem insert_db_skips_malformed_witness:
  "length batch0 = 5 \<and> length (filter (\<lambda>c. length c = 5) batch0) = 1
   \<and> length (filter (\<lambda>c. length c = 6) batch0) = 4
   \<and> distinct (map (\<lambda>c. py_str (\<lambda>x. x) (c ! 0)) (filter (\<lambda>c. length c = 6) batch0))
   \<and> fst (insert_db (\<lambda>x. x) ''BTC-USD'' batch0 world0) = Inr ()
   \<and> warnings (trace (snd (insert_db (\<lambda>x. x) ''BTC-USD'' batch0 world0))) = 1
   \<and> length (executed (trace (snd (insert_db (\<lambda>x. x) ''BTC-USD'' batch0 world0)))) = 4
   \<and> length (db (snd (insert_db (\<lambda>x. x) ''BTC-USD'' batch0 world0))) = 4"
proof -
  have a: "length batch0 = 5" "length (filter (\<lambda>c. length c = 5) batch0) = 1"
    "length (filter (\<lambda>c. length c = 6) batch0) = 4"
    by (simp_all add: batch0_def)
  have b: "distinct (map (\<lambda>c. py_str (\<lambda>x. x) (c ! 0)) (filter (\<lambda>c. length c = 6) batch0))"
    by (simp add: batch0_def str_int_def str_nat.simps digit_char_def)
  have c: "\<forall>c \<in> set batch0. length c = 6 \<longrightarrow>
             lookup_row (db world0) ''BTC-USD'' (py_str (\<lambda>x. x) (c ! 0)) = None"
    by (simp add: world0_def lookup_row_def)
  have z: "warnings (trace world0) = 0" "executed (trace world0) = []" "length (db world0) = 0"
    by (simp_all add: world0_def)
  from insert_db_skips_malformed [of "\<lambda>x. x" "''BTC-USD''" batch0 world0] a b c z
  show ?thesis by simp
qed

section \<open>Columns of a stored row\<close>

lemma not_has_key_stored:
  "\<not> has_key rows product t \<Longrightarrow>
   (\<And>c. c \<in> set cs \<Longrightarrow> length c = 6 \<Longrightarrow> py_str float_str (c ! 0) \<noteq> t) \<Longrightarrow>
   \<not> has_key (stored float_str product cs rows) product t"
proof (induction cs arbitrary: rows)
  case Nil
  then show ?case by simp
next
  case (Cons x cs)
  show ?case
  proof (cases "length x = 6")
    case False
    then show ?thesis using Cons by (simp add: stored_malformed)
  next
    case True
    have "py_str float_str (x ! 0) \<noteq> t" using Cons.prems(2) [of x] True by simp
    then have "\<not> has_key (if has_key rows product (py_str float_str (x ! 0)) then rows
        else rows @ [\<lparr>market = product, time = py_str float_str (x ! 0),
                        open = py_str float_str (x ! 3), high = py_str float_str (x ! 2),
                        low = py_str float_str (x ! 1), close = py_str float_str (x ! 4),
                        volume = py_str float_str (x ! 5)\<rparr>]) product t"
      using Cons.prems(1) by (auto simp: has_key_def)
    then have "\<not> has_key (stored float_str product cs
       (if has_key rows product (py_str float_str (x ! 0)) then rows
        else rows @ [\<lparr>market = product, time = py_str float_str (x ! 0),
                        open = py_str float_str (x ! 3), high = py_str float_str (x ! 2),
                        low = py_str float_str (x ! 1), close = py_str float_str (x ! 4),
                        volume = py_str float_str (x ! 5)\<rparr>])) product t"
      by (rule Cons.IH) (simp add: Cons.prems(2))
    then show ?thesis by (simp add: stored_wellformed [OF True])
  qed
qed

lemma lookup_row_new:
  "\<not> has_key rows m t \<Longrightarrow> market r = m \<Longrightarrow> time r = t \<Longrightarrow>
   lookup_row (rows @ r # extra) m t = Some r"
proof (induction rows)
  case Nil
  then show ?case by (simp add: lookup_row_def)
next
  case (Cons a rows)
  then show ?case by (auto simp: lookup_row_def has_key_def)
qed

text \<open>
  C9. Let a record \<open>[time, low, high, open, close, volume]\<close> stand in a batch, no row be
  stored under the key of the product and the text of its time, and no well-formed record
  before it in the batch have the same text of time (so this record is inserted, not
  ignored). After \<open>insert_db\<close> the row under that key has in each of its columns \<open>open\<close>,
  \<open>high\<close>, \<open>low\<close>, \<open>close\<close> and \<open>volume\<close> the text of the field of the same name of the
  record.
\<close>

theorem insert_db_columns:
  assumes "candle = [v_time, v_low, v_high, v_open, v_close, v_volume]"
    and "cs = before @ candle # rest"
    and "lookup_row (db w) product (py_str float_str v_time) = None"
    and "\<forall>c \<in> set before. length c = 6 \<longrightarrow> py_str float_str (c ! 0) \<noteq> py_str float_str v_time"
  shows "lookup_row (db (snd (insert_db float_str product cs w))) product (py_str float_str v_time) =
           Some \<lparr>market = product, time = py_str float_str v_time,
                  open = py_str float_str v_open, high = py_str float_str v_high,
                  low = py_str float_str v_low, close = py_str float_str v_close,
                  volume = py_str float_str v_volume\<rparr>"
proof -
  let ?t = "py_str float_str v_time"
  let ?row = "\<lparr>market = product, time = ?t,
                  open = py_str float_str v_open, high = py_str float_str v_high,
                  low = py_str float_str v_low, close = py_str float_str v_close,
                  volume = py_str float_str v_volume\<rparr>"
  define rows1 where "rows1 = stored float_str product before (db w)"
  have len: "length candle = 6" by (simp add: assms(1))
  have new: "\<not> has_key rows1 product ?t"
    unfolding rows1_def
    using assms(3,4) by (intro not_has_key_stored) (simp_all add: lookup_row_None)
  have "stored float_str product (candle # rest) rows1 = stored float_str product rest (rows1 @ [?row])"
    using new by (simp add: stored_wellformed [OF len]) (simp add: assms(1))
  moreover obtain extra where "stored float_str product rest (rows1 @ [?row]) = (rows1 @ [?row]) @ extra"
    using stored_extends by blast
  ultimately have "stored float_str product cs (db w) = rows1 @ ?row # extra"
    by (simp add: assms(2) stored_append rows1_def)
  then have "lookup_row (stored float_str product cs (db w)) product ?t = Some ?row"
    using new by (simp add: lookup_row_new)
  then show ?thesis by (simp add: insert_db_eq)
qed

theorem insert_db_columns_witness:
  "lookup_row (db world0) ''BTC-USD'' (py_str (\<lambda>x. x) (JInt 1514764860)) = None
   \<and> lookup_row (db (snd (insert_db (\<lambda>x. x) ''BTC-USD'' batch0 world0))) ''BTC-USD'' ''1514764860'' =
       Some \<lparr>market = ''BTC-USD'', time = ''1514764860'', open = ''0.34'', high = ''0.36'',
              low = ''0.33'', close = ''0.35'', volume = ''7.25''\<rparr>"
proof -
  have a: "lookup_row (db world0) ''BTC-USD'' (py_str (\<lambda>x. x) (JInt 1514764860)) = None"
    by (simp add: world0_def lookup_row_def)
  have t: "py_str (\<lambda>x. x) (JInt 1514764860) = ''1514764860''"
    by (simp add: str_int_def str_nat.simps digit_char_def)
  have b: "batch0 =
      [[JInt 1514764800, JFloat ''0.31'', JFloat ''0.35'', JFloat ''0.32'', JFloat ''0.34'', JFloat ''12.5'']]
      @ [JInt 1514764860, JFloat ''0.33'', JFloat ''0.36'', JFloat ''0.34'', JFloat ''0.35'', JFloat ''7.25'']
      # [[JInt 1514764920, JFloat ''0.34'', JFloat ''0.35'', JFloat ''0.35'', JFloat ''0.34''],
         [JInt 1514764980, JFloat ''0.32'', JFloat ''0.34'', JFloat ''0.34'', JFloat ''0.33'', JFloat ''3.0''],
         [JInt 1514765040, JFloat ''0.33'', JFloat ''0.37'', JFloat ''0.33'', JFloat ''0.36'', JFloat ''9.75'']]"
    by (simp add: batch0_def)
  have c: "\<forall>c \<in> set [[JInt 1514764800, JFloat ''0.31'', JFloat ''0.35'', JFloat ''0.32'', JFloat ''0.34'', JFloat ''12.5'']].
             length c = 6 \<longrightarrow> py_str (\<lambda>x. x) (c ! 0) \<noteq> py_str (\<lambda>x. x) (JInt 1514764860)"
    by (simp add: str_int_def str_nat.simps digit_char_def)
  from insert_db_columns [OF refl b a c] a t show ?thesis by simp
qed

section \<open>Decimal text: \<open>int(str(n))\<close> and the order of the store\<close>



lemma is_digit_not_special:
  "is_digit c \<Longrightarrow> \<not> is_space c \<and> c \<noteq> CHR ''_'' \<and> c \<noteq> CHR ''-'' \<and> c \<noteq> CHR ''+''"
  by (auto simp: is_digit_def is_space_def)






lemma filter_digits: "\<forall>c \<in> set s. is_digit c \<Longrightarrow> filter (\<lambda>c. c \<noteq> CHR ''_'') s = s"
  using is_digit_not_special by (induction s) auto









section \<open>The start date of an instrument\<close>







section \<open>Terminal fetch failures\<close>

lemma db_emit [simp]: "db (emit e w) = db w"
  by (simp add: emit_def)

lemma db_logger [simp]: "db (logger lvl msg w) = db w"
  by (simp add: logger_def)

lemma db_sleep [simp]: "db (sleep ms w) = db w"
  by (simp add: sleep_def)

lemma db_get_loop: "db (snd (get_loop up u ps r is w)) = db w"
proof (induction "is" arbitrary: r w)
  case Nil
  show ?case by simp
next
  case (Cons i rest)
  show ?case
    by (auto simp: requests_get_eq Cons.IH split: option.split)
qed

lemma db_get: "db (snd (get up u ps w)) = db w"
  by (simp add: get_def db_get_loop)

text \<open>
  One turn of the loop of \<open>get_candles\<close>, by the outcome of \<open>get\<close>: an \<open>HTTPError\<close> ends the
  generator, any other exception leaves it, a body is yielded.
\<close>

lemma get_candles_turn_cases:
  assumes "get_candles_turn up product start_date end_date cursor previous_start_date w = (res, w')"
  shows "(res = Inr None)
       \<or> (\<exists>e. res = Inl e \<and> (\<forall>st. e \<noteq> HTTPError st))
       \<or> (\<exists>data. res = Inr (Some (data,
              Suspended product start_date end_date (cursor + get_candles_d) (date cursor)))
            \<and> cursor < end_date
            \<and> (\<exists>w2. fst (get up (API_URL @ ''/products/'' @ product @ ''/candles'')
                  \<lparr>start_param = cursor, end_param = cursor + get_candles_d, granularity = 60\<rparr> w2) = Inr data))"
proof (cases "cursor < end_date")
  case False
  then show ?thesis using assms by (simp add: get_candles_turn_def daterange_next_def)
next
  case True
  define w2 where "w2 = (if date cursor \<noteq> previous_start_date
      then logger INFO ''importing'' (logger DEBUG ''window'' w) else logger DEBUG ''window'' w)"
  obtain r w3 where g: "get up (API_URL @ ''/products/'' @ product @ ''/candles'')
      \<lparr>start_param = cursor, end_param = cursor + get_candles_d, granularity = 60\<rparr> w2 = (r, w3)"
    by (cases "get up (API_URL @ ''/products/'' @ product @ ''/candles'')
      \<lparr>start_param = cursor, end_param = cursor + get_candles_d, granularity = 60\<rparr> w2") auto
  have turn: "get_candles_turn up product start_date end_date cursor previous_start_date w =
      (case (r, w3) of
         (Inl (HTTPError status), w3) \<Rightarrow>
           (Inr None, logger ERROR ''HTTPError''
              (logger ERROR ''Unable to fetch candles (max-retries exceeded)'' w3))
       | (Inl e, w3) \<Rightarrow> (Inl e, w3)
       | (Inr data, w3) \<Rightarrow>
           (Inr (Some (data, Suspended product start_date end_date (cursor + get_candles_d) (date cursor))), w3))"
    using True g by (simp add: get_candles_turn_def daterange_next_def Let_def w2_def)
  show ?thesis
  proof (cases r)
    case (Inl e)
    then show ?thesis using assms turn by (cases e) auto
  next
    case (Inr data)
    then have "res = Inr (Some (data, Suspended product start_date end_date (cursor + get_candles_d) (date cursor)))"
      using assms turn by simp
    moreover have "fst (get up (API_URL @ ''/products/'' @ product @ ''/candles'')
      \<lparr>start_param = cursor, end_param = cursor + get_candles_d, granularity = 60\<rparr> w2) = Inr data"
      using g Inr by simp
    ultimately show ?thesis using True by blast
  qed
qed

lemma db_get_candles_turn:
  "db (snd (get_candles_turn up product start_date end_date cursor previous_start_date w)) = db w"
proof -
  have "db w3 = db w2"
    if "get up u ps w2 = (r, w3)" for u ps w2 r w3 and up :: "'a upstream"
    using db_get [of up u ps w2] that by simp
  then show ?thesis
    by (auto simp: get_candles_turn_def daterange_next_def Let_def
          split: prod.split sum.split py_error.split)
qed

lemma db_get_candles_next: "db (snd (get_candles_next up fr w)) = db w"
  by (cases fr) (simp_all add: db_get_candles_turn Let_def)

lemma get_candles_next_no_HTTPError: "fst (get_candles_next up fr w) \<noteq> Inl (HTTPError st)"
proof -
  have turn: "fst (get_candles_turn up product start_date end_date cursor prev w) \<noteq> Inl (HTTPError st)"
    for product start_date end_date cursor prev
    using get_candles_turn_cases [of up product start_date end_date cursor prev w]
    by (cases "get_candles_turn up product start_date end_date cursor prev w") auto
  show ?thesis
    by (cases fr) (simp_all add: turn Let_def)
qed

lemma main_body_eq:
  "main_body float_str product cs u w =
     (Inr (), sleep 500 (snd (insert_db float_str product cs (logger DEBUG ''fetched candles'' w))))"
  by (simp add: main_body_def with_con_def insert_db_eq)

lemma db_main_body:
  "\<exists>extra. db (snd (main_body float_str product cs u w)) = db w @ extra"
  using stored_extends [of float_str product cs "db w"]
  by (simp add: main_body_eq insert_db_eq)

text \<open>
  The loop over the batches of one product: it ends without an \<open>HTTPError\<close>, and the table
  only grows.
\<close>

lemma for_candles_main_body:
  "fst (for_candles up (main_body float_str product) fr u w) \<noteq> Inl (HTTPError st)
   \<and> (\<exists>extra. db (snd (for_candles up (main_body float_str product) fr u w)) = db w @ extra)"
proof (induction up "main_body float_str product :: 'a candle list \<Rightarrow> unit \<Rightarrow> world \<Rightarrow> (py_error + unit) \<times> world"
    fr u w rule: for_candles.induct)
  case (1 up fr s w)
  obtain res w1 where nx: "get_candles_next up fr w = (res, w1)"
    by (cases "get_candles_next up fr w") auto
  have no: "res \<noteq> Inl (HTTPError st)"
    using get_candles_next_no_HTTPError [of up fr w st] nx by simp
  have db1: "db w1 = db w"
    using db_get_candles_next [of up fr w] nx by simp
  show ?case
  proof (cases res)
    case (Inl e)
    then show ?thesis using nx no db1 by (subst (1 2) for_candles.simps) simp
  next
    case (Inr y)
    show ?thesis
    proof (cases y)
      case None
      then show ?thesis using nx Inr db1 by (subst (1 2) for_candles.simps) simp
    next
      case (Some p)
      obtain data fr' where p: "p = (data, fr')" by (cases p) auto
      define w2 where "w2 = sleep 500 (snd (insert_db float_str product data
          (logger DEBUG ''fetched candles'' w1)))"
      have body: "main_body float_str product data s w1 = (Inr (), w2)"
        by (simp add: main_body_eq w2_def)
      have step: "for_candles up (main_body float_str product) fr s w =
                    for_candles up (main_body float_str product) fr' () w2"
        using nx Inr Some p body by (subst for_candles.simps) simp
      obtain e1 where e1: "db w2 = db w @ e1"
        using db_main_body [of float_str product data s w1] db1 body by auto
      have ih: "fst (for_candles up (main_body float_str product) fr' () w2) \<noteq> Inl (HTTPError st)
          \<and> (\<exists>extra. db (snd (for_candles up (main_body float_str product) fr' () w2)) = db w2 @ extra)"
        using nx Inr Some p body by (intro "1.hyps") auto
      then obtain e2 where "db (snd (for_candles up (main_body float_str product) fr' () w2)) = db w2 @ e2"
        by blast
      then have "db (snd (for_candles up (main_body float_str product) fr s w)) = db w @ (e1 @ e2)"
        by (simp only: step e1 append_assoc)
      moreover have "fst (for_candles up (main_body float_str product) fr s w) \<noteq> Inl (HTTPError st)"
        using ih by (simp only: step) simp
      ultimately show ?thesis by blast
    qed
  qed
qed

lemma main_start_date_no_HTTPError:
  "fst (main_start_date lib a product w) \<noteq> Inl (HTTPError st)
   \<and> db (snd (main_start_date lib a product w)) = db w"
proof -
  have i: "int_ascii t \<noteq> Inl (HTTPError st)" for t
    by (simp add: int_ascii_def Let_def split: prod.split)
  have p: "py_int lib t \<noteq> Inl (HTTPError st)" for t
    by (simp add: py_int_def i split: option.split)
  have u: "utcfromtimestamp n \<noteq> Inl (HTTPError st)" for n
    by (simp add: utcfromtimestamp_def)
  have g: "fst (get_start_date lib product w) \<noteq> Inl (HTTPError st)
      \<and> db (snd (get_start_date lib product w)) = db w"
    using p u by (auto simp: get_start_date_def split: option.split sum.split)
  show ?thesis
    using g by (auto simp: main_start_date_def split: option.split)
qed

lemma main_loop_no_HTTPError:
  "fst (main_loop lib float_str up m a products w) \<noteq> Inl (HTTPError st)
   \<and> (\<exists>extra. db (snd (main_loop lib float_str up m a products w)) = db w @ extra)"
proof (induction products arbitrary: w)
  case Nil
  show ?case by simp
next
  case (Cons product rest)
  obtain r1 w1 where sd: "main_start_date lib a product w = (r1, w1)"
    by (cases "main_start_date lib a product w") auto
  have r1: "r1 \<noteq> Inl (HTTPError st)" and db1: "db w1 = db w"
    using main_start_date_no_HTTPError [of lib a product w st] sd by simp_all
  show ?case
  proof (cases r1)
    case (Inl e)
    then show ?thesis using sd r1 db1 by simp
  next
    case (Inr start_date)
    let ?w1' = "logger INFO ''starting from'' w1"
    obtain r2 w2 where fc: "for_candles up (main_body float_str product)
        (get_candles m product start_date None) () ?w1' = (r2, w2)"
      by (cases "for_candles up (main_body float_str product)
        (get_candles m product start_date None) () ?w1'") auto
    have r2: "r2 \<noteq> Inl (HTTPError st)" and "\<exists>extra. db w2 = db ?w1' @ extra"
      using for_candles_main_body [of up float_str product "get_candles m product start_date None" "()" ?w1' st] fc
      by simp_all
    then obtain e2 where e2: "db w2 = db w @ e2" using db1 by auto
    show ?thesis
    proof (cases r2)
      case (Inl e)
      then show ?thesis using sd Inr fc r2 e2 by simp
    next
      case (Inr u)
      have "main_loop lib float_str up m a (product # rest) w = main_loop lib float_str up m a rest w2"
        using sd \<open>r1 = Inr start_date\<close> fc Inr by simp
      then show ?thesis using Cons.IH [of w2] e2 by auto
    qed
  qed
qed

lemma sent_logger [simp]: "sent (trace (logger lvl msg w)) = sent (trace w)"
  by (simp add: logger_def emit_def sent_append)

lemma sent_sleep [simp]: "sent (trace (sleep ms w)) = sent (trace w)"
  by (simp add: sleep_def emit_def sent_append)

lemma sent_emit_Sent [simp]: "sent (trace (emit (Sent rq) w)) = sent (trace w) @ [rq]"
  by (simp add: emit_def sent_append)

text \<open>
  What \<open>get\<close> returns and the requests it sends depend on the world only through the
  requests sent before.
\<close>

lemma get_loop_sent:
  "sent (trace w) = sent (trace w') \<Longrightarrow>
   fst (get_loop up u ps r is w) = fst (get_loop up u ps r is w')
   \<and> sent (trace (snd (get_loop up u ps r is w))) = sent (trace (snd (get_loop up u ps r is w')))"
proof (induction "is" arbitrary: r w w')
  case Nil
  then show ?case by simp
next
  case (Cons i rest)
  define k where "k = (\<lambda>w. sleep 1000 (logger INFO ''Re-trying'' (logger WARNING ''HTTPError''
      (emit (Sent \<lparr>url = u, params = ps\<rparr>) w))))"
  have eq: "sent (trace (k w)) = sent (trace (k w'))"
    using Cons.prems by (simp add: k_def)
  have ih: "fst (get_loop up u ps r' rest (k w)) = fst (get_loop up u ps r' rest (k w'))
   \<and> sent (trace (snd (get_loop up u ps r' rest (k w)))) = sent (trace (snd (get_loop up u ps r' rest (k w'))))"
    for r'
    using eq by (rule Cons.IH)
  show ?case
  proof (cases "up (length (sent (trace w))) \<lparr>url = u, params = ps\<rparr>")
    case None
    then show ?thesis using Cons.prems by (simp add: requests_get_eq)
  next
    case (Some r')
    then have some': "up (length (sent (trace w'))) \<lparr>url = u, params = ps\<rparr> = Some r'"
      using Cons.prems by simp
    show ?thesis
    proof (cases "raise_for_status r'")
      case None
      then show ?thesis using Some some' Cons.prems by (simp add: requests_get_eq)
    next
      case (Some e)
      show ?thesis
      proof (cases "status_code r' \<in> {429, 500} \<and> i < tries - 1")
        case True
        then have "get_loop up u ps r (i # rest) w = get_loop up u ps (Some r') rest (k w)"
          and "get_loop up u ps r (i # rest) w' = get_loop up u ps (Some r') rest (k w')"
          using \<open>up (length (sent (trace w))) \<lparr>url = u, params = ps\<rparr> = Some r'\<close> some' Some
          by (simp_all add: requests_get_eq k_def)
        then show ?thesis using ih [of "Some r'"] by simp
      next
        case False
        then have "get_loop up u ps r (i # rest) w = (Inl e, emit (Sent \<lparr>url = u, params = ps\<rparr>) w)"
          and "get_loop up u ps r (i # rest) w' = (Inl e, emit (Sent \<lparr>url = u, params = ps\<rparr>) w')"
          using \<open>up (length (sent (trace w))) \<lparr>url = u, params = ps\<rparr> = Some r'\<close> some' Some
          by (auto simp: requests_get_eq)
        then show ?thesis using Cons.prems by simp
      qed
    qed
  qed
qed

lemma get_sent:
  "sent (trace w) = sent (trace w') \<Longrightarrow>
   fst (get up u ps w) = fst (get up u ps w')
   \<and> sent (trace (snd (get up u ps w))) = sent (trace (snd (get up u ps w')))"
  unfolding get_def by (rule get_loop_sent)

text \<open>Three replies 429 or 500 in a row: \<open>get\<close> gives up with the third.\<close>

lemma get_exhausted:
  assumes "up (length (sent (trace w))) \<lparr>url = u, params = ps\<rparr> = Some r1" and "status_code r1 \<in> {429, 500}"
    and "up (length (sent (trace w)) + 1) \<lparr>url = u, params = ps\<rparr> = Some r2" and "status_code r2 \<in> {429, 500}"
    and "up (length (sent (trace w)) + 2) \<lparr>url = u, params = ps\<rparr> = Some r3" and "status_code r3 \<in> {429, 500}"
  shows "fst (get up u ps w) = Inl (HTTPError (status_code r3))
       \<and> sent (trace (snd (get up u ps w))) =
           sent (trace w) @ [\<lparr>url = u, params = ps\<rparr>, \<lparr>url = u, params = ps\<rparr>, \<lparr>url = u, params = ps\<rparr>]"
proof -
  define k where "k = (\<lambda>w. sleep 1000 (logger INFO ''Re-trying'' (logger WARNING ''HTTPError''
      (emit (Sent \<lparr>url = u, params = ps\<rparr>) w))))"
  have n1: "length (sent (trace (k w))) = length (sent (trace w)) + 1"
    by (simp add: k_def)
  have n2: "length (sent (trace (k (k w)))) = length (sent (trace w)) + 2"
    by (simp add: k_def)
  have s1: "get up u ps w = get_loop up u ps (Some r1) [Suc 0, Suc (Suc 0)] (k w)"
    unfolding get_unfold k_def
    by (rule get_loop_retry) (use assms in \<open>simp_all add: tries_def\<close>)
  have s2: "get_loop up u ps (Some r1) [Suc 0, Suc (Suc 0)] (k w) =
              get_loop up u ps (Some r2) [Suc (Suc 0)] (k (k w))"
    unfolding k_def
    by (rule get_loop_retry) (use assms n1 in \<open>simp_all add: tries_def k_def\<close>)
  have s3: "get_loop up u ps (Some r2) [Suc (Suc 0)] (k (k w)) =
              (Inl (HTTPError (status_code r3)), emit (Sent \<lparr>url = u, params = ps\<rparr>) (k (k w)))"
    by (rule get_loop_raise) (use assms n2 in \<open>auto simp: tries_def\<close>)
  have e: "sent (trace (emit (Sent \<lparr>url = u, params = ps\<rparr>) (k (k w)))) =
          sent (trace w) @ [\<lparr>url = u, params = ps\<rparr>, \<lparr>url = u, params = ps\<rparr>, \<lparr>url = u, params = ps\<rparr>]"
    by (simp add: k_def)
  have "get up u ps w = (Inl (HTTPError (status_code r3)), emit (Sent \<lparr>url = u, params = ps\<rparr>) (k (k w)))"
    by (simp only: s1 s2 s3)
  then show ?thesis by (simp only: fst_conv snd_conv e simp_thms)
qed

lemma get_permanent:
  assumes "up (length (sent (trace w))) \<lparr>url = u, params = ps\<rparr> = Some r"
    and "400 \<le> status_code r" and "status_code r < 600" and "status_code r \<notin> {429, 500}"
  shows "fst (get up u ps w) = Inl (HTTPError (status_code r))
       \<and> sent (trace (snd (get up u ps w))) = sent (trace w) @ [\<lparr>url = u, params = ps\<rparr>]"
proof -
  have "get_loop up u ps None [0, Suc 0, Suc (Suc 0)] w =
          (Inl (HTTPError (status_code r)), emit (Sent \<lparr>url = u, params = ps\<rparr>) w)"
    by (rule get_loop_raise) (use assms in simp_all)
  then show ?thesis by (simp add: get_unfold)
qed

text \<open>An \<open>HTTPError\<close> of \<open>get\<close> for the next window finishes the generator.\<close>

lemma get_candles_turn_HTTPError:
  assumes "cursor < end_date"
    and "fst (get up (API_URL @ ''/products/'' @ product @ ''/candles'') \<lparr>start_param = cursor, end_param = cursor + get_candles_d, granularity = 60\<rparr> w) = Inl (HTTPError st')"
  shows "fst (get_candles_turn up product start_date end_date cursor prev w) = Inr None
       \<and> sent (trace (snd (get_candles_turn up product start_date end_date cursor prev w))) =
           sent (trace (snd (get up (API_URL @ ''/products/'' @ product @ ''/candles'') \<lparr>start_param = cursor, end_param = cursor + get_candles_d, granularity = 60\<rparr> w)))
       \<and> db (snd (get_candles_turn up product start_date end_date cursor prev w)) = db w"
proof -
  let ?u = "API_URL @ ''/products/'' @ product @ ''/candles''"
  let ?ps = "\<lparr>start_param = cursor, end_param = cursor + get_candles_d, granularity = 60\<rparr>"
  define w2 where "w2 = (if date cursor \<noteq> prev
      then logger INFO ''importing'' (logger DEBUG ''window'' w) else logger DEBUG ''window'' w)"
  have n: "sent (trace w2) = sent (trace w)" by (simp add: w2_def)
  have same: "fst (get up ?u ?ps w2) = fst (get up ?u ?ps w)
      \<and> sent (trace (snd (get up ?u ?ps w2))) = sent (trace (snd (get up ?u ?ps w)))"
    using n by (rule get_sent)
  obtain r w3 where g: "get up ?u ?ps w2 = (r, w3)"
    by (cases "get up ?u ?ps w2") auto
  have r: "r = Inl (HTTPError st')" using same g assms(2) by simp
  have w3: "sent (trace w3) = sent (trace (snd (get up ?u ?ps w)))" using same g by simp
  have "get_candles_turn up product start_date end_date cursor prev w =
          (Inr None, logger ERROR ''HTTPError''
             (logger ERROR ''Unable to fetch candles (max-retries exceeded)'' w3))"
    using assms(1) g r by (simp add: get_candles_turn_def daterange_next_def Let_def w2_def)
  then have "fst (get_candles_turn up product start_date end_date cursor prev w) = Inr None"
    and "sent (trace (snd (get_candles_turn up product start_date end_date cursor prev w))) =
           sent (trace (snd (get up ?u ?ps w)))"
    by (simp_all add: w3)
  then show ?thesis using db_get_candles_turn [of up product start_date end_date cursor prev w] by blast
qed

lemma for_candles_finished:
  "fst (get_candles_next up fr w) = Inr None \<Longrightarrow>
   for_candles up body fr s w = (Inr s, snd (get_candles_next up fr w))"
  by (subst for_candles.simps) (auto split: prod.split sum.split option.split)

lemma main_no_HTTPError:
  "fst (main lib float_str up m a w) \<noteq> Inl (HTTPError st)
      \<and> (\<exists>extra. db (snd (main lib float_str up m a w)) = db w @ extra)"
proof (cases "products_to_update a")
  case (Inl e)
  then have "e = KeyError"
    by (auto simp: products_to_update_def split: option.splits if_splits)
  then show ?thesis using Inl by (simp add: main_def Let_def)
next
  case (Inr ps)
  then show ?thesis
    using main_loop_no_HTTPError [of lib float_str up m a "map fst ps"
        "logger INFO ''Updating'' (logger DEBUG ''Database'' w)" st]
    by (simp add: main_def Let_def)
qed

lemma suspended_HTTPError:
  assumes "cursor < end_date"
    and "fst (get up (API_URL @ ''/products/'' @ product @ ''/candles'') \<lparr>start_param = cursor, end_param = cursor + get_candles_d, granularity = 60\<rparr> w) = Inl (HTTPError st')"
  shows "fst (get_candles_next up (Suspended product start_date end_date cursor prev) w) = Inr None
      \<and> sent (trace (snd (get_candles_next up (Suspended product start_date end_date cursor prev) w))) =
          sent (trace (snd (get up (API_URL @ ''/products/'' @ product @ ''/candles'') \<lparr>start_param = cursor, end_param = cursor + get_candles_d, granularity = 60\<rparr> w)))
      \<and> for_candles up body (Suspended product start_date end_date cursor prev) s w = (Inr s, snd (get_candles_next up (Suspended product start_date end_date cursor prev) w))"
proof -
  have t: "fst (get_candles_turn up product start_date end_date cursor prev w) = Inr None
       \<and> sent (trace (snd (get_candles_turn up product start_date end_date cursor prev w))) =
           sent (trace (snd (get up (API_URL @ ''/products/'' @ product @ ''/candles'') \<lparr>start_param = cursor, end_param = cursor + get_candles_d, granularity = 60\<rparr> w)))
       \<and> db (snd (get_candles_turn up product start_date end_date cursor prev w)) = db w"
    using assms by (rule get_candles_turn_HTTPError)
  then have n: "fst (get_candles_next up (Suspended product start_date end_date cursor prev) w) = Inr None" by simp
  have "for_candles up body (Suspended product start_date end_date cursor prev) s w = (Inr s, snd (get_candles_next up (Suspended product start_date end_date cursor prev) w))"
    using n by (rule for_candles_finished)
  then show ?thesis using t by simp
qed

lemma created_HTTPError:
  assumes "start_date < end_date0 - get_candles_d"
    and "fst (get up (API_URL @ ''/products/'' @ product @ ''/candles'') \<lparr>start_param = start_date, end_param = start_date + get_candles_d, granularity = 60\<rparr> w) = Inl (HTTPError st')"
  shows "fst (get_candles_next up (Created product start_date end_date0) w) = Inr None
      \<and> sent (trace (snd (get_candles_next up (Created product start_date end_date0) w))) =
          sent (trace (snd (get up (API_URL @ ''/products/'' @ product @ ''/candles'') \<lparr>start_param = start_date, end_param = start_date + get_candles_d, granularity = 60\<rparr> w)))
      \<and> for_candles up body (Created product start_date end_date0) s w = (Inr s, snd (get_candles_next up (Created product start_date end_date0) w))"
proof -
  have t: "fst (get_candles_turn up product start_date (end_date0 - get_candles_d) start_date (date start_date) w) = Inr None
       \<and> sent (trace (snd (get_candles_turn up product start_date (end_date0 - get_candles_d) start_date (date start_date) w))) =
           sent (trace (snd (get up (API_URL @ ''/products/'' @ product @ ''/candles'') \<lparr>start_param = start_date, end_param = start_date + get_candles_d, granularity = 60\<rparr> w)))
       \<and> db (snd (get_candles_turn up product start_date (end_date0 - get_candles_d) start_date (date start_date) w)) = db w"
    using assms by (rule get_candles_turn_HTTPError)
  have e: "get_candles_next up (Created product start_date end_date0) w =
      get_candles_turn up product start_date (end_date0 - get_candles_d) start_date (date start_date) w"
    using assms(1) by (simp add: Let_def)
  have n: "fst (get_candles_next up (Created product start_date end_date0) w) = Inr None" using t e by simp
  have "for_candles up body (Created product start_date end_date0) s w = (Inr s, snd (get_candles_next up (Created product start_date end_date0) w))"
    using n by (rule for_candles_finished)
  then show ?thesis using t e by simp
qed

text \<open>
  C7. Asking the generator of \<open>get_candles\<close> for its next batch never raises an
  \<open>HTTPError\<close> and never changes the table (1, 2). When \<open>get\<close> raises an \<open>HTTPError\<close> for the
  next window, whatever its status and after however many attempts, the generator is
  finished: it yields no batch for this window or a later one, it sends no request beyond
  those of the failed \<open>get\<close>, and a \<open>for\<close> loop over it ends at once without running its
  body again; so for a generator suspended at any window (3) and for one just called (4).
  In particular so after three replies 429 or 500 in a row, with three requests sent (5),
  and after one reply with another error status, with one request sent (6). When that
  happens at the first window of a product, the loop of the driver goes on with the next
  product, the table as it was (7). The loop of the driver over the batches of a product
  never raises an \<open>HTTPError\<close> (8), nor does \<open>main\<close> (9), and the rows that were in the table
  are all still there when \<open>main\<close> ends, unchanged and at their places (10).
\<close>

theorem terminal_fetch_failure_abandons_product:
  "fst (get_candles_next up fr w) \<noteq> Inl (HTTPError st)
   \<and> db (snd (get_candles_next up fr w)) = db w
   \<and> (cursor < end_date
        \<and> fst (get up (API_URL @ ''/products/'' @ product @ ''/candles'') \<lparr>start_param = cursor, end_param = cursor + get_candles_d, granularity = 60\<rparr> w) = Inl (HTTPError st') \<longrightarrow>
      fst (get_candles_next up (Suspended product start_date end_date cursor prev) w) = Inr None
      \<and> sent (trace (snd (get_candles_next up (Suspended product start_date end_date cursor prev) w))) =
          sent (trace (snd (get up (API_URL @ ''/products/'' @ product @ ''/candles'') \<lparr>start_param = cursor, end_param = cursor + get_candles_d, granularity = 60\<rparr> w)))
      \<and> for_candles up body (Suspended product start_date end_date cursor prev) s w =
          (Inr s, snd (get_candles_next up (Suspended product start_date end_date cursor prev) w)))
   \<and> (start_date < end_date0 - get_candles_d
        \<and> fst (get up (API_URL @ ''/products/'' @ product @ ''/candles'') \<lparr>start_param = start_date, end_param = start_date + get_candles_d, granularity = 60\<rparr> w) = Inl (HTTPError st') \<longrightarrow>
      fst (get_candles_next up (Created product start_date end_date0) w) = Inr None
      \<and> sent (trace (snd (get_candles_next up (Created product start_date end_date0) w))) =
          sent (trace (snd (get up (API_URL @ ''/products/'' @ product @ ''/candles'') \<lparr>start_param = start_date, end_param = start_date + get_candles_d, granularity = 60\<rparr> w)))
      \<and> for_candles up body (Created product start_date end_date0) s w =
          (Inr s, snd (get_candles_next up (Created product start_date end_date0) w)))
   \<and> (cursor < end_date
        \<and> up (length (sent (trace w))) \<lparr>url = API_URL @ ''/products/'' @ product @ ''/candles'', params = \<lparr>start_param = cursor, end_param = cursor + get_candles_d, granularity = 60\<rparr>\<rparr> = Some r1 \<and> status_code r1 \<in> {429, 500}
        \<and> up (length (sent (trace w)) + 1) \<lparr>url = API_URL @ ''/products/'' @ product @ ''/candles'', params = \<lparr>start_param = cursor, end_param = cursor + get_candles_d, granularity = 60\<rparr>\<rparr> = Some r2 \<and> status_code r2 \<in> {429, 500}
        \<and> up (length (sent (trace w)) + 2) \<lparr>url = API_URL @ ''/products/'' @ product @ ''/candles'', params = \<lparr>start_param = cursor, end_param = cursor + get_candles_d, granularity = 60\<rparr>\<rparr> = Some r3 \<and> status_code r3 \<in> {429, 500} \<longrightarrow>
      fst (get_candles_next up (Suspended product start_date end_date cursor prev) w) = Inr None
      \<and> sent (trace (snd (get_candles_next up (Suspended product start_date end_date cursor prev) w))) =
          sent (trace w) @ [\<lparr>url = API_URL @ ''/products/'' @ product @ ''/candles'', params = \<lparr>start_param = cursor, end_param = cursor + get_candles_d, granularity = 60\<rparr>\<rparr>, \<lparr>url = API_URL @ ''/products/'' @ product @ ''/candles'', params = \<lparr>start_param = cursor, end_param = cursor + get_candles_d, granularity = 60\<rparr>\<rparr>, \<lparr>url = API_URL @ ''/products/'' @ product @ ''/candles'', params = \<lparr>start_param = cursor, end_param = cursor + get_candles_d, granularity = 60\<rparr>\<rparr>])
   \<and> (cursor < end_date
        \<and> up (length (sent (trace w))) \<lparr>url = API_URL @ ''/products/'' @ product @ ''/candles'', params = \<lparr>start_param = cursor, end_param = cursor + get_candles_d, granularity = 60\<rparr>\<rparr> = Some r
        \<and> 400 \<le> status_code r \<and> status_code r < 600 \<and> status_code r \<notin> {429, 500} \<longrightarrow>
      fst (get_candles_next up (Suspended product start_date end_date cursor prev) w) = Inr None
      \<and> sent (trace (snd (get_candles_next up (Suspended product start_date end_date cursor prev) w))) = sent (trace w) @ [\<lparr>url = API_URL @ ''/products/'' @ product @ ''/candles'', params = \<lparr>start_param = cursor, end_param = cursor + get_candles_d, granularity = 60\<rparr>\<rparr>])
   \<and> (main_start_date lib a product w = (Inr start_date, w1)
        \<and> start_date < get_candles_end_date m - get_candles_d
        \<and> fst (get up (API_URL @ ''/products/'' @ product @ ''/candles'') \<lparr>start_param = start_date, end_param = start_date + get_candles_d, granularity = 60\<rparr> w1) = Inl (HTTPError st') \<longrightarrow>
      main_loop lib float_str up m a (product # rest) w =
        main_loop lib float_str up m a rest
          (snd (get_candles_next up (get_candles m product start_date None)
                  (logger INFO ''starting from'' w1)))
      \<and> db (snd (get_candles_next up (get_candles m product start_date None)
                  (logger INFO ''starting from'' w1))) = db w)
   \<and> fst (for_candles up (main_body float_str product) fr () w) \<noteq> Inl (HTTPError st)
   \<and> fst (main lib float_str up m a w) \<noteq> Inl (HTTPError st)
   \<and> (\<exists>extra. db (snd (main lib float_str up m a w)) = db w @ extra)"
proof -
  let ?u = "API_URL @ ''/products/'' @ product @ ''/candles''"
  note c3 = suspended_HTTPError [where up = up and product = product and body = body and s = s
      and cursor = cursor and end_date = end_date and start_date = start_date and prev = prev and w = w]
  note c4 = created_HTTPError [where up = up and product = product and body = body and s = s
      and start_date = start_date and ?end_date0.0 = end_date0 and w = w and st' = st']
  have c5: "fst (get_candles_next up (Suspended product start_date end_date cursor prev) w) = Inr None
      \<and> sent (trace (snd (get_candles_next up (Suspended product start_date end_date cursor prev) w))) =
          sent (trace w) @ [\<lparr>url = API_URL @ ''/products/'' @ product @ ''/candles'', params = \<lparr>start_param = cursor, end_param = cursor + get_candles_d, granularity = 60\<rparr>\<rparr>, \<lparr>url = API_URL @ ''/products/'' @ product @ ''/candles'', params = \<lparr>start_param = cursor, end_param = cursor + get_candles_d, granularity = 60\<rparr>\<rparr>, \<lparr>url = API_URL @ ''/products/'' @ product @ ''/candles'', params = \<lparr>start_param = cursor, end_param = cursor + get_candles_d, granularity = 60\<rparr>\<rparr>]"
    if h: "cursor < end_date
        \<and> up (length (sent (trace w))) \<lparr>url = API_URL @ ''/products/'' @ product @ ''/candles'', params = \<lparr>start_param = cursor, end_param = cursor + get_candles_d, granularity = 60\<rparr>\<rparr> = Some r1 \<and> status_code r1 \<in> {429, 500}
        \<and> up (length (sent (trace w)) + 1) \<lparr>url = API_URL @ ''/products/'' @ product @ ''/candles'', params = \<lparr>start_param = cursor, end_param = cursor + get_candles_d, granularity = 60\<rparr>\<rparr> = Some r2 \<and> status_code r2 \<in> {429, 500}
        \<and> up (length (sent (trace w)) + 2) \<lparr>url = API_URL @ ''/products/'' @ product @ ''/candles'', params = \<lparr>start_param = cursor, end_param = cursor + get_candles_d, granularity = 60\<rparr>\<rparr> = Some r3 \<and> status_code r3 \<in> {429, 500}"
  proof -
    have g: "fst (get up ?u \<lparr>start_param = cursor, end_param = cursor + get_candles_d, granularity = 60\<rparr> w) = Inl (HTTPError (status_code r3))
       \<and> sent (trace (snd (get up ?u \<lparr>start_param = cursor, end_param = cursor + get_candles_d, granularity = 60\<rparr> w))) =
           sent (trace w) @ [\<lparr>url = API_URL @ ''/products/'' @ product @ ''/candles'', params = \<lparr>start_param = cursor, end_param = cursor + get_candles_d, granularity = 60\<rparr>\<rparr>, \<lparr>url = API_URL @ ''/products/'' @ product @ ''/candles'', params = \<lparr>start_param = cursor, end_param = cursor + get_candles_d, granularity = 60\<rparr>\<rparr>, \<lparr>url = API_URL @ ''/products/'' @ product @ ''/candles'', params = \<lparr>start_param = cursor, end_param = cursor + get_candles_d, granularity = 60\<rparr>\<rparr>]"
      using h by (intro get_exhausted [where ?r1.0 = r1 and ?r2.0 = r2]) blast+
    have lt: "cursor < end_date" using h by blast
    have g1: "fst (get up ?u \<lparr>start_param = cursor, end_param = cursor + get_candles_d, granularity = 60\<rparr> w) = Inl (HTTPError (status_code r3))" using g by blast
    show ?thesis
      using g c3 [where st' = "status_code r3", OF lt g1] by simp
  qed
  have c6: "fst (get_candles_next up (Suspended product start_date end_date cursor prev) w) = Inr None
      \<and> sent (trace (snd (get_candles_next up (Suspended product start_date end_date cursor prev) w))) = sent (trace w) @ [\<lparr>url = API_URL @ ''/products/'' @ product @ ''/candles'', params = \<lparr>start_param = cursor, end_param = cursor + get_candles_d, granularity = 60\<rparr>\<rparr>]"
    if h: "cursor < end_date
        \<and> up (length (sent (trace w))) \<lparr>url = API_URL @ ''/products/'' @ product @ ''/candles'', params = \<lparr>start_param = cursor, end_param = cursor + get_candles_d, granularity = 60\<rparr>\<rparr> = Some r
        \<and> 400 \<le> status_code r \<and> status_code r < 600 \<and> status_code r \<notin> {429, 500}"
  proof -
    have g: "fst (get up ?u \<lparr>start_param = cursor, end_param = cursor + get_candles_d, granularity = 60\<rparr> w) = Inl (HTTPError (status_code r))
       \<and> sent (trace (snd (get up ?u \<lparr>start_param = cursor, end_param = cursor + get_candles_d, granularity = 60\<rparr> w))) = sent (trace w) @ [\<lparr>url = API_URL @ ''/products/'' @ product @ ''/candles'', params = \<lparr>start_param = cursor, end_param = cursor + get_candles_d, granularity = 60\<rparr>\<rparr>]"
      using h by (intro get_permanent) blast+
    have lt: "cursor < end_date" using h by blast
    have g1: "fst (get up ?u \<lparr>start_param = cursor, end_param = cursor + get_candles_d, granularity = 60\<rparr> w) = Inl (HTTPError (status_code r))" using g by blast
    show ?thesis
      using g c3 [where st' = "status_code r", OF lt g1] by simp
  qed
  have c7: "main_loop lib float_str up m a (product # rest) w =
        main_loop lib float_str up m a rest
          (snd (get_candles_next up (get_candles m product start_date None)
                  (logger INFO ''starting from'' w1)))
      \<and> db (snd (get_candles_next up (get_candles m product start_date None)
                  (logger INFO ''starting from'' w1))) = db w"
    if h: "main_start_date lib a product w = (Inr start_date, w1)
        \<and> start_date < get_candles_end_date m - get_candles_d
        \<and> fst (get up ?u \<lparr>start_param = start_date, end_param = start_date + get_candles_d, granularity = 60\<rparr> w1) = Inl (HTTPError st')"
  proof -
    define w1' where "w1' = logger INFO ''starting from'' w1"
    have sd: "main_start_date lib a product w = (Inr start_date, w1)" using h by blast
    have lt: "start_date < get_candles_end_date m - get_candles_d" using h by blast
    have "sent (trace w1') = sent (trace w1)" by (simp add: w1'_def)
    then have "fst (get up ?u \<lparr>start_param = start_date, end_param = start_date + get_candles_d, granularity = 60\<rparr> w1') = fst (get up ?u \<lparr>start_param = start_date, end_param = start_date + get_candles_d, granularity = 60\<rparr> w1)"
      using get_sent [of w1' w1 up ?u "\<lparr>start_param = start_date, end_param = start_date + get_candles_d, granularity = 60\<rparr>"] by blast
    then have g1: "fst (get up ?u \<lparr>start_param = start_date, end_param = start_date + get_candles_d, granularity = 60\<rparr> w1') = Inl (HTTPError st')"
      using h by simp
    have fc: "for_candles up (main_body float_str product) (Created product start_date (get_candles_end_date m)) () w1'
        = (Inr (), snd (get_candles_next up (Created product start_date (get_candles_end_date m)) w1'))"
      using created_HTTPError [where body = "main_body float_str product" and s = "()", OF lt g1] by blast
    have d: "db w1 = db w"
      using main_start_date_no_HTTPError [of lib a product w st] sd by simp
    have d': "db (snd (get_candles_next up (get_candles m product start_date None) w1')) = db w"
      by (simp add: db_get_candles_next d w1'_def)
    have "main_loop lib float_str up m a (product # rest) w =
        main_loop lib float_str up m a rest
          (snd (get_candles_next up (Created product start_date (get_candles_end_date m)) w1'))"
      using sd fc by (simp add: get_candles_def w1'_def)
    then have "main_loop lib float_str up m a (product # rest) w =
        main_loop lib float_str up m a rest
          (snd (get_candles_next up (get_candles m product start_date None) w1'))"
      by (simp add: get_candles_def)
    then show ?thesis using d' unfolding w1'_def by blast
  qed
  have c3': "cursor < end_date
        \<and> fst (get up ?u \<lparr>start_param = cursor, end_param = cursor + get_candles_d, granularity = 60\<rparr> w) = Inl (HTTPError st') \<longrightarrow>
      fst (get_candles_next up (Suspended product start_date end_date cursor prev) w) = Inr None
      \<and> sent (trace (snd (get_candles_next up (Suspended product start_date end_date cursor prev) w))) =
          sent (trace (snd (get up ?u \<lparr>start_param = cursor, end_param = cursor + get_candles_d, granularity = 60\<rparr> w)))
      \<and> for_candles up body (Suspended product start_date end_date cursor prev) s w =
          (Inr s, snd (get_candles_next up (Suspended product start_date end_date cursor prev) w))"
    using c3 [where st' = st'] by blast
  have c4': "start_date < end_date0 - get_candles_d
        \<and> fst (get up ?u \<lparr>start_param = start_date, end_param = start_date + get_candles_d, granularity = 60\<rparr> w) = Inl (HTTPError st') \<longrightarrow>
      fst (get_candles_next up (Created product start_date end_date0) w) = Inr None
      \<and> sent (trace (snd (get_candles_next up (Created product start_date end_date0) w))) =
          sent (trace (snd (get up ?u \<lparr>start_param = start_date, end_param = start_date + get_candles_d, granularity = 60\<rparr> w)))
      \<and> for_candles up body (Created product start_date end_date0) s w =
          (Inr s, snd (get_candles_next up (Created product start_date end_date0) w))"
    using c4 by blast
  have g1: "fst (get_candles_next up fr w) \<noteq> Inl (HTTPError st)"
    by (rule get_candles_next_no_HTTPError)
  have g2: "db (snd (get_candles_next up fr w)) = db w"
    by (rule db_get_candles_next)
  have g8: "fst (for_candles up (main_body float_str product) fr () w) \<noteq> Inl (HTTPError st)"
    using for_candles_main_body [of up float_str product fr "()" w st] by blast
  have g9: "fst (main lib float_str up m a w) \<noteq> Inl (HTTPError st)"
    using main_no_HTTPError [of lib float_str up m a w st] by blast
  have g10: "\<exists>extra. db (snd (main lib float_str up m a w)) = db w @ extra"
    using main_no_HTTPError [of lib float_str up m a w st] by blast
  show ?thesis
    apply (intro conjI)
    apply (rule g1)
    apply (rule g2)
    apply (rule c3')
    apply (rule c4')
    apply (rule impI, erule c5)
    apply (rule impI, erule c6)
    apply (rule impI, erule c7)
    apply (rule g8)
    apply (rule g9)
    apply (rule g10)
    done
qed


text \<open>A run in which every request is refused: each product is asked for once.\<close>

lemma main_loop_forbidden:
  assumes "args_start_date a = Some day" and "strptime lib day = Some start_date"
    and "start_date < get_candles_end_date m - get_candles_d"
  shows "fst (main_loop lib float_str forbidden m a products w) = Inr ()
       \<and> map url (sent (trace (snd (main_loop lib float_str forbidden m a products w)))) =
           map url (sent (trace w)) @ map (\<lambda>p. API_URL @ ''/products/'' @ p @ ''/candles'') products"
proof (induction products arbitrary: w)
  case Nil
  show ?case by simp
next
  case (Cons product rest)
  define w1 where "w1 = logger INFO ''starting from'' w"
  define fr where "fr = Created product start_date (get_candles_end_date m)"
  have sd: "main_start_date lib a product w = (Inr start_date, w)"
    using assms(1,2) by (simp add: main_start_date_def)
  have g: "fst (get forbidden (API_URL @ ''/products/'' @ product @ ''/candles'')
              \<lparr>start_param = start_date, end_param = start_date + get_candles_d, granularity = 60\<rparr> w1)
            = Inl (HTTPError (status_code \<lparr>status_code = 403, json = (None :: string candle list option)\<rparr>))
      \<and> sent (trace (snd (get forbidden (API_URL @ ''/products/'' @ product @ ''/candles'')
              \<lparr>start_param = start_date, end_param = start_date + get_candles_d, granularity = 60\<rparr> w1)))
            = sent (trace w1) @ [\<lparr>url = API_URL @ ''/products/'' @ product @ ''/candles'',
                 params = \<lparr>start_param = start_date, end_param = start_date + get_candles_d, granularity = 60\<rparr>\<rparr>]"
    by (rule get_permanent) (simp_all add: forbidden_def)
  then have g1: "fst (get forbidden (API_URL @ ''/products/'' @ product @ ''/candles'')
              \<lparr>start_param = start_date, end_param = start_date + get_candles_d, granularity = 60\<rparr> w1)
            = Inl (HTTPError 403)"
    by simp
  note c = created_HTTPError [where body = "main_body float_str product" and s = "()", OF assms(3) g1]
  define w2 where "w2 = snd (get_candles_next forbidden fr w1)"
  have fc: "for_candles forbidden (main_body float_str product) fr () w1 = (Inr (), w2)"
    using c by (simp add: fr_def w2_def)
  have "sent (trace w2) = sent (trace w1) @ [\<lparr>url = API_URL @ ''/products/'' @ product @ ''/candles'',
                 params = \<lparr>start_param = start_date, end_param = start_date + get_candles_d, granularity = 60\<rparr>\<rparr>]"
    using c g by (simp add: fr_def w2_def)
  then have s2: "map url (sent (trace w2)) = map url (sent (trace w)) @ [API_URL @ ''/products/'' @ product @ ''/candles'']"
    by (simp add: w1_def)
  have "main_loop lib float_str forbidden m a (product # rest) w =
          main_loop lib float_str forbidden m a rest w2"
    using sd fc by (simp add: get_candles_def fr_def w1_def)
  then show ?case using Cons.IH [of w2] by (simp add: s2)
qed

text \<open>
  The witness: the first three requests are answered with 429. The generator of a product
  with three windows to fetch is finished after the three requests for its first window,
  although a fourth request would have been answered; so is a generator suspended before
  the second window; and the driver ends normally. Then an upstream that refuses every
  request with 403: the run ends normally after one request for each of the twelve
  products.
\<close>

theorem terminal_fetch_failure_abandons_product_witness:
  "daterange (seconds 1420675200) (get_candles_end_date (load_module world3) - get_candles_d) get_candles_d =
      Some [(seconds 1420675200, seconds 1420675200 + get_candles_d),
            (seconds 1420675200 + get_candles_d, seconds 1420675200 + get_candles_d + get_candles_d),
            (seconds 1420675200 + get_candles_d + get_candles_d, seconds 1420675200 + get_candles_d + get_candles_d + get_candles_d)]
   \<and> failing_first 3 429 batch0 3 \<lparr>url = API_URL @ ''/products/'' @ ''BTC-USD'' @ ''/candles'', params = \<lparr>start_param = seconds 1420675200 + get_candles_d, end_param = seconds 1420675200 + get_candles_d + get_candles_d, granularity = 60\<rparr>\<rparr> = Some \<lparr>status_code = 200, json = Some batch0\<rparr>
   \<and> fst (get_candles_next (failing_first 3 429 batch0) (get_candles (load_module world3) ''BTC-USD'' (seconds 1420675200) None) world3) = Inr None
   \<and> sent (trace (snd (get_candles_next (failing_first 3 429 batch0)
         (get_candles (load_module world3) ''BTC-USD'' (seconds 1420675200) None) world3))) = [\<lparr>url = API_URL @ ''/products/'' @ ''BTC-USD'' @ ''/candles'', params = \<lparr>start_param = seconds 1420675200, end_param = seconds 1420675200 + get_candles_d, granularity = 60\<rparr>\<rparr>, \<lparr>url = API_URL @ ''/products/'' @ ''BTC-USD'' @ ''/candles'', params = \<lparr>start_param = seconds 1420675200, end_param = seconds 1420675200 + get_candles_d, granularity = 60\<rparr>\<rparr>, \<lparr>url = API_URL @ ''/products/'' @ ''BTC-USD'' @ ''/candles'', params = \<lparr>start_param = seconds 1420675200, end_param = seconds 1420675200 + get_candles_d, granularity = 60\<rparr>\<rparr>]
   \<and> fst (batches (failing_first 3 429 batch0) (get_candles (load_module world3) ''BTC-USD'' (seconds 1420675200) None) world3) = Inr []
   \<and> fst (get_candles_next (failing_first 3 429 batch0)
         (Suspended ''BTC-USD'' (seconds 1420675200) (get_candles_end_date (load_module world3) - get_candles_d)
            (seconds 1420675200 + get_candles_d) (date (seconds 1420675200))) world3) = Inr None
   \<and> sent (trace (snd (get_candles_next (failing_first 3 429 batch0)
         (Suspended ''BTC-USD'' (seconds 1420675200) (get_candles_end_date (load_module world3) - get_candles_d)
            (seconds 1420675200 + get_candles_d) (date (seconds 1420675200))) world3))) = [\<lparr>url = API_URL @ ''/products/'' @ ''BTC-USD'' @ ''/candles'', params = \<lparr>start_param = seconds 1420675200 + get_candles_d, end_param = seconds 1420675200 + get_candles_d + get_candles_d, granularity = 60\<rparr>\<rparr>, \<lparr>url = API_URL @ ''/products/'' @ ''BTC-USD'' @ ''/candles'', params = \<lparr>start_param = seconds 1420675200 + get_candles_d, end_param = seconds 1420675200 + get_candles_d + get_candles_d, granularity = 60\<rparr>\<rparr>, \<lparr>url = API_URL @ ''/products/'' @ ''BTC-USD'' @ ''/candles'', params = \<lparr>start_param = seconds 1420675200 + get_candles_d, end_param = seconds 1420675200 + get_candles_d + get_candles_d, granularity = 60\<rparr>\<rparr>]
   \<and> fst (main_loop lib0 (\<lambda>x. x) (failing_first 3 429 batch0) (load_module world3) \<lparr>args_start_date = Some ''2015-01-08'', args_product = None\<rparr> [''BTC-USD''] world3) = Inr ()
   \<and> db (snd (main_loop lib0 (\<lambda>x. x) (failing_first 3 429 batch0) (load_module world3) \<lparr>args_start_date = Some ''2015-01-08'', args_product = None\<rparr> [''BTC-USD''] world3)) = []
   \<and> fst (get_candles_next forbidden
          (Suspended ''BTC-USD'' (seconds 1420675200) (seconds 1420675200 + minutes 1) (seconds 1420675200) (date (seconds 1420675200))) world1) = Inr None
   \<and> fst (program lib0 (\<lambda>x. x) forbidden \<lparr>args_start_date = Some ''2015-01-08'', args_product = None\<rparr> world1) = Inr ()
   \<and> map url (sent (trace (snd (program lib0 (\<lambda>x. x) forbidden \<lparr>args_start_date = Some ''2015-01-08'', args_product = None\<rparr> world1)))) =
        map (\<lambda>p. API_URL @ ''/products/'' @ p @ ''/candles'') (map fst PRODUCTS)"
proof -
  define e3 where "e3 = get_candles_end_date (load_module world3) - get_candles_d"
  have e3: "e3 = seconds 1420675200 + minutes 700"
    by (simp add: e3_def load_module_def world3_def get_candles_d_def minutes_def)
  have dr: "daterange (seconds 1420675200) e3 get_candles_d =
      Some [(seconds 1420675200, seconds 1420675200 + get_candles_d),
            (seconds 1420675200 + get_candles_d, seconds 1420675200 + get_candles_d + get_candles_d),
            (seconds 1420675200 + get_candles_d + get_candles_d, seconds 1420675200 + get_candles_d + get_candles_d + get_candles_d)]"
  proof -
    have l0: "seconds 1420675200 < e3" by (simp add: e3 minutes_def)
    have l1: "seconds 1420675200 + get_candles_d < e3" by (simp add: e3 minutes_def get_candles_d_def)
    have l2: "seconds 1420675200 + get_candles_d + get_candles_d < e3" by (simp add: e3 minutes_def get_candles_d_def)
    have l3: "e3 \<le> seconds 1420675200 + get_candles_d + get_candles_d + get_candles_d"
      by (simp add: e3 minutes_def get_candles_d_def)
    show ?thesis
      by (simp only: daterange_go [OF l0] daterange_go [OF l1] daterange_go [OF l2]
            daterange_stop [OF l3] Option.bind.simps)
  qed
  have up3: "failing_first 3 429 batch0 3 \<lparr>url = API_URL @ ''/products/'' @ ''BTC-USD'' @ ''/candles'', params = \<lparr>start_param = seconds 1420675200 + get_candles_d, end_param = seconds 1420675200 + get_candles_d + get_candles_d, granularity = 60\<rparr>\<rparr> = Some \<lparr>status_code = 200, json = Some batch0\<rparr>"
    by (simp add: failing_first_def)
  have n0: "length (sent (trace world3)) = 0" by (simp add: world3_def)
  have g1: "fst (get (failing_first 3 429 batch0) (API_URL @ ''/products/'' @ ''BTC-USD'' @ ''/candles'') \<lparr>start_param = seconds 1420675200, end_param = seconds 1420675200 + get_candles_d, granularity = 60\<rparr> world3)
              = Inl (HTTPError 429)
     \<and> sent (trace (snd (get (failing_first 3 429 batch0) (API_URL @ ''/products/'' @ ''BTC-USD'' @ ''/candles'') \<lparr>start_param = seconds 1420675200, end_param = seconds 1420675200 + get_candles_d, granularity = 60\<rparr> world3)))
              = sent (trace world3) @ [\<lparr>url = API_URL @ ''/products/'' @ ''BTC-USD'' @ ''/candles'', params = \<lparr>start_param = seconds 1420675200, end_param = seconds 1420675200 + get_candles_d, granularity = 60\<rparr>\<rparr>, \<lparr>url = API_URL @ ''/products/'' @ ''BTC-USD'' @ ''/candles'', params = \<lparr>start_param = seconds 1420675200, end_param = seconds 1420675200 + get_candles_d, granularity = 60\<rparr>\<rparr>, \<lparr>url = API_URL @ ''/products/'' @ ''BTC-USD'' @ ''/candles'', params = \<lparr>start_param = seconds 1420675200, end_param = seconds 1420675200 + get_candles_d, granularity = 60\<rparr>\<rparr>]"
    using get_exhausted [where up = "failing_first 3 429 batch0" and w = world3
        and u = "API_URL @ ''/products/'' @ ''BTC-USD'' @ ''/candles''"
        and ps = "\<lparr>start_param = seconds 1420675200, end_param = seconds 1420675200 + get_candles_d, granularity = 60\<rparr>"
        and ?r1.0 = "\<lparr>status_code = 429, json = None\<rparr>" and ?r2.0 = "\<lparr>status_code = 429, json = None\<rparr>" and ?r3.0 = "\<lparr>status_code = 429, json = None\<rparr>"]
    by (simp add: failing_first_def n0)
  have lt: "seconds 1420675200 < get_candles_end_date (load_module world3) - get_candles_d"
    using e3 by (simp add: e3_def minutes_def)
  have lt2: "seconds 1420675200 + get_candles_d < get_candles_end_date (load_module world3) - get_candles_d"
    using e3 by (simp add: e3_def minutes_def get_candles_d_def)
  have sd: "main_start_date lib0 \<lparr>args_start_date = Some ''2015-01-08'', args_product = None\<rparr> ''BTC-USD'' world3 = (Inr (seconds 1420675200), world3)"
    by (simp add: main_start_date_def lib0_def strptime0_def)
  have h4: "seconds 1420675200 < get_candles_end_date (load_module world3) - get_candles_d
        \<and> fst (get (failing_first 3 429 batch0) (API_URL @ ''/products/'' @ ''BTC-USD'' @ ''/candles'') \<lparr>start_param = seconds 1420675200, end_param = seconds 1420675200 + get_candles_d, granularity = 60\<rparr> world3)
            = Inl (HTTPError 429)"
    using lt g1 by simp
  have h5: "seconds 1420675200 + get_candles_d < get_candles_end_date (load_module world3) - get_candles_d
        \<and> failing_first 3 429 batch0 (length (sent (trace world3))) \<lparr>url = API_URL @ ''/products/'' @ ''BTC-USD'' @ ''/candles'', params = \<lparr>start_param = seconds 1420675200 + get_candles_d, end_param = seconds 1420675200 + get_candles_d + get_candles_d, granularity = 60\<rparr>\<rparr> = Some \<lparr>status_code = 429, json = None\<rparr>
        \<and> status_code \<lparr>status_code = 429, json = None\<rparr> \<in> {429, 500}
        \<and> failing_first 3 429 batch0 (length (sent (trace world3)) + 1) \<lparr>url = API_URL @ ''/products/'' @ ''BTC-USD'' @ ''/candles'', params = \<lparr>start_param = seconds 1420675200 + get_candles_d, end_param = seconds 1420675200 + get_candles_d + get_candles_d, granularity = 60\<rparr>\<rparr> = Some \<lparr>status_code = 429, json = None\<rparr>
        \<and> status_code \<lparr>status_code = 429, json = None\<rparr> \<in> {429, 500}
        \<and> failing_first 3 429 batch0 (length (sent (trace world3)) + 2) \<lparr>url = API_URL @ ''/products/'' @ ''BTC-USD'' @ ''/candles'', params = \<lparr>start_param = seconds 1420675200 + get_candles_d, end_param = seconds 1420675200 + get_candles_d + get_candles_d, granularity = 60\<rparr>\<rparr> = Some \<lparr>status_code = 429, json = None\<rparr>
        \<and> status_code \<lparr>status_code = 429, json = None\<rparr> \<in> {429, 500}"
    using lt2 by (simp add: failing_first_def n0)
  have h7: "main_start_date lib0 \<lparr>args_start_date = Some ''2015-01-08'', args_product = None\<rparr> ''BTC-USD'' world3 = (Inr (seconds 1420675200), world3)
        \<and> seconds 1420675200 < get_candles_end_date (load_module world3) - get_candles_d
        \<and> fst (get (failing_first 3 429 batch0) (API_URL @ ''/products/'' @ ''BTC-USD'' @ ''/candles'') \<lparr>start_param = seconds 1420675200, end_param = seconds 1420675200 + get_candles_d, granularity = 60\<rparr> world3)
            = Inl (HTTPError 429)"
    using sd h4 by blast
  note inst = terminal_fetch_failure_abandons_product [where up = "failing_first 3 429 batch0" and w = world3
      and product = "''BTC-USD''" and start_date = "seconds 1420675200"
      and ?end_date0.0 = "get_candles_end_date (load_module world3)"
      and cursor = "seconds 1420675200 + get_candles_d"
      and end_date = "get_candles_end_date (load_module world3) - get_candles_d"
      and prev = "date (seconds 1420675200)" and st' = 429
      and ?r1.0 = "\<lparr>status_code = 429, json = None\<rparr>" and ?r2.0 = "\<lparr>status_code = 429, json = None\<rparr>" and ?r3.0 = "\<lparr>status_code = 429, json = None\<rparr>"
      and body = "\<lambda>data acc w'. (Inr (acc @ [data]), w')" and s = "[]"
      and lib = lib0 and a = "\<lparr>args_start_date = Some ''2015-01-08'', args_product = None\<rparr>" and m = "load_module world3" and ?w1.0 = world3
      and rest = "[]" and float_str = "\<lambda>x. x"]
  have fr: "get_candles (load_module world3) ''BTC-USD'' (seconds 1420675200) None =
      Created ''BTC-USD'' (seconds 1420675200) (get_candles_end_date (load_module world3))"
    by (simp add: get_candles_def)
  have a1: "fst (get_candles_next (failing_first 3 429 batch0) (get_candles (load_module world3) ''BTC-USD'' (seconds 1420675200) None) world3) = Inr None"
    using inst h4 unfolding fr by blast
  have "sent (trace (snd (get_candles_next (failing_first 3 429 batch0)
         (get_candles (load_module world3) ''BTC-USD'' (seconds 1420675200) None) world3))) =
        sent (trace (snd (get (failing_first 3 429 batch0) (API_URL @ ''/products/'' @ ''BTC-USD'' @ ''/candles'') \<lparr>start_param = seconds 1420675200, end_param = seconds 1420675200 + get_candles_d, granularity = 60\<rparr> world3)))"
    using inst h4 unfolding fr by blast
  then have a2: "sent (trace (snd (get_candles_next (failing_first 3 429 batch0)
         (get_candles (load_module world3) ''BTC-USD'' (seconds 1420675200) None) world3))) = [\<lparr>url = API_URL @ ''/products/'' @ ''BTC-USD'' @ ''/candles'', params = \<lparr>start_param = seconds 1420675200, end_param = seconds 1420675200 + get_candles_d, granularity = 60\<rparr>\<rparr>, \<lparr>url = API_URL @ ''/products/'' @ ''BTC-USD'' @ ''/candles'', params = \<lparr>start_param = seconds 1420675200, end_param = seconds 1420675200 + get_candles_d, granularity = 60\<rparr>\<rparr>, \<lparr>url = API_URL @ ''/products/'' @ ''BTC-USD'' @ ''/candles'', params = \<lparr>start_param = seconds 1420675200, end_param = seconds 1420675200 + get_candles_d, granularity = 60\<rparr>\<rparr>]"
    using g1 by (simp add: world3_def)
  have "for_candles (failing_first 3 429 batch0) (\<lambda>data acc w'. (Inr (acc @ [data]), w'))
          (get_candles (load_module world3) ''BTC-USD'' (seconds 1420675200) None) [] world3 =
        (Inr [], snd (get_candles_next (failing_first 3 429 batch0) (get_candles (load_module world3) ''BTC-USD'' (seconds 1420675200) None) world3))"
    using inst h4 unfolding fr by blast
  then have a3: "fst (batches (failing_first 3 429 batch0) (get_candles (load_module world3) ''BTC-USD'' (seconds 1420675200) None) world3) = Inr []"
    by (simp add: batches_def)
  have a4: "fst (get_candles_next (failing_first 3 429 batch0)
         (Suspended ''BTC-USD'' (seconds 1420675200) (get_candles_end_date (load_module world3) - get_candles_d)
            (seconds 1420675200 + get_candles_d) (date (seconds 1420675200))) world3) = Inr None"
    using inst h5 by blast
  have "sent (trace (snd (get_candles_next (failing_first 3 429 batch0)
         (Suspended ''BTC-USD'' (seconds 1420675200) (get_candles_end_date (load_module world3) - get_candles_d)
            (seconds 1420675200 + get_candles_d) (date (seconds 1420675200))) world3))) = sent (trace world3) @ [\<lparr>url = API_URL @ ''/products/'' @ ''BTC-USD'' @ ''/candles'', params = \<lparr>start_param = seconds 1420675200 + get_candles_d, end_param = seconds 1420675200 + get_candles_d + get_candles_d, granularity = 60\<rparr>\<rparr>, \<lparr>url = API_URL @ ''/products/'' @ ''BTC-USD'' @ ''/candles'', params = \<lparr>start_param = seconds 1420675200 + get_candles_d, end_param = seconds 1420675200 + get_candles_d + get_candles_d, granularity = 60\<rparr>\<rparr>, \<lparr>url = API_URL @ ''/products/'' @ ''BTC-USD'' @ ''/candles'', params = \<lparr>start_param = seconds 1420675200 + get_candles_d, end_param = seconds 1420675200 + get_candles_d + get_candles_d, granularity = 60\<rparr>\<rparr>]"
    using inst h5 by blast
  then have a5: "sent (trace (snd (get_candles_next (failing_first 3 429 batch0)
         (Suspended ''BTC-USD'' (seconds 1420675200) (get_candles_end_date (load_module world3) - get_candles_d)
            (seconds 1420675200 + get_candles_d) (date (seconds 1420675200))) world3))) = [\<lparr>url = API_URL @ ''/products/'' @ ''BTC-USD'' @ ''/candles'', params = \<lparr>start_param = seconds 1420675200 + get_candles_d, end_param = seconds 1420675200 + get_candles_d + get_candles_d, granularity = 60\<rparr>\<rparr>, \<lparr>url = API_URL @ ''/products/'' @ ''BTC-USD'' @ ''/candles'', params = \<lparr>start_param = seconds 1420675200 + get_candles_d, end_param = seconds 1420675200 + get_candles_d + get_candles_d, granularity = 60\<rparr>\<rparr>, \<lparr>url = API_URL @ ''/products/'' @ ''BTC-USD'' @ ''/candles'', params = \<lparr>start_param = seconds 1420675200 + get_candles_d, end_param = seconds 1420675200 + get_candles_d + get_candles_d, granularity = 60\<rparr>\<rparr>]"
    by (simp add: world3_def)
  have ml: "main_loop lib0 (\<lambda>x. x) (failing_first 3 429 batch0) (load_module world3) \<lparr>args_start_date = Some ''2015-01-08'', args_product = None\<rparr> (''BTC-USD'' # []) world3 =
        main_loop lib0 (\<lambda>x. x) (failing_first 3 429 batch0) (load_module world3) \<lparr>args_start_date = Some ''2015-01-08'', args_product = None\<rparr> []
          (snd (get_candles_next (failing_first 3 429 batch0) (get_candles (load_module world3) ''BTC-USD'' (seconds 1420675200) None)
                  (logger INFO ''starting from'' world3)))
      \<and> db (snd (get_candles_next (failing_first 3 429 batch0) (get_candles (load_module world3) ''BTC-USD'' (seconds 1420675200) None)
                  (logger INFO ''starting from'' world3))) = db world3"
    using inst h7 by blast
  have a6: "fst (main_loop lib0 (\<lambda>x. x) (failing_first 3 429 batch0) (load_module world3) \<lparr>args_start_date = Some ''2015-01-08'', args_product = None\<rparr> [''BTC-USD''] world3) = Inr ()"
    by (simp only: ml [THEN conjunct1] main_loop.simps(1) fst_conv)
  have a7: "db (snd (main_loop lib0 (\<lambda>x. x) (failing_first 3 429 batch0) (load_module world3) \<lparr>args_start_date = Some ''2015-01-08'', args_product = None\<rparr> [''BTC-USD''] world3)) = []"
    by (simp only: ml [THEN conjunct1] main_loop.simps(1) snd_conv ml [THEN conjunct2]) (simp add: world3_def)
  have hyp: "seconds 1420675200 < seconds 1420675200 + minutes 1
      \<and> forbidden (length (sent (trace world1)))
             \<lparr>url = API_URL @ ''/products/'' @ ''BTC-USD'' @ ''/candles'',
               params = \<lparr>start_param = seconds 1420675200,
                          end_param = seconds 1420675200 + get_candles_d, granularity = 60\<rparr>\<rparr>
           = Some \<lparr>status_code = 403, json = None\<rparr>
      \<and> 400 \<le> status_code \<lparr>status_code = 403, json = (None :: string candle list option)\<rparr>
      \<and> status_code \<lparr>status_code = 403, json = (None :: string candle list option)\<rparr> < 600
      \<and> status_code \<lparr>status_code = 403, json = (None :: string candle list option)\<rparr> \<notin> {429, 500}"
    by (simp add: forbidden_def minutes_def)
  have a8: "fst (get_candles_next forbidden
          (Suspended ''BTC-USD'' (seconds 1420675200) (seconds 1420675200 + minutes 1)
             (seconds 1420675200) (date (seconds 1420675200))) world1) = Inr None"
    using terminal_fetch_failure_abandons_product [where up = forbidden and w = world1
        and cursor = "seconds 1420675200" and end_date = "seconds 1420675200 + minutes 1" and product = "''BTC-USD''"
        and r = "\<lparr>status_code = 403, json = None\<rparr>" and start_date = "seconds 1420675200"
        and prev = "date (seconds 1420675200)" and st' = 403
        and body = "\<lambda>data acc w'. (Inr (acc @ [data]), w')" and s = "[]"
        and lib = lib0 and a = "\<lparr>args_start_date = Some ''2015-01-08'', args_product = None\<rparr>"
        and m = "load_module world1" and ?w1.0 = world1 and rest = "[]" and float_str = "\<lambda>x. x"
        and ?end_date0.0 = "get_candles_end_date (load_module world1)"
        and fr = "get_candles (load_module world1) ''BTC-USD'' (seconds 1420675200) None" and st = 403
        and ?r1.0 = "\<lparr>status_code = 403, json = None\<rparr>" and ?r2.0 = "\<lparr>status_code = 403, json = None\<rparr>"
        and ?r3.0 = "\<lparr>status_code = 403, json = None\<rparr>"] hyp
    by blast
  have run: "fst (main_loop lib0 (\<lambda>x. x) forbidden (load_module world1)
            \<lparr>args_start_date = Some ''2015-01-08'', args_product = None\<rparr> (map fst PRODUCTS) w) = Inr ()
       \<and> map url (sent (trace (snd (main_loop lib0 (\<lambda>x. x) forbidden (load_module world1)
            \<lparr>args_start_date = Some ''2015-01-08'', args_product = None\<rparr> (map fst PRODUCTS) w)))) =
           map url (sent (trace w)) @ map (\<lambda>p. API_URL @ ''/products/'' @ p @ ''/candles'') (map fst PRODUCTS)"
    for w
    by (rule main_loop_forbidden [where day = "''2015-01-08''" and start_date = "seconds 1420675200"])
       (simp_all add: lib0_def strptime0_def load_module_def world1_def get_candles_d_def minutes_def)
  have pr: "program lib0 (\<lambda>x. x) forbidden \<lparr>args_start_date = Some ''2015-01-08'', args_product = None\<rparr> world1 =
      main_loop lib0 (\<lambda>x. x) forbidden (load_module world1)
            \<lparr>args_start_date = Some ''2015-01-08'', args_product = None\<rparr> (map fst PRODUCTS)
            (logger INFO ''Updating'' (logger DEBUG ''Database'' world1))"
    by (simp add: program_def main_def products_to_update_def Let_def)
  have a9: "fst (program lib0 (\<lambda>x. x) forbidden \<lparr>args_start_date = Some ''2015-01-08'', args_product = None\<rparr> world1) = Inr ()"
    using run [of "logger INFO ''Updating'' (logger DEBUG ''Database'' world1)"] by (simp only: pr)
  have a10: "map url (sent (trace (snd (program lib0 (\<lambda>x. x) forbidden \<lparr>args_start_date = Some ''2015-01-08'', args_product = None\<rparr> world1)))) =
        map (\<lambda>p. API_URL @ ''/products/'' @ p @ ''/candles'') (map fst PRODUCTS)"
    using run [of "logger INFO ''Updating'' (logger DEBUG ''Database'' world1)"]
    by (simp only: pr) (simp add: world1_def)
  show ?thesis
    using dr up3 a1 a2 a3 a4 a5 a6 a7 a8 a9 a10 unfolding e3_def by (intro conjI)
qed

text \<open>
  A run against the upstream \<open>last_minute\<close>, started at 2015-01-08 05:01 for the history
  from 2015-01-08 00:00 on: one window is asked for, from 00:00 to 05:00, and its batch
  holds the candle of 04:59.
\<close>

lemma get_last_minute:
  "get last_minute u ps w =
     (Inr [[JInt (end_param ps div 1000000 - 60), JFloat ''0.31'', JFloat ''0.35'',
            JFloat ''0.32'', JFloat ''0.34'', JFloat ''12.5'']],
      emit (Sent \<lparr>url = u, params = ps\<rparr>) w)"
proof -
  have "get_loop last_minute u ps None [0, Suc 0, Suc (Suc 0)] w =
          (r_json (Some \<lparr>status_code = 200,
             json = Some [[JInt (end_param ps div 1000000 - 60), JFloat ''0.31'', JFloat ''0.35'',
                           JFloat ''0.32'', JFloat ''0.34'', JFloat ''12.5'']]\<rparr>),
           emit (Sent \<lparr>url = u, params = ps\<rparr>) w)"
    by (rule get_loop_break) (simp_all add: last_minute_def)
  then show ?thesis by (simp add: get_unfold)
qed

lemma next_last_minute_first:
  "fst (get_candles_next last_minute
          (get_candles (load_module world1) ''BTC-USD'' (seconds 1420675200) None) w) =
     Inr (Some ([[JInt 1420693140, JFloat ''0.31'', JFloat ''0.35'', JFloat ''0.32'', JFloat ''0.34'',
                  JFloat ''12.5'']],
                Suspended ''BTC-USD'' (seconds 1420675200)
                  (get_candles_end_date (load_module world1) - get_candles_d)
                  (seconds 1420675200 + get_candles_d) (date (seconds 1420675200))))"
  by (simp add: get_candles_def load_module_def world1_def get_candles_d_def minutes_def seconds_def
        get_candles_turn_def daterange_next_def Let_def get_last_minute)

lemma next_last_minute_second:
  "fst (get_candles_next last_minute
          (Suspended ''BTC-USD'' (seconds 1420675200)
             (get_candles_end_date (load_module world1) - get_candles_d)
             (seconds 1420675200 + get_candles_d) (date (seconds 1420675200))) w) = Inr None"
  by (simp add: load_module_def world1_def get_candles_d_def minutes_def seconds_def
        get_candles_turn_def daterange_next_def)

lemma batches_last_minute:
  "fst (batches last_minute (get_candles (load_module world1) ''BTC-USD'' (seconds 1420675200) None) w) =
     Inr [[[JInt 1420693140, JFloat ''0.31'', JFloat ''0.35'', JFloat ''0.32'', JFloat ''0.34'',
            JFloat ''12.5'']]]"
proof -
  let ?fr = "get_candles (load_module world1) ''BTC-USD'' (seconds 1420675200) None"
  let ?fr' = "Suspended ''BTC-USD'' (seconds 1420675200)
             (get_candles_end_date (load_module world1) - get_candles_d)
             (seconds 1420675200 + get_candles_d) (date (seconds 1420675200))"
  let ?batch = "[[JInt 1420693140, JFloat ''0.31'', JFloat ''0.35'', JFloat ''0.32'', JFloat ''0.34'',
                  JFloat ''12.5'']]"
  let ?body = "\<lambda>data acc w'. (Inr (acc @ [data]) :: py_error + string candle list list, w' :: world)"
  obtain w1 where n1: "get_candles_next last_minute ?fr w = (Inr (Some (?batch, ?fr')), w1)"
    using next_last_minute_first [of w] by (cases "get_candles_next last_minute ?fr w") auto
  have s1: "for_candles last_minute ?body ?fr [] w = for_candles last_minute ?body ?fr' [?batch] w1"
    using n1 by (subst for_candles.simps) simp
  have "fst (get_candles_next last_minute ?fr' w1) = Inr None"
    by (rule next_last_minute_second)
  then have "for_candles last_minute ?body ?fr' [?batch] w1 =
               (Inr [?batch], snd (get_candles_next last_minute ?fr' w1))"
    by (rule for_candles_finished)
  then show ?thesis by (simp add: batches_def s1)
qed

section \<open>The freshness margin\<close>

lemma snd_get_candles_next_db:
  "get_candles_next up fr w = (res, w1) \<Longrightarrow> db w1 = db w"
  using db_get_candles_next [of up fr w] by simp

lemma program_last_minute:
  "db (snd (program lib0 (\<lambda>x. x) last_minute
              \<lparr>args_start_date = Some ''2015-01-08'', args_product = Some ''BTC-USD''\<rparr> world1)) =
     [\<lparr>market = ''BTC-USD'', time = ''1420693140'', open = ''0.32'', high = ''0.35'', low = ''0.31'',
        close = ''0.34'', volume = ''12.5''\<rparr>]"
proof -
  let ?a = "\<lparr>args_start_date = Some ''2015-01-08'', args_product = Some ''BTC-USD''\<rparr>"
  let ?fr = "get_candles (load_module world1) ''BTC-USD'' (seconds 1420675200) None"
  let ?fr' = "Suspended ''BTC-USD'' (seconds 1420675200)
             (get_candles_end_date (load_module world1) - get_candles_d)
             (seconds 1420675200 + get_candles_d) (date (seconds 1420675200))"
  let ?batch = "[[JInt 1420693140, JFloat ''0.31'', JFloat ''0.35'', JFloat ''0.32'', JFloat ''0.34'',
                  JFloat ''12.5'']]"
  let ?body = "main_body (\<lambda>x. x) ''BTC-USD''"
  define w0 where "w0 = logger INFO ''starting from''
      (logger INFO ''Updating'' (logger DEBUG ''Database'' world1))"
  have db0: "db w0 = []" by (simp add: w0_def world1_def)
  obtain w1 where n1: "get_candles_next last_minute ?fr w0 = (Inr (Some (?batch, ?fr')), w1)"
    using next_last_minute_first [of w0] by (cases "get_candles_next last_minute ?fr w0") auto
  have db1: "db w1 = []" using snd_get_candles_next_db [OF n1] db0 by simp
  define w2 where "w2 = sleep 500 (snd (insert_db (\<lambda>x. x) ''BTC-USD'' ?batch
      (logger DEBUG ''fetched candles'' w1)))"
  have body: "?body ?batch () w1 = (Inr (), w2)"
    by (simp add: main_body_eq w2_def)
  have db2: "db w2 = [\<lparr>market = ''BTC-USD'', time = ''1420693140'', open = ''0.32'', high = ''0.35'',
        low = ''0.31'', close = ''0.34'', volume = ''12.5''\<rparr>]"
    by (simp add: w2_def insert_db_eq db1 stored_wellformed has_key_def str_int_def str_nat.simps
          digit_char_def)
  have s1: "for_candles last_minute ?body ?fr () w0 = for_candles last_minute ?body ?fr' () w2"
    using n1 body by (subst for_candles.simps) simp
  define w3 where "w3 = snd (get_candles_next last_minute ?fr' w2)"
  have "fst (get_candles_next last_minute ?fr' w2) = Inr None"
    by (rule next_last_minute_second)
  then have s2: "for_candles last_minute ?body ?fr' () w2 = (Inr (), w3)"
    unfolding w3_def by (rule for_candles_finished)
  have db3: "db w3 = db w2"
    unfolding w3_def by (rule db_get_candles_next)
  have sd: "main_start_date lib0 ?a ''BTC-USD'' w = (Inr (seconds 1420675200), w)" for w
    by (simp add: main_start_date_def lib0_def strptime0_def)
  have ps: "products_to_update ?a = Inr [(''BTC-USD'', ''2015-01-08'')]"
    by (simp add: products_to_update_def PRODUCTS_def)
  have "program lib0 (\<lambda>x. x) last_minute ?a world1 = (Inr (), w3)"
    by (simp add: program_def main_def ps Let_def sd s1 [unfolded w0_def] s2)
  then show ?thesis by (simp add: db3 db2)
qed

text \<open>
  C1. A run started at 2015-01-08 05:01 for the history of a product from 2015-01-08 00:00
  on: the safe end is 00:01, the one window asked for runs from 00:00 to 05:00, the
  upstream answers with the candle of 04:59, and that candle, two minutes old, is yielded
  by \<open>get_candles\<close> and stored by the driver, although it is not earlier than the time of
  the call less 300 minutes.
\<close>

theorem get_candles_fetches_inside_margin:
  "get_candles_end_date (load_module world1) - get_candles_d = seconds 1420675200 + minutes 1
   \<and> fst (batches last_minute (get_candles (load_module world1) ''BTC-USD'' (seconds 1420675200) None)
            world1)
       = Inr [[[JInt 1420693140, JFloat ''0.31'', JFloat ''0.35'', JFloat ''0.32'', JFloat ''0.34'',
                JFloat ''12.5'']]]
   \<and> \<not> seconds 1420693140 < clock world1 - minutes 300
   \<and> seconds 1420693140 = clock world1 - minutes 2
   \<and> db (snd (program lib0 (\<lambda>x. x) last_minute
              \<lparr>args_start_date = Some ''2015-01-08'', args_product = Some ''BTC-USD''\<rparr> world1)) =
       [\<lparr>market = ''BTC-USD'', time = ''1420693140'', open = ''0.32'', high = ''0.35'', low = ''0.31'',
          close = ''0.34'', volume = ''12.5''\<rparr>]"
proof (intro conjI)
  show "get_candles_end_date (load_module world1) - get_candles_d = seconds 1420675200 + minutes 1"
    by (simp add: load_module_def world1_def get_candles_d_def minutes_def)
  show "fst (batches last_minute (get_candles (load_module world1) ''BTC-USD'' (seconds 1420675200) None)
            world1)
       = Inr [[[JInt 1420693140, JFloat ''0.31'', JFloat ''0.35'', JFloat ''0.32'', JFloat ''0.34'',
                JFloat ''12.5'']]]"
    by (rule batches_last_minute)
  show "\<not> seconds 1420693140 < clock world1 - minutes 300"
    by (simp add: world1_def seconds_def minutes_def)
  show "seconds 1420693140 = clock world1 - minutes 2"
    by (simp add: world1_def seconds_def minutes_def)
  show "db (snd (program lib0 (\<lambda>x. x) last_minute
              \<lparr>args_start_date = Some ''2015-01-08'', args_product = Some ''BTC-USD''\<rparr> world1)) =
       [\<lparr>market = ''BTC-USD'', time = ''1420693140'', open = ''0.32'', high = ''0.35'', low = ''0.31'',
          close = ''0.34'', volume = ''12.5''\<rparr>]"
    by (rule program_last_minute)
qed

section \<open>The default end date\<close>

lemma clock_emit [simp]: "clock (emit e w) = clock w"
  by (simp add: emit_def)

lemma clock_logger [simp]: "clock (logger lvl msg w) = clock w"
  by (simp add: logger_def)

lemma sent_insert_events [simp]: "sent (insert_events float_str product cs) = []"
  by (induction cs) simp_all

lemma sent_main_body:
  "sent (trace (snd (main_body float_str product cs u w))) = sent (trace w)"
  by (simp add: main_body_eq insert_db_eq sent_append)

lemma clock_main_body:
  "clock (snd (main_body float_str product cs u w)) = clock w + 500000"
  by (simp add: main_body_eq insert_db_eq sleep_def)

text \<open>The requests of \<open>get\<close> are all the one it was called for.\<close>

lemma get_loop_requests:
  "\<exists>new. sent (trace (snd (get_loop up u ps r is w))) = sent (trace w) @ new
         \<and> set new \<subseteq> {\<lparr>url = u, params = ps\<rparr>}"
proof (induction "is" arbitrary: r w)
  case Nil
  show ?case by simp
next
  case (Cons i rest)
  define k where "k = sleep 1000 (logger INFO ''Re-trying'' (logger WARNING ''HTTPError''
      (emit (Sent \<lparr>url = u, params = ps\<rparr>) w)))"
  have sk: "sent (trace k) = sent (trace w) @ [\<lparr>url = u, params = ps\<rparr>]"
    by (simp add: k_def)
  have ih: "\<exists>new. sent (trace (snd (get_loop up u ps r' rest k))) = sent (trace w) @ new
         \<and> set new \<subseteq> {\<lparr>url = u, params = ps\<rparr>}" for r'
  proof -
    obtain new where "sent (trace (snd (get_loop up u ps r' rest k))) = sent (trace k) @ new"
      and "set new \<subseteq> {\<lparr>url = u, params = ps\<rparr>}"
      using Cons.IH [of r' k] by blast
    then have "sent (trace (snd (get_loop up u ps r' rest k))) = sent (trace w) @ (\<lparr>url = u, params = ps\<rparr> # new)
        \<and> set (\<lparr>url = u, params = ps\<rparr> # new) \<subseteq> {\<lparr>url = u, params = ps\<rparr>}"
      by (simp add: sk)
    then show ?thesis by blast
  qed
  have one: "\<exists>new. sent (trace (emit (Sent \<lparr>url = u, params = ps\<rparr>) w)) = sent (trace w) @ new
         \<and> set new \<subseteq> {\<lparr>url = u, params = ps\<rparr>}"
    by simp
  show ?case
  proof (cases "up (length (sent (trace w))) \<lparr>url = u, params = ps\<rparr>")
    case None
    then show ?thesis using one by (simp add: requests_get_eq)
  next
    case (Some r')
    show ?thesis
    proof (cases "raise_for_status r'")
      case None
      then show ?thesis using Some one by (simp add: requests_get_eq)
    next
      case e: (Some e)
      show ?thesis
      proof (cases "status_code r' \<in> {429, 500} \<and> i < tries - 1")
        case True
        then have "get_loop up u ps r (i # rest) w = get_loop up u ps (Some r') rest k"
          using Some e by (simp add: requests_get_eq k_def)
        then show ?thesis using ih [of "Some r'"] by simp
      next
        case False
        then have "get_loop up u ps r (i # rest) w = (Inl e, emit (Sent \<lparr>url = u, params = ps\<rparr>) w)"
          using Some e by (auto simp: requests_get_eq)
        then show ?thesis using one by simp
      qed
    qed
  qed
qed

lemma get_requests:
  "\<exists>new. sent (trace (snd (get up u ps w))) = sent (trace w) @ new
         \<and> set new \<subseteq> {\<lparr>url = u, params = ps\<rparr>}"
  unfolding get_def by (rule get_loop_requests)

text \<open>One turn of \<open>get_candles\<close> asks for a window that starts before the end bound, if at all.\<close>

lemma get_candles_turn_requests:
  "\<exists>new. sent (trace (snd (get_candles_turn up product start_date end_date cursor prev w))) =
            sent (trace w) @ new
         \<and> set new \<subseteq> requests_before end_date"
proof (cases "cursor < end_date")
  case False
  then show ?thesis by (simp add: get_candles_turn_def daterange_next_def)
next
  case True
  let ?u = "API_URL @ ''/products/'' @ product @ ''/candles''"
  let ?ps = "\<lparr>start_param = cursor, end_param = cursor + get_candles_d, granularity = 60\<rparr>"
  define w2 where "w2 = (if date cursor \<noteq> prev
      then logger INFO ''importing'' (logger DEBUG ''window'' w) else logger DEBUG ''window'' w)"
  have n: "sent (trace w2) = sent (trace w)" by (simp add: w2_def)
  obtain r w3 where g: "get up ?u ?ps w2 = (r, w3)"
    by (cases "get up ?u ?ps w2") auto
  obtain new where new: "sent (trace w3) = sent (trace w) @ new"
    and sub: "set new \<subseteq> {\<lparr>url = ?u, params = ?ps\<rparr>}"
    using get_requests [of up ?u ?ps w2] g n by auto
  have "\<lparr>url = ?u, params = ?ps\<rparr> \<in> requests_before end_date"
    using True by (simp add: requests_before_def)
  then have sub': "set new \<subseteq> requests_before end_date" using sub by blast
  have "sent (trace (snd (get_candles_turn up product start_date end_date cursor prev w))) = sent (trace w3)"
    using True g
    by (cases r) (auto simp: get_candles_turn_def daterange_next_def Let_def w2_def split: py_error.split)
  then show ?thesis using new sub' by simp
qed

lemma get_candles_next_requests:
  "\<exists>new. sent (trace (snd (get_candles_next up fr w))) = sent (trace w) @ new
         \<and> set new \<subseteq> requests_before (frame_end fr)"
proof (cases fr)
  case (Created product start_date end_date0)
  show ?thesis
  proof (cases "end_date0 - get_candles_d < start_date")
    case True
    then show ?thesis using Created by (simp add: Let_def)
  next
    case False
    then show ?thesis
      using Created get_candles_turn_requests [of up product start_date "end_date0 - get_candles_d"
          start_date "date start_date" w]
      by (simp add: Let_def)
  qed
next
  case (Suspended product start_date end_date cursor prev)
  then show ?thesis
    using get_candles_turn_requests [of up product start_date end_date cursor prev w] by simp
qed

lemma frame_end_next:
  "get_candles_next up fr w = (Inr (Some (data, fr')), w1) \<Longrightarrow> frame_end fr' = frame_end fr"
  by (cases fr)
     (auto simp: get_candles_turn_def daterange_next_def Let_def
           split: if_splits prod.splits sum.splits py_error.splits)


text \<open>The loop of the driver over the batches of one product.\<close>

lemma for_candles_requests:
  "\<exists>new. sent (trace (snd (for_candles up (main_body float_str product) fr u w))) = sent (trace w) @ new
         \<and> set new \<subseteq> requests_before (frame_end fr)"
proof (induction up "main_body float_str product :: 'a candle list \<Rightarrow> unit \<Rightarrow> world \<Rightarrow> (py_error + unit) \<times> world"
    fr u w rule: for_candles.induct)
  case (1 up fr s w)
  obtain res w1 where nx: "get_candles_next up fr w = (res, w1)"
    by (cases "get_candles_next up fr w") auto
  obtain new1 where new1: "sent (trace w1) = sent (trace w) @ new1"
    and sub1: "set new1 \<subseteq> requests_before (frame_end fr)"
    using get_candles_next_requests [of up fr w] nx by auto
  show ?case
  proof (cases res)
    case (Inl e)
    then have "for_candles up (main_body float_str product) fr s w = (Inl e, w1)"
      using nx by (subst for_candles.simps) simp
    then show ?thesis using new1 sub1 by simp
  next
    case (Inr y)
    show ?thesis
    proof (cases y)
      case None
      then have "for_candles up (main_body float_str product) fr s w = (Inr s, w1)"
        using nx Inr by (subst for_candles.simps) simp
      then show ?thesis using new1 sub1 by simp
    next
      case (Some p)
      obtain data fr' where p: "p = (data, fr')" by (cases p) auto
      define w2 where "w2 = snd (main_body float_str product data s w1)"
      have body: "main_body float_str product data s w1 = (Inr (), w2)"
        by (simp add: main_body_eq w2_def)
      have s2: "sent (trace w2) = sent (trace w1)"
        unfolding w2_def by (rule sent_main_body)
      have fe: "frame_end fr' = frame_end fr"
        using nx Inr Some p by (intro frame_end_next [of up fr w data fr' w1]) simp
      have step: "for_candles up (main_body float_str product) fr s w =
                    for_candles up (main_body float_str product) fr' () w2"
        using nx Inr Some p body by (subst for_candles.simps) simp
      have "\<exists>new. sent (trace (snd (for_candles up (main_body float_str product) fr' () w2))) = sent (trace w2) @ new
         \<and> set new \<subseteq> requests_before (frame_end fr')"
        using nx Inr Some p body by (intro "1.hyps") auto
      then obtain new2 where new2: "sent (trace (snd (for_candles up (main_body float_str product) fr' () w2))) =
            sent (trace w2) @ new2"
        and sub2: "set new2 \<subseteq> requests_before (frame_end fr)"
        using fe by auto
      have "sent (trace (snd (for_candles up (main_body float_str product) fr s w))) =
              sent (trace w) @ (new1 @ new2)"
        by (simp only: step new2 s2 new1 append_assoc)
      moreover have "set (new1 @ new2) \<subseteq> requests_before (frame_end fr)"
        using sub1 sub2 by simp
      ultimately show ?thesis by blast
    qed
  qed
qed

lemma sent_main_start_date:
  "sent (trace (snd (main_start_date lib a product w))) = sent (trace w)"
  by (auto simp: main_start_date_def get_start_date_def split: option.split sum.split)

lemma main_loop_requests:
  "\<exists>new. sent (trace (snd (main_loop lib float_str up m a products w))) = sent (trace w) @ new
         \<and> set new \<subseteq> requests_before (get_candles_end_date m - get_candles_d)"
proof (induction products arbitrary: w)
  case Nil
  show ?case by simp
next
  case (Cons product rest)
  obtain r1 w1 where sd: "main_start_date lib a product w = (r1, w1)"
    by (cases "main_start_date lib a product w") auto
  have s1: "sent (trace w1) = sent (trace w)"
    using sent_main_start_date [of lib a product w] sd by simp
  show ?case
  proof (cases r1)
    case (Inl e)
    then show ?thesis using sd s1 by simp
  next
    case (Inr start_date)
    define w1' where "w1' = logger INFO ''starting from'' w1"
    define fr where "fr = get_candles m product start_date None"
    have fe: "frame_end fr = get_candles_end_date m - get_candles_d"
      by (simp add: fr_def get_candles_def)
    obtain r2 w2 where fc: "for_candles up (main_body float_str product) fr () w1' = (r2, w2)"
      by (cases "for_candles up (main_body float_str product) fr () w1'") auto
    obtain new2 where new2: "sent (trace w2) = sent (trace w) @ new2"
      and sub2: "set new2 \<subseteq> requests_before (get_candles_end_date m - get_candles_d)"
      using for_candles_requests [of up float_str product fr "()" w1'] fc fe s1
      by (auto simp: w1'_def)
    show ?thesis
    proof (cases r2)
      case (Inl e)
      then have "main_loop lib float_str up m a (product # rest) w = (Inl e, w2)"
        using sd \<open>r1 = Inr start_date\<close> fc by (simp add: fr_def w1'_def)
      then show ?thesis using new2 sub2 by simp
    next
      case (Inr u)
      have step: "main_loop lib float_str up m a (product # rest) w = main_loop lib float_str up m a rest w2"
        using sd \<open>r1 = Inr start_date\<close> fc Inr by (simp add: fr_def w1'_def)
      obtain new3 where new3: "sent (trace (snd (main_loop lib float_str up m a rest w2))) = sent (trace w2) @ new3"
        and sub3: "set new3 \<subseteq> requests_before (get_candles_end_date m - get_candles_d)"
        using Cons.IH [of w2] by blast
      have "sent (trace (snd (main_loop lib float_str up m a (product # rest) w))) = sent (trace w) @ (new2 @ new3)"
        by (simp only: step new3 new2 append_assoc)
      moreover have "set (new2 @ new3) \<subseteq> requests_before (get_candles_end_date m - get_candles_d)"
        using sub2 sub3 by simp
      ultimately show ?thesis by blast
    qed
  qed
qed

lemma main_requests:
  "\<exists>new. sent (trace (snd (main lib float_str up m a w))) = sent (trace w) @ new
         \<and> set new \<subseteq> requests_before (get_candles_end_date m - get_candles_d)"
proof (cases "products_to_update a")
  case (Inl e)
  then show ?thesis by (simp add: main_def Let_def)
next
  case (Inr ps)
  then show ?thesis
    using main_loop_requests [of lib float_str up m a "map fst ps"
        "logger INFO ''Updating'' (logger DEBUG ''Database'' w)"]
    by (simp add: main_def Let_def)
qed


text \<open>
  An upstream that answers every request with a body: \<open>get\<close> sends one request, and the
  loop over the batches of a product asks for every window of \<open>daterange\<close>, one request
  each, with a sleep of half a second after each batch.
\<close>

lemma get_ok:
  assumes "\<forall>n rq. \<exists>r data. up n rq = Some r \<and> status_code r < 400 \<and> json r = Some data"
  shows "\<exists>data. get up u ps w = (Inr data, emit (Sent \<lparr>url = u, params = ps\<rparr>) w)"
proof -
  obtain r data where r: "up (length (sent (trace w))) \<lparr>url = u, params = ps\<rparr> = Some r"
    and ok: "status_code r < 400" and js: "json r = Some data"
    using assms by blast
  have "get_loop up u ps None [0, Suc 0, Suc (Suc 0)] w =
          (r_json (Some r), emit (Sent \<lparr>url = u, params = ps\<rparr>) w)"
    by (rule get_loop_break) (use r ok in simp_all)
  then show ?thesis using js by (simp add: get_unfold)
qed

lemma window_requests_Cons:
  "window_requests product ((start, end) # ws) =
     \<lparr>url = API_URL @ ''/products/'' @ product @ ''/candles'',
       params = \<lparr>start_param = start, end_param = end, granularity = 60\<rparr>\<rparr> # window_requests product ws"
  by (simp add: window_requests_def)

lemma get_candles_d_pos: "0 < get_candles_d"
  by (simp add: get_candles_d_def minutes_def)

lemma for_candles_windows:
  assumes ok: "\<forall>n rq. \<exists>r data. up n rq = Some r \<and> status_code r < 400 \<and> json r = Some data"
  shows "(n = 0 \<or> cursor + (int n - 1) * get_candles_d < end_date) \<Longrightarrow>
     end_date \<le> cursor + int n * get_candles_d \<Longrightarrow>
     fst (for_candles up (main_body float_str product)
            (Suspended product start_date end_date cursor prev) () w) = Inr ()
     \<and> sent (trace (snd (for_candles up (main_body float_str product)
            (Suspended product start_date end_date cursor prev) () w))) =
         sent (trace w) @ window_requests product (windows cursor get_candles_d n)
     \<and> clock (snd (for_candles up (main_body float_str product)
            (Suspended product start_date end_date cursor prev) () w)) = clock w + int n * 500000"
proof (induction n arbitrary: cursor prev w)
  case 0
  then have "\<not> cursor < end_date" by simp
  then have nx: "get_candles_next up (Suspended product start_date end_date cursor prev) w = (Inr None, w)"
    by (simp add: get_candles_turn_def daterange_next_def)
  then have "fst (get_candles_next up (Suspended product start_date end_date cursor prev) w) = Inr None"
    by simp
  then have "for_candles up (main_body float_str product) (Suspended product start_date end_date cursor prev) () w =
      (Inr (), snd (get_candles_next up (Suspended product start_date end_date cursor prev) w))"
    by (rule for_candles_finished)
  then show ?case using nx by (simp add: windows_def window_requests_def)
next
  case (Suc n)
  let ?u = "API_URL @ ''/products/'' @ product @ ''/candles''"
  let ?ps = "\<lparr>start_param = cursor, end_param = cursor + get_candles_d, granularity = 60\<rparr>"
  let ?fr = "Suspended product start_date end_date cursor prev"
  let ?fr' = "Suspended product start_date end_date (cursor + get_candles_d) (date cursor)"
  have pos: "0 \<le> int n * get_candles_d" using get_candles_d_pos by simp
  from Suc.prems(1) have "cursor + int n * get_candles_d < end_date" by simp
  with pos have lt: "cursor < end_date" by linarith
  have a: "n = 0 \<or> (cursor + get_candles_d) + (int n - 1) * get_candles_d < end_date"
    using Suc.prems(1) by (auto simp: algebra_simps)
  have b: "end_date \<le> (cursor + get_candles_d) + int n * get_candles_d"
    using Suc.prems(2) by (simp add: algebra_simps)
  define w2 where "w2 = (if date cursor \<noteq> prev
      then logger INFO ''importing'' (logger DEBUG ''window'' w) else logger DEBUG ''window'' w)"
  have n2: "sent (trace w2) = sent (trace w)" and c2: "clock w2 = clock w"
    by (simp_all add: w2_def)
  define w3 where "w3 = emit (Sent \<lparr>url = ?u, params = ?ps\<rparr>) w2"
  obtain data where g: "get up ?u ?ps w2 = (Inr data, w3)"
    using get_ok [OF ok, where u = ?u and ps = ?ps and w = w2] unfolding w3_def by blast
  have nx: "get_candles_next up ?fr w = (Inr (Some (data, ?fr')), w3)"
    using lt g by (simp add: get_candles_turn_def daterange_next_def Let_def w2_def)
  define w4 where "w4 = snd (main_body float_str product data () w3)"
  have body: "main_body float_str product data () w3 = (Inr (), w4)"
    by (simp add: main_body_eq w4_def)
  have s4: "sent (trace w4) = sent (trace w) @ [\<lparr>url = ?u, params = ?ps\<rparr>]"
    by (simp add: w4_def sent_main_body w3_def n2)
  have c4: "clock w4 = clock w + 500000"
    by (simp add: w4_def clock_main_body w3_def c2)
  have step: "for_candles up (main_body float_str product) ?fr () w =
                for_candles up (main_body float_str product) ?fr' () w4"
    using nx body by (subst for_candles.simps) simp
  note ih = Suc.IH [OF a b, where prev = "date cursor" and w = w4]
  have w: "window_requests product (windows cursor get_candles_d (Suc n)) =
      \<lparr>url = ?u, params = ?ps\<rparr> # window_requests product (windows (cursor + get_candles_d) get_candles_d n)"
    by (simp only: windows_Suc window_requests_Cons)
  have r1: "fst (for_candles up (main_body float_str product) ?fr () w) = Inr ()"
    using ih by (simp only: step)
  have r2: "sent (trace (snd (for_candles up (main_body float_str product) ?fr () w))) =
         sent (trace w) @ window_requests product (windows cursor get_candles_d (Suc n))"
    using ih by (simp only: step w s4) simp
  have "clock (snd (for_candles up (main_body float_str product) ?fr () w)) = clock w4 + int n * 500000"
    using ih by (simp only: step)
  then have r3: "clock (snd (for_candles up (main_body float_str product) ?fr () w)) =
      clock w + int (Suc n) * 500000"
    by (simp add: c4 algebra_simps)
  show ?case by (intro conjI r1 r2 r3)
qed

lemma for_candles_created_windows:
  assumes ok: "\<forall>n rq. \<exists>r data. up n rq = Some r \<and> status_code r < 400 \<and> json r = Some data"
    and n1: "n = 0 \<or> start_date + (int n - 1) * get_candles_d < end_date0 - get_candles_d"
    and n2: "end_date0 - get_candles_d \<le> start_date + int n * get_candles_d"
  shows "fst (for_candles up (main_body float_str product)
            (Created product start_date end_date0) () w) = Inr ()
     \<and> sent (trace (snd (for_candles up (main_body float_str product)
            (Created product start_date end_date0) () w))) =
         sent (trace w) @ window_requests product (windows start_date get_candles_d n)
     \<and> clock (snd (for_candles up (main_body float_str product)
            (Created product start_date end_date0) () w)) = clock w + int n * 500000"
proof (cases "end_date0 - get_candles_d < start_date")
  case True
  have "n = 0"
  proof (rule ccontr)
    assume "n \<noteq> 0"
    then have "start_date + (int n - 1) * get_candles_d < end_date0 - get_candles_d"
      and "0 \<le> (int n - 1) * get_candles_d"
      using n1 get_candles_d_pos by simp_all
    then show False using True by linarith
  qed
  have nx: "get_candles_next up (Created product start_date end_date0) w =
      (Inr None, logger DEBUG ''start date is after end date'' w)"
    using True by (simp add: Let_def)
  then have "fst (get_candles_next up (Created product start_date end_date0) w) = Inr None"
    by simp
  then have "for_candles up (main_body float_str product) (Created product start_date end_date0) () w =
      (Inr (), snd (get_candles_next up (Created product start_date end_date0) w))"
    by (rule for_candles_finished)
  then show ?thesis using nx \<open>n = 0\<close> by (simp add: windows_def window_requests_def)
next
  case False
  then have "get_candles_next up (Created product start_date end_date0) w =
      get_candles_next up (Suspended product start_date (end_date0 - get_candles_d) start_date (date start_date)) w"
    by (simp add: Let_def)
  then have "for_candles up (main_body float_str product) (Created product start_date end_date0) () w =
      for_candles up (main_body float_str product)
        (Suspended product start_date (end_date0 - get_candles_d) start_date (date start_date)) () w"
    by (subst for_candles.simps, subst (2) for_candles.simps) (simp only:)
  then show ?thesis
    using for_candles_windows [OF ok n1 n2, where float_str = float_str and product = product
        and start_date = start_date and prev = "date start_date" and w = w]
    by (simp only:)
qed


lemma main_loop_windows:
  assumes ok: "\<forall>n rq. \<exists>r data. up n rq = Some r \<and> status_code r < 400 \<and> json r = Some data"
    and a: "args_start_date a = Some s" and sp: "strptime lib s = Some start_date"
    and n1: "n = 0 \<or> start_date + (int n - 1) * get_candles_d < get_candles_end_date m - get_candles_d"
    and n2: "get_candles_end_date m - get_candles_d \<le> start_date + int n * get_candles_d"
  shows "fst (main_loop lib float_str up m a products w) = Inr ()
     \<and> sent (trace (snd (main_loop lib float_str up m a products w))) =
         sent (trace w) @ concat (map (\<lambda>p. window_requests p (windows start_date get_candles_d n)) products)
     \<and> clock (snd (main_loop lib float_str up m a products w)) =
         clock w + int (length products * n) * 500000"
proof (induction products arbitrary: w)
  case Nil
  show ?case by simp
next
  case (Cons product rest)
  define w1 where "w1 = logger INFO ''starting from'' w"
  define fr where "fr = Created product start_date (get_candles_end_date m)"
  define w2 where "w2 = snd (for_candles up (main_body float_str product) fr () w1)"
  have sd: "main_start_date lib a product w = (Inr start_date, w)"
    using a sp by (simp add: main_start_date_def)
  note fc = for_candles_created_windows [OF ok n1 n2, where float_str = float_str
      and product = product and w = w1]
  have fc1: "for_candles up (main_body float_str product) fr () w1 = (Inr (), w2)"
    using fc by (simp add: fr_def w2_def prod_eq_iff)
  have s2: "sent (trace w2) = sent (trace w) @ window_requests product (windows start_date get_candles_d n)"
    using fc by (simp add: fr_def w2_def w1_def)
  have c2: "clock w2 = clock w + int n * 500000"
    using fc by (simp add: fr_def w2_def w1_def)
  have step: "main_loop lib float_str up m a (product # rest) w = main_loop lib float_str up m a rest w2"
    using sd fc1 by (simp add: get_candles_def fr_def w1_def)
  note ih = Cons.IH [of w2]
  have r1: "fst (main_loop lib float_str up m a (product # rest) w) = Inr ()"
    using ih by (simp only: step)
  have r2: "sent (trace (snd (main_loop lib float_str up m a (product # rest) w))) =
         sent (trace w) @ concat (map (\<lambda>p. window_requests p (windows start_date get_candles_d n)) (product # rest))"
    using ih by (simp only: step s2) simp
  have "clock (snd (main_loop lib float_str up m a (product # rest) w)) =
      clock w2 + int (length rest * n) * 500000"
    using ih by (simp only: step)
  then have r3: "clock (snd (main_loop lib float_str up m a (product # rest) w)) =
      clock w + int (length (product # rest) * n) * 500000"
    by (simp add: c2 algebra_simps)
  show ?case by (intro conjI r1 r2 r3)
qed

text \<open>
  C10. The end bound of every call of \<open>get_candles\<close> in a run of the program is the
  reading of the clock when the program started, less 300 minutes, however late in the run
  the call is made. (1) Whatever the upstream answers, every request of the run is for a
  window of 300 minutes that starts before that bound. (2) With a start date on the
  command line and an upstream that answers every request with a body, the run asks for
  the same windows for each product in turn, namely those \<open>daterange\<close> yields from the
  start date to that bound, one request each, and ends normally, while its clock moves on
  by half a second for each batch.
\<close>

theorem program_default_end_date_fixed:
  "(\<exists>new. sent (trace (snd (program lib float_str up a w))) = sent (trace w) @ new
        \<and> (\<forall>rq \<in> set new. start_param (params rq) < clock w - get_candles_d
                \<and> end_param (params rq) = start_param (params rq) + get_candles_d))
   \<and> (args_start_date a = Some s \<and> strptime lib s = Some start_date \<and> products_to_update a = Inr ps
        \<and> (\<forall>n rq. \<exists>r data. up n rq = Some r \<and> status_code r < 400 \<and> json r = Some data) \<longrightarrow>
      (\<exists>ws. daterange start_date (clock w - get_candles_d) get_candles_d = Some ws
          \<and> fst (program lib float_str up a w) = Inr ()
          \<and> sent (trace (snd (program lib float_str up a w))) =
              sent (trace w) @ concat (map (\<lambda>p. window_requests p ws) (map fst ps))
          \<and> clock (snd (program lib float_str up a w)) =
              clock w + int (length ps * length ws) * 500000))"
proof (intro conjI impI)
  obtain new where new: "sent (trace (snd (main lib float_str up (load_module w) a w))) = sent (trace w) @ new"
    and sub: "set new \<subseteq> requests_before (get_candles_end_date (load_module w) - get_candles_d)"
    using main_requests [of lib float_str up "load_module w" a w] by blast
  have "\<forall>rq \<in> set new. start_param (params rq) < clock w - get_candles_d
                \<and> end_param (params rq) = start_param (params rq) + get_candles_d"
    using sub by (auto simp: requests_before_def load_module_def)
  then show "\<exists>new. sent (trace (snd (program lib float_str up a w))) = sent (trace w) @ new
        \<and> (\<forall>rq \<in> set new. start_param (params rq) < clock w - get_candles_d
                \<and> end_param (params rq) = start_param (params rq) + get_candles_d)"
    using new unfolding program_def by blast
next
  assume h: "args_start_date a = Some s \<and> strptime lib s = Some start_date \<and> products_to_update a = Inr ps
        \<and> (\<forall>n rq. \<exists>r data. up n rq = Some r \<and> status_code r < 400 \<and> json r = Some data)"
  then have a: "args_start_date a = Some s" and sp: "strptime lib s = Some start_date"
    and ps: "products_to_update a = Inr ps"
    and ok: "\<forall>n rq. \<exists>r data. up n rq = Some r \<and> status_code r < 400 \<and> json r = Some data"
    by blast+
  define e where "e = get_candles_end_date (load_module w) - get_candles_d"
  have e: "e = clock w - get_candles_d" by (simp add: e_def load_module_def)
  obtain n where n1: "n = 0 \<or> start_date + (int n - 1) * get_candles_d < e"
    and n2: "e \<le> start_date + int n * get_candles_d"
    using window_count_exists [OF get_candles_d_pos, of start_date e] by blast
  define ws where "ws = windows start_date get_candles_d n"
  have dr: "daterange start_date (clock w - get_candles_d) get_candles_d = Some ws"
    unfolding ws_def e [symmetric] using get_candles_d_pos n1 n2 by (rule daterange_closed_form)
  have len: "length ws = n" by (simp add: ws_def length_windows)
  define w0 where "w0 = logger INFO ''Updating'' (logger DEBUG ''Database'' w)"
  have s0: "sent (trace w0) = sent (trace w)" and c0: "clock w0 = clock w"
    by (simp_all add: w0_def)
  have pr: "program lib float_str up a w = main_loop lib float_str up (load_module w) a (map fst ps) w0"
    using ps by (simp add: program_def main_def Let_def w0_def)
  note ml = main_loop_windows [OF ok a sp n1 [unfolded e_def] n2 [unfolded e_def],
      where float_str = float_str and products = "map fst ps" and w = w0]
  have r1: "fst (program lib float_str up a w) = Inr ()"
    using ml by (simp only: pr)
  have r2: "sent (trace (snd (program lib float_str up a w))) =
              sent (trace w) @ concat (map (\<lambda>p. window_requests p ws) (map fst ps))"
    using ml by (simp only: pr ws_def s0)
  have r3: "clock (snd (program lib float_str up a w)) = clock w + int (length ps * length ws) * 500000"
    using ml by (simp only: pr len c0 length_map)
  show "\<exists>ws. daterange start_date (clock w - get_candles_d) get_candles_d = Some ws
          \<and> fst (program lib float_str up a w) = Inr ()
          \<and> sent (trace (snd (program lib float_str up a w))) =
              sent (trace w) @ concat (map (\<lambda>p. window_requests p ws) (map fst ps))
          \<and> clock (snd (program lib float_str up a w)) =
              clock w + int (length ps * length ws) * 500000"
    using dr r1 r2 r3 by blast
qed

text \<open>
  The witness: a run started at 2015-01-08 09:59:59 for the history from 2015-01-08 00:00
  on, all twelve products. One window starts before the bound of the start of the run,
  and each product is asked for that window alone. The run lasts six seconds; the bound
  read from the clock at its end would admit a second window.
\<close>

theorem program_default_end_date_fixed_witness:
  "daterange (seconds 1420675200) (clock world2 - get_candles_d) get_candles_d = Some [(seconds 1420675200, seconds 1420675200 + get_candles_d)]
   \<and> fst (program lib0 (\<lambda>x. x) last_minute \<lparr>args_start_date = Some ''2015-01-08'', args_product = None\<rparr> world2) = Inr ()
   \<and> sent (trace (snd (program lib0 (\<lambda>x. x) last_minute \<lparr>args_start_date = Some ''2015-01-08'', args_product = None\<rparr> world2))) =
       concat (map (\<lambda>p. window_requests p [(seconds 1420675200, seconds 1420675200 + get_candles_d)]) (map fst PRODUCTS))
   \<and> clock (snd (program lib0 (\<lambda>x. x) last_minute \<lparr>args_start_date = Some ''2015-01-08'', args_product = None\<rparr> world2)) = clock world2 + 6000000
   \<and> daterange (seconds 1420675200) (clock (snd (program lib0 (\<lambda>x. x) last_minute \<lparr>args_start_date = Some ''2015-01-08'', args_product = None\<rparr> world2)) - get_candles_d) get_candles_d =
       Some [(seconds 1420675200, seconds 1420675200 + get_candles_d), (seconds 1420675200 + get_candles_d, seconds 1420675200 + get_candles_d + get_candles_d)]"
proof -
  have dr: "daterange (seconds 1420675200) (clock world2 - get_candles_d) get_candles_d = Some [(seconds 1420675200, seconds 1420675200 + get_candles_d)]"
  proof -
    have l0: "seconds 1420675200 < clock world2 - get_candles_d"
      by (simp add: world2_def get_candles_d_def minutes_def seconds_def)
    have l1: "clock world2 - get_candles_d \<le> seconds 1420675200 + get_candles_d"
      by (simp add: world2_def get_candles_d_def minutes_def seconds_def)
    show ?thesis
      by (simp only: daterange_go [OF l0] daterange_stop [OF l1] Option.bind.simps)
  qed
  have hyp: "args_start_date \<lparr>args_start_date = Some ''2015-01-08'', args_product = None\<rparr> = Some ''2015-01-08''
      \<and> strptime lib0 ''2015-01-08'' = Some (seconds 1420675200)
      \<and> products_to_update \<lparr>args_start_date = Some ''2015-01-08'', args_product = None\<rparr> = Inr PRODUCTS
      \<and> (\<forall>n rq. \<exists>r data. last_minute n rq = Some r \<and> status_code r < 400 \<and> json r = Some data)"
    by (simp add: lib0_def strptime0_def products_to_update_def last_minute_def)
  obtain ws where ws: "daterange (seconds 1420675200) (clock world2 - get_candles_d) get_candles_d = Some ws"
    and r1: "fst (program lib0 (\<lambda>x. x) last_minute \<lparr>args_start_date = Some ''2015-01-08'', args_product = None\<rparr> world2) = Inr ()"
    and r2: "sent (trace (snd (program lib0 (\<lambda>x. x) last_minute \<lparr>args_start_date = Some ''2015-01-08'', args_product = None\<rparr> world2))) =
       sent (trace world2) @ concat (map (\<lambda>p. window_requests p ws) (map fst PRODUCTS))"
    and r3: "clock (snd (program lib0 (\<lambda>x. x) last_minute \<lparr>args_start_date = Some ''2015-01-08'', args_product = None\<rparr> world2)) = clock world2 + int (length PRODUCTS * length ws) * 500000"
    using program_default_end_date_fixed [where lib = lib0 and float_str = "\<lambda>x. x" and up = last_minute
        and a = "\<lparr>args_start_date = Some ''2015-01-08'', args_product = None\<rparr>" and w = world2 and s = "''2015-01-08''" and start_date = "seconds 1420675200" and ps = PRODUCTS] hyp
    by blast
  have eq: "ws = [(seconds 1420675200, seconds 1420675200 + get_candles_d)]" using ws dr by simp
  have a2: "sent (trace (snd (program lib0 (\<lambda>x. x) last_minute \<lparr>args_start_date = Some ''2015-01-08'', args_product = None\<rparr> world2))) =
       concat (map (\<lambda>p. window_requests p [(seconds 1420675200, seconds 1420675200 + get_candles_d)]) (map fst PRODUCTS))"
    using r2 by (simp only: eq) (simp add: world2_def)
  have a3: "clock (snd (program lib0 (\<lambda>x. x) last_minute \<lparr>args_start_date = Some ''2015-01-08'', args_product = None\<rparr> world2)) = clock world2 + 6000000"
    using r3 by (simp only: eq) (simp add: PRODUCTS_def)
  have a4: "daterange (seconds 1420675200) (clock (snd (program lib0 (\<lambda>x. x) last_minute \<lparr>args_start_date = Some ''2015-01-08'', args_product = None\<rparr> world2)) - get_candles_d) get_candles_d =
       Some [(seconds 1420675200, seconds 1420675200 + get_candles_d), (seconds 1420675200 + get_candles_d, seconds 1420675200 + get_candles_d + get_candles_d)]"
  proof -
    have l0: "seconds 1420675200 < clock world2 + 6000000 - get_candles_d"
      by (simp add: world2_def get_candles_d_def minutes_def seconds_def)
    have l1: "seconds 1420675200 + get_candles_d < clock world2 + 6000000 - get_candles_d"
      by (simp add: world2_def get_candles_d_def minutes_def seconds_def)
    have l2: "clock world2 + 6000000 - get_candles_d \<le> seconds 1420675200 + get_candles_d + get_candles_d"
      by (simp add: world2_def get_candles_d_def minutes_def seconds_def)
    show ?thesis
      by (simp only: a3 daterange_go [OF l0] daterange_go [OF l1] daterange_stop [OF l2] Option.bind.simps)
  qed
  show ?thesis
    by (intro conjI dr r1 a2 a3 a4)
qed

end
